(* ===== verification/Prelude.thy ===== *)
theory Prelude
  imports Main "HOL-Library.Signed_Division" "HOL-Library.Word"
begin

text \<open>
  Shared ground of the development: the C integer types, the flag macros, byte buffers and
  the automation every component uses.

  A C object of integer type is modelled by the mathematical integer it holds.  Every
  conversion to a C type, and every arithmetic result that can leave the range of the type
  it is computed in, goes through one of the functions \<open>u8\<close>, \<open>u16\<close>, \<open>u32\<close>, \<open>i8\<close>, \<open>i16\<close>,
  \<open>i32\<close>, \<open>i64\<close> below, which write the wrap-around out.  This is what gcc's code for the
  target (ARM Cortex-M7, little endian, plain \<open>char\<close> unsigned) computes.  C's truncating
  division and remainder are \<open>sdiv\<close> and \<open>smod\<close> of HOL-Library.Signed_Division; a right
  shift of a signed value is arithmetic, so it is \<open>div\<close> by a power of two.
\<close>

unbundle bit_operations_syntax

named_theorems c_conv \<open>definitions of the C integer conversions\<close>
named_theorems c_range \<open>range facts of the C integer conversions\<close>
named_theorems frame \<open>state components an operation leaves unchanged\<close>
named_theorems buf_simps \<open>reading a byte buffer after writes to it\<close>

section \<open>C integers\<close>

definition u8 :: "int \<Rightarrow> int" where "u8 x = x mod 256"
definition u16 :: "int \<Rightarrow> int" where "u16 x = x mod 65536"
definition u32 :: "int \<Rightarrow> int" where "u32 x = x mod 4294967296"
definition i8 :: "int \<Rightarrow> int" where "i8 x = (x + 128) mod 256 - 128"
definition i16 :: "int \<Rightarrow> int" where "i16 x = (x + 32768) mod 65536 - 32768"
definition i32 :: "int \<Rightarrow> int" where
  "i32 x = (x + 2147483648) mod 4294967296 - 2147483648"
definition i64 :: "int \<Rightarrow> int" where
  "i64 x = (x + 9223372036854775808) mod 18446744073709551616 - 9223372036854775808"

lemmas [c_conv] = u8_def u16_def u32_def i8_def i16_def i32_def i64_def

text \<open>The values a C object of each type can hold.\<close>

definition is_u8 :: "int \<Rightarrow> bool" where "is_u8 x \<longleftrightarrow> 0 \<le> x \<and> x \<le> 255"
definition is_u16 :: "int \<Rightarrow> bool" where "is_u16 x \<longleftrightarrow> 0 \<le> x \<and> x \<le> 65535"
definition is_u32 :: "int \<Rightarrow> bool" where "is_u32 x \<longleftrightarrow> 0 \<le> x \<and> x \<le> 4294967295"
definition is_i8 :: "int \<Rightarrow> bool" where "is_i8 x \<longleftrightarrow> -128 \<le> x \<and> x \<le> 127"
definition is_i16 :: "int \<Rightarrow> bool" where "is_i16 x \<longleftrightarrow> -32768 \<le> x \<and> x \<le> 32767"
definition is_i32 :: "int \<Rightarrow> bool" where
  "is_i32 x \<longleftrightarrow> -2147483648 \<le> x \<and> x \<le> 2147483647"
definition is_i64 :: "int \<Rightarrow> bool" where
  "is_i64 x \<longleftrightarrow> -9223372036854775808 \<le> x \<and> x \<le> 9223372036854775807"

lemmas [c_range] =
  is_u8_def is_u16_def is_u32_def is_i8_def is_i16_def is_i32_def is_i64_def

lemma conv_id [simp]:
  "is_u8 x \<Longrightarrow> u8 x = x" "is_u16 x \<Longrightarrow> u16 x = x" "is_u32 x \<Longrightarrow> u32 x = x"
  "is_i8 x \<Longrightarrow> i8 x = x" "is_i16 x \<Longrightarrow> i16 x = x" "is_i32 x \<Longrightarrow> i32 x = x"
  "is_i64 x \<Longrightarrow> i64 x = x"
  by (auto simp: c_conv c_range)

lemma conv_range [simp, intro!]:
  "is_u8 (u8 x)" "is_u16 (u16 x)" "is_u32 (u32 x)"
  "is_i8 (i8 x)" "is_i16 (i16 x)" "is_i32 (i32 x)" "is_i64 (i64 x)"
  using pos_mod_bound [of 256] pos_mod_bound [of 65536] pos_mod_bound [of 4294967296]
    pos_mod_bound [of 18446744073709551616]
  by (auto simp: c_conv c_range zle_diff1_eq [symmetric] algebra_simps)

lemma conv_idem [simp]:
  "u8 (u8 x) = u8 x" "u16 (u16 x) = u16 x" "u32 (u32 x) = u32 x"
  "i8 (i8 x) = i8 x" "i16 (i16 x) = i16 x" "i32 (i32 x) = i32 x" "i64 (i64 x) = i64 x"
  by simp_all

lemma conv_change_sign [simp]:
  "u8 (i8 x) = u8 x" "i8 (u8 x) = i8 x" "u16 (i16 x) = u16 x" "i16 (u16 x) = i16 x"
  "u32 (i32 x) = u32 x" "i32 (u32 x) = i32 x"
  by (simp_all add: c_conv mod_diff_left_eq mod_add_left_eq)

text \<open>Conversions of literals compute.\<close>

lemma conv_literal [simp]:
  "u8 0 = 0" "u8 1 = 1"
  "u16 0 = 0" "u16 1 = 1"
  "u32 0 = 0" "u32 1 = 1"
  "i8 0 = 0" "i8 1 = 1"
  "i16 0 = 0" "i16 1 = 1"
  "i32 0 = 0" "i32 1 = 1"
  "i64 0 = 0" "i64 1 = 1"
  "u8 (numeral n) = numeral n mod 256"
  "u8 (- numeral n) = - numeral n mod 256"
  "u16 (numeral n) = numeral n mod 65536"
  "u16 (- numeral n) = - numeral n mod 65536"
  "u32 (numeral n) = numeral n mod 4294967296"
  "u32 (- numeral n) = - numeral n mod 4294967296"
  "i8 (numeral n) = (numeral n + 128) mod 256 - 128"
  "i8 (- numeral n) = (- numeral n + 128) mod 256 - 128"
  "i16 (numeral n) = (numeral n + 32768) mod 65536 - 32768"
  "i16 (- numeral n) = (- numeral n + 32768) mod 65536 - 32768"
  "i32 (numeral n) = (numeral n + 2147483648) mod 4294967296 - 2147483648"
  "i32 (- numeral n) = (- numeral n + 2147483648) mod 4294967296 - 2147483648"
  "i64 (numeral n) = (numeral n + 9223372036854775808) mod 18446744073709551616 - 9223372036854775808"
  "i64 (- numeral n) = (- numeral n + 9223372036854775808) mod 18446744073709551616 - 9223372036854775808"
  by (simp_all add: c_conv)

lemma i32_exact: "-2147483648 \<le> x \<Longrightarrow> x \<le> 2147483647 \<Longrightarrow> i32 x = x"
  by (simp add: is_i32_def)

lemma i32_small [simp]: "\<bar>x\<bar> \<le> 2147483647 \<Longrightarrow> i32 x = x"
  by (simp add: is_i32_def abs_le_iff)

text \<open>C's remainder by a positive number, split by the sign of the dividend.\<close>

lemma sdiv_pos:
  fixes x c :: int
  assumes "0 < c"
  shows "x sdiv c = (if 0 \<le> x then x div c else - ((- x) div c))"
  using assms by (auto simp: signed_divide_int_def sgn_if)

lemma smod_pos:
  fixes x c :: int
  assumes "0 < c"
  shows "x smod c = (if 0 \<le> x then x mod c else - ((- x) mod c))"
  using assms by (auto simp: smod_int_alt_def sgn_if)

section \<open>The flag macros of \<open>ptpd_dep.h\<close>\<close>

definition getFlag :: "int \<Rightarrow> int \<Rightarrow> bool" where
  "getFlag flagField msk \<longleftrightarrow> flagField AND msk = msk"

definition setFlag :: "int \<Rightarrow> int \<Rightarrow> int" where
  "setFlag flagField msk = flagField OR msk"

definition clearFlag :: "int \<Rightarrow> int \<Rightarrow> int" where
  "clearFlag flagField msk = flagField AND NOT msk"

lemma and_power_eq: "x AND (2 ^ k) = (2 ^ k) \<longleftrightarrow> bit x k" for x :: int
proof
  assume *: "x AND (2 ^ k) = (2 ^ k)"
  have "bit (x AND (2 ^ k)) k" unfolding * by (simp add: bit_exp_iff)
  then show "bit x k" by (simp add: bit_and_iff)
next
  assume "bit x k"
  then show "x AND (2 ^ k) = (2 ^ k)"
    by (intro bit_eqI) (auto simp only: bit_and_iff bit_exp_iff)
qed

lemma getFlag_bit: "getFlag x (2 ^ k) = bit x k"
  by (simp add: getFlag_def and_power_eq)

lemma bit_setFlag: "bit (setFlag x (2 ^ k)) j \<longleftrightarrow> bit x j \<or> j = k"
  by (auto simp: setFlag_def bit_or_iff bit_exp_iff)

lemma bit_clearFlag: "bit (clearFlag x (2 ^ k)) j \<longleftrightarrow> bit x j \<and> j \<noteq> k"
  by (auto simp: clearFlag_def bit_and_iff bit_not_iff bit_exp_iff)

lemmas flag_simps = getFlag_bit bit_setFlag bit_clearFlag

end
