(* ===== verification/Datatypes.thy ===== *)
theory Datatypes
  imports Complex_Main Prelude
begin

text \<open>
  The data of the PTP daemon: \<open>datatypes.h\<close>, \<open>dep/datatypes_dep.h\<close> and the enumerations and
  defaults of \<open>constants.h\<close> and \<open>dep/constants_dep.h\<close>.  A C struct is a record with the
  struct's fields; where two structs use one field name, the record fields carry a short
  prefix (\<open>h_\<close> header, \<open>a_\<close> announce, \<open>d_\<close> defaultDS, \<open>p_\<close> parentDS, \<open>r_\<close> run-time options).
  A C array of octets is an octet list, a \<open>float\<close> the rational number it denotes, a nullable
  pointer an option.  Members of the structs that no code reads or writes
  (\<open>ifaceName\<close>, \<open>unicastAddress\<close>, the management and signaling bodies) are left out.
\<close>

type_synonym octet = "8 word"

section \<open>Constants\<close>

definition CLOCK_IDENTITY_LENGTH :: nat where "CLOCK_IDENTITY_LENGTH = 8"
definition PACKET_SIZE :: nat where "PACKET_SIZE = 300"
definition PBUF_QUEUE_SIZE :: nat where "PBUF_QUEUE_SIZE = 4"
definition INT_MAX :: int where "INT_MAX = 2147483647"
definition ADJ_FREQ_MAX :: int where "ADJ_FREQ_MAX = 512000"
definition MAX_ADJ_OFFSET_NS :: int where "MAX_ADJ_OFFSET_NS = 100000000"
definition PTP_EVENT_PORT :: int where "PTP_EVENT_PORT = 319"
definition PTP_GENERAL_PORT :: int where "PTP_GENERAL_PORT = 320"

text \<open>Minimal message lengths.\<close>

definition HEADER_LENGTH :: nat where "HEADER_LENGTH = 34"
definition ANNOUNCE_LENGTH :: nat where "ANNOUNCE_LENGTH = 64"
definition SYNC_LENGTH :: nat where "SYNC_LENGTH = 44"
definition FOLLOW_UP_LENGTH :: nat where "FOLLOW_UP_LENGTH = 44"
definition PDELAY_REQ_LENGTH :: nat where "PDELAY_REQ_LENGTH = 54"
definition DELAY_REQ_LENGTH :: nat where "DELAY_REQ_LENGTH = 44"
definition DELAY_RESP_LENGTH :: nat where "DELAY_RESP_LENGTH = 54"
definition PDELAY_RESP_LENGTH :: nat where "PDELAY_RESP_LENGTH = 54"
definition PDELAY_RESP_FOLLOW_UP_LENGTH :: nat where "PDELAY_RESP_FOLLOW_UP_LENGTH = 54"

lemmas length_defs = CLOCK_IDENTITY_LENGTH_def PACKET_SIZE_def PBUF_QUEUE_SIZE_def HEADER_LENGTH_def
  ANNOUNCE_LENGTH_def SYNC_LENGTH_def FOLLOW_UP_LENGTH_def PDELAY_REQ_LENGTH_def
  DELAY_REQ_LENGTH_def DELAY_RESP_LENGTH_def PDELAY_RESP_LENGTH_def
  PDELAY_RESP_FOLLOW_UP_LENGTH_def

text \<open>Message types (Table 19) and control fields (Table 23).\<close>

definition SYNC :: int where "SYNC = 0"
definition DELAY_REQ :: int where "DELAY_REQ = 1"
definition PDELAY_REQ :: int where "PDELAY_REQ = 2"
definition PDELAY_RESP :: int where "PDELAY_RESP = 3"
definition FOLLOW_UP :: int where "FOLLOW_UP = 8"
definition DELAY_RESP :: int where "DELAY_RESP = 9"
definition PDELAY_RESP_FOLLOW_UP :: int where "PDELAY_RESP_FOLLOW_UP = 10"
definition ANNOUNCE :: int where "ANNOUNCE = 11"
definition SIGNALING :: int where "SIGNALING = 12"
definition MANAGEMENT :: int where "MANAGEMENT = 13"

lemmas msg_type_defs = SYNC_def DELAY_REQ_def PDELAY_REQ_def PDELAY_RESP_def FOLLOW_UP_def
  DELAY_RESP_def PDELAY_RESP_FOLLOW_UP_def ANNOUNCE_def SIGNALING_def MANAGEMENT_def

definition CTRL_SYNC :: int where "CTRL_SYNC = 0"
definition CTRL_DELAY_REQ :: int where "CTRL_DELAY_REQ = 1"
definition CTRL_FOLLOW_UP :: int where "CTRL_FOLLOW_UP = 2"
definition CTRL_DELAY_RESP :: int where "CTRL_DELAY_RESP = 3"
definition CTRL_OTHER :: int where "CTRL_OTHER = 5"

lemmas ctrl_defs = CTRL_SYNC_def CTRL_DELAY_REQ_def CTRL_FOLLOW_UP_def CTRL_DELAY_RESP_def
  CTRL_OTHER_def

text \<open>Message flags and stack events; each is one bit.\<close>

definition FLAG0_TWO_STEP :: int where "FLAG0_TWO_STEP = 2"
definition FLAG1_LEAP61 :: int where "FLAG1_LEAP61 = 1"
definition FLAG1_LEAP59 :: int where "FLAG1_LEAP59 = 2"
definition FLAG1_UTC_OFFSET_VALID :: int where "FLAG1_UTC_OFFSET_VALID = 4"
definition FLAG1_PTP_TIMESCALE :: int where "FLAG1_PTP_TIMESCALE = 8"
definition FLAG1_TIME_TRACEABLE :: int where "FLAG1_TIME_TRACEABLE = 16"
definition FLAG1_FREQUENCY_TRACEABLE :: int where "FLAG1_FREQUENCY_TRACEABLE = 32"

definition STATE_DECISION_EVENT :: int where "STATE_DECISION_EVENT = 0x40"
definition SYNCHRONIZATION_FAULT :: int where "SYNCHRONIZATION_FAULT = 0x200"
definition MASTER_CLOCK_SELECTED :: int where "MASTER_CLOCK_SELECTED = 0x400"
definition MASTER_CLOCK_CHANGED :: int where "MASTER_CLOCK_CHANGED = 0x800"

lemma event_bits:
  "STATE_DECISION_EVENT = 2 ^ 6" "SYNCHRONIZATION_FAULT = 2 ^ 9"
  "MASTER_CLOCK_SELECTED = 2 ^ 10" "MASTER_CLOCK_CHANGED = 2 ^ 11"
  by (simp_all add: STATE_DECISION_EVENT_def SYNCHRONIZATION_FAULT_def
      MASTER_CLOCK_SELECTED_def MASTER_CLOCK_CHANGED_def)

text \<open>Indices of the timer array.\<close>

definition PDELAYREQ_INTERVAL_TIMER :: nat where "PDELAYREQ_INTERVAL_TIMER = 0"
definition DELAYREQ_INTERVAL_TIMER :: nat where "DELAYREQ_INTERVAL_TIMER = 1"
definition SYNC_INTERVAL_TIMER :: nat where "SYNC_INTERVAL_TIMER = 2"
definition ANNOUNCE_RECEIPT_TIMER :: nat where "ANNOUNCE_RECEIPT_TIMER = 3"
definition ANNOUNCE_INTERVAL_TIMER :: nat where "ANNOUNCE_INTERVAL_TIMER = 4"
definition QUALIFICATION_TIMEOUT :: nat where "QUALIFICATION_TIMEOUT = 5"
definition TIMER_ARRAY_SIZE :: nat where "TIMER_ARRAY_SIZE = 6"

lemmas timer_ix_defs = PDELAYREQ_INTERVAL_TIMER_def DELAYREQ_INTERVAL_TIMER_def
  SYNC_INTERVAL_TIMER_def ANNOUNCE_RECEIPT_TIMER_def ANNOUNCE_INTERVAL_TIMER_def
  QUALIFICATION_TIMEOUT_def TIMER_ARRAY_SIZE_def

text \<open>Defaults.\<close>

definition DEFAULT_ANNOUNCE_INTERVAL :: int where "DEFAULT_ANNOUNCE_INTERVAL = 2"
definition DEFAULT_SYNC_INTERVAL :: int where "DEFAULT_SYNC_INTERVAL = 0"
definition DEFAULT_DELAYREQ_INTERVAL :: int where "DEFAULT_DELAYREQ_INTERVAL = 0"
definition DEFAULT_PDELAYREQ_INTERVAL :: int where "DEFAULT_PDELAYREQ_INTERVAL = 1"
definition DEFAULT_ANNOUNCE_RECEIPT_TIMEOUT :: int where "DEFAULT_ANNOUNCE_RECEIPT_TIMEOUT = 6"
definition DEFAULT_CALIBRATED_OFFSET_NS :: int where "DEFAULT_CALIBRATED_OFFSET_NS = 10000"
definition DEFAULT_UNCALIBRATED_OFFSET_NS :: int where "DEFAULT_UNCALIBRATED_OFFSET_NS = 1000000"
definition DEFAULT_CLOCK_CLASS :: int where "DEFAULT_CLOCK_CLASS = 248"
definition DEFAULT_CLOCK_CLASS_SLAVE_ONLY :: int where "DEFAULT_CLOCK_CLASS_SLAVE_ONLY = 255"
definition DEFAULT_CLOCK_ACCURACY :: int where "DEFAULT_CLOCK_ACCURACY = 0xFE"
definition DEFAULT_CLOCK_VARIANCE :: int where "DEFAULT_CLOCK_VARIANCE = 5000"
definition DEFAULT_PRIORITY1 :: int where "DEFAULT_PRIORITY1 = 128"
definition DEFAULT_PRIORITY2 :: int where "DEFAULT_PRIORITY2 = 128"
definition DEFAULT_DOMAIN_NUMBER :: int where "DEFAULT_DOMAIN_NUMBER = 0"
definition DEFAULT_MAX_FOREIGN_RECORDS :: int where "DEFAULT_MAX_FOREIGN_RECORDS = 5"
definition DEFAULT_UTC_OFFSET :: int where "DEFAULT_UTC_OFFSET = 0"
definition DEFAULT_TIME_SOURCE :: int where "DEFAULT_TIME_SOURCE = 0xA0"
definition DEFAULT_DELAY_S :: int where "DEFAULT_DELAY_S = 6"
definition DEFAULT_OFFSET_S :: int where "DEFAULT_OFFSET_S = 0"
definition NUMBER_PORTS :: int where "NUMBER_PORTS = 1"
definition VERSION_PTP :: int where "VERSION_PTP = 2"

section \<open>Enumerations\<close>

datatype ptp_state = PTP_INITIALIZING | PTP_FAULTY | PTP_DISABLED | PTP_LISTENING
  | PTP_PRE_MASTER | PTP_MASTER | PTP_PASSIVE | PTP_UNCALIBRATED | PTP_SLAVE

datatype delay_mechanism = E2E | P2P | DELAY_DISABLED

section \<open>Times and identities\<close>

record TimeInternal =
  seconds :: int
  nanoseconds :: int

record uint48bit_t =
  u48_lsb :: int
  u48_msb :: int

record Timestamp =
  secondsField :: uint48bit_t
  nanosecondsField :: int

type_synonym ClockIdentity = "octet list"

record PortIdentity =
  clockIdentity :: ClockIdentity
  portNumber :: int

record ClockQuality =
  clockClass :: int
  clockAccuracy :: int
  offsetScaledLogVariance :: int

section \<open>Messages\<close>

record MsgHeader =
  h_transportSpecific :: int
  messageType :: int
  versionPTP :: int
  messageLength :: int
  h_domainNumber :: int
  flagField :: "octet list"
  correctionfield :: int
  sourcePortIdentity :: PortIdentity
  sequenceId :: int
  controlField :: int
  logMessageInterval :: int

record MsgAnnounce =
  a_originTimestamp :: Timestamp
  a_currentUtcOffset :: int
  a_grandmasterPriority1 :: int
  a_grandmasterClockQuality :: ClockQuality
  a_grandmasterPriority2 :: int
  a_grandmasterIdentity :: ClockIdentity
  a_stepsRemoved :: int
  a_timeSource :: int

record MsgSync =
  sync_originTimestamp :: Timestamp

record MsgFollowUp =
  preciseOriginTimestamp :: Timestamp

record MsgDelayReq =
  delayReq_originTimestamp :: Timestamp

record MsgDelayResp =
  receiveTimestamp :: Timestamp
  resp_requestingPortIdentity :: PortIdentity

record MsgPDelayReq =
  pdelayReq_originTimestamp :: Timestamp

record MsgPDelayResp =
  requestReceiptTimestamp :: Timestamp
  presp_requestingPortIdentity :: PortIdentity

record MsgPDelayRespFollowUp =
  responseOriginTimestamp :: Timestamp
  prespfollow_requestingPortIdentity :: PortIdentity

text \<open>
  The union \<open>msgTmp\<close>: the constructor is the member written last.  The code reads a member
  only after it wrote that member, except \<open>copyD0\<close>, which assigns some fields of the
  announce member of whatever the union holds; \<open>tmp_announce\<close> then starts from the fields
  \<open>junk\<close>, about which nothing is assumed.
\<close>

datatype MsgTmp =
    TmpNone
  | TmpSync MsgSync
  | TmpFollow MsgFollowUp
  | TmpResp MsgDelayResp
  | TmpPResp MsgPDelayResp
  | TmpPRespFollow MsgPDelayRespFollowUp
  | TmpAnnounce MsgAnnounce

fun tmp_announce :: "MsgAnnounce \<Rightarrow> MsgTmp \<Rightarrow> MsgAnnounce" where
  "tmp_announce junk (TmpAnnounce a) = a"
| "tmp_announce junk _ = junk"

section \<open>Data sets\<close>

record ForeignMasterRecord =
  foreignMasterPortIdentity :: PortIdentity
  foreignMasterAnnounceMessages :: int
  f_announce :: MsgAnnounce
  f_header :: MsgHeader

record DefaultDS =
  twoStepFlag :: bool
  d_clockIdentity :: ClockIdentity
  numberPorts :: int
  d_clockQuality :: ClockQuality
  d_priority1 :: int
  d_priority2 :: int
  d_domainNumber :: int
  d_slaveOnly :: bool
  d_transportSpecific :: bool

record CurrentDS =
  c_stepsRemoved :: int
  offsetFromMaster :: TimeInternal
  meanPathDelay :: TimeInternal

record ParentDS =
  parentPortIdentity :: PortIdentity
  parentStats :: bool
  observedParentOffsetScaledLogVariance :: int
  observedParentClockPhaseChangeRate :: int
  p_grandmasterIdentity :: ClockIdentity
  p_grandmasterClockQuality :: ClockQuality
  p_grandmasterPriority1 :: int
  p_grandmasterPriority2 :: int

record TimePropertiesDS =
  t_currentUtcOffset :: int
  currentUtcOffsetValid :: bool
  leap59 :: bool
  leap61 :: bool
  timeTraceable :: bool
  frequencyTraceable :: bool
  ptpTimescale :: bool
  t_timeSource :: int

record PortDS =
  portIdentity :: PortIdentity
  portState :: ptp_state
  logMinDelayReqInterval :: int
  peerMeanPathDelay :: TimeInternal
  logAnnounceInterval :: int
  announceReceiptTimeout :: int
  logSyncInterval :: int
  delayMechanism :: delay_mechanism
  logMinPdelayReqInterval :: int
  versionNumber :: int

record ForeignMasterDS =
  fm_records :: "ForeignMasterRecord list"
  fm_count :: int
  fm_capacity :: int
  fm_i :: int
  fm_best :: int

record Servo =
  noResetClock :: bool
  noAdjust :: bool
  servo_ap :: rat
  servo_ai :: rat
  sDelay :: rat
  sOffset :: int

record RunTimeOpts =
  r_announceInterval :: int
  r_syncInterval :: int
  r_clockQuality :: ClockQuality
  r_priority1 :: int
  r_priority2 :: int
  r_domainNumber :: int
  r_slaveOnly :: bool
  r_currentUtcOffset :: int
  r_stats :: int
  r_inboundLatency :: TimeInternal
  r_outboundLatency :: TimeInternal
  r_maxForeignRecords :: int
  r_delayMechanism :: delay_mechanism
  r_servo :: Servo

record Filter =
  y_prev :: int
  y_sum :: int
  filt_s :: int
  s_prev :: int
  filt_n :: int

section \<open>Network state\<close>

text \<open>
  An lwIP packet buffer: an identity (its address), the total length its head claims, and
  the payloads of the chain.  A queue slot holds a pointer, \<open>None\<close> while it was never written.
\<close>

record pbuf =
  pbuf_id :: nat
  tot_len :: nat
  chain :: "octet list list"

record BufQueue =
  q_pbuf :: "pbuf option list"
  q_head :: int
  q_tail :: int

record NetPath =
  multicastAddr :: int
  peerMulticastAddr :: int
  unicastAddr :: int
  eventPcb :: "nat option"
  generalPcb :: "nat option"
  eventQ :: BufQueue
  generalQ :: BufQueue

section \<open>The main program data structure\<close>

record PtpClock =
  defaultDS :: DefaultDS
  currentDS :: CurrentDS
  parentDS :: ParentDS
  timePropertiesDS :: TimePropertiesDS
  portDS :: PortDS
  foreignMasterDS :: ForeignMasterDS
  msgTmpHeader :: MsgHeader
  msgTmp :: MsgTmp
  msgObuf :: "octet list"
  msgIbuf :: "octet list"
  msgIbufLength :: int
  Tms :: TimeInternal
  Tsm :: TimeInternal
  pdelay_t1 :: TimeInternal
  pdelay_t2 :: TimeInternal
  pdelay_t3 :: TimeInternal
  pdelay_t4 :: TimeInternal
  timestamp_syncRecieve :: TimeInternal
  timestamp_delayReqSend :: TimeInternal
  timestamp_delayReqRecieve :: TimeInternal
  correctionField_sync :: TimeInternal
  correctionField_pDelayResp :: TimeInternal
  sentPDelayReqSequenceId :: int
  sentDelayReqSequenceId :: int
  sentSyncSequenceId :: int
  sentAnnounceSequenceId :: int
  recvPDelayReqSequenceId :: int
  recvSyncSequenceId :: int
  waitingForFollowUp :: bool
  waitingForPDelayRespFollowUp :: bool
  ofm_filt :: Filter
  owd_filt :: Filter
  slv_filt :: Filter
  offsetHistory :: "int list"
  observedDrift :: int
  messageActivity :: bool
  netPath :: NetPath
  recommendedState :: ptp_state
  portUuidField :: "octet list"
  inboundLatency :: TimeInternal
  outboundLatency :: TimeInternal
  servo :: Servo
  events :: int
  stats :: int
  rtOpts :: RunTimeOpts

end
