(* ===== verification/Arith.thy ===== *)
theory Arith
  imports Datatypes
begin

text \<open>
  \<open>arith.c\<close>: the arithmetic of \<open>TimeInternal\<close>, the conversions to and from the wire format
  and \<open>floorLog2\<close>.  The specification of a \<open>TimeInternal\<close> is the number of nanoseconds it
  denotes, \<open>total_ns\<close>; the lemmas show that the operations compute the corresponding
  operation on that number, return it in normal form, and say exactly when.
\<close>

section \<open>Operations\<close>

definition scaledNanosecondsToInternalTime :: "int \<Rightarrow> TimeInternal" where
  "scaledNanosecondsToInternalTime scaled =
     (let (ns, sign) = (if scaled < 0 then (i64 (- scaled), -1) else (scaled, 1));
          ns' = ns div 2 ^ 16
      in \<lparr>seconds = i32 (sign * (ns' sdiv 1000000000)),
          nanoseconds = i32 (sign * (ns' smod 1000000000))\<rparr>)"

text \<open>The out-parameter keeps its value when the conversion is refused.\<close>

definition fromInternalTime :: "TimeInternal \<Rightarrow> Timestamp \<Rightarrow> Timestamp" where
  "fromInternalTime internal external =
     (if seconds internal AND NOT INT_MAX \<noteq> 0 \<or> nanoseconds internal AND NOT INT_MAX \<noteq> 0
      then external
      else external\<lparr>secondsField := \<lparr>u48_lsb = u32 (seconds internal), u48_msb = 0\<rparr>,
                    nanosecondsField := u32 (nanoseconds internal)\<rparr>)"

definition toInternalTime :: "TimeInternal \<Rightarrow> Timestamp \<Rightarrow> TimeInternal" where
  "toInternalTime internal external =
     (if u48_lsb (secondsField external) < INT_MAX
      then internal\<lparr>seconds := i32 (u48_lsb (secondsField external)),
                    nanoseconds := i32 (nanosecondsField external)\<rparr>
      else internal)"

definition normalizeTime :: "TimeInternal \<Rightarrow> TimeInternal" where
  "normalizeTime r =
     (let s = i32 (seconds r + nanoseconds r sdiv 1000000000);
          n = i32 (nanoseconds r - nanoseconds r sdiv 1000000000 * 1000000000)
      in if s > 0 \<and> n < 0 then \<lparr>seconds = i32 (s - 1), nanoseconds = i32 (n + 1000000000)\<rparr>
         else if s < 0 \<and> n > 0 then \<lparr>seconds = i32 (s + 1), nanoseconds = i32 (n - 1000000000)\<rparr>
         else \<lparr>seconds = s, nanoseconds = n\<rparr>)"

definition addTime :: "TimeInternal \<Rightarrow> TimeInternal \<Rightarrow> TimeInternal" where
  "addTime x y = normalizeTime
     \<lparr>seconds = i32 (seconds x + seconds y), nanoseconds = i32 (nanoseconds x + nanoseconds y)\<rparr>"

definition subTime :: "TimeInternal \<Rightarrow> TimeInternal \<Rightarrow> TimeInternal" where
  "subTime x y = normalizeTime
     \<lparr>seconds = i32 (seconds x - seconds y), nanoseconds = i32 (nanoseconds x - nanoseconds y)\<rparr>"

definition div2Time :: "TimeInternal \<Rightarrow> TimeInternal" where
  "div2Time r = normalizeTime
     \<lparr>seconds = seconds r sdiv 2,
      nanoseconds = i32 (nanoseconds r + seconds r smod 2 * 1000000000) sdiv 2\<rparr>"

text \<open>The statement \<open>if (n >= 1<<k) { n >>= k; pos += k; }\<close>.\<close>

definition fl_step :: "nat \<Rightarrow> int \<times> int \<Rightarrow> int \<times> int" where
  "fl_step k = (\<lambda>(n, pos). if n \<ge> 2 ^ k then (n div 2 ^ k, pos + int k) else (n, pos))"

definition floorLog2 :: "int \<Rightarrow> int" where
  "floorLog2 n0 =
     (if n0 = 0 then -1
      else let (n, pos) = fl_step 2 (fl_step 4 (fl_step 8 (fl_step 16 (n0, 0))))
           in if n \<ge> 2 ^ 1 then pos + 1 else pos)"

text \<open>\<open>ptpd.h\<close> declares its own \<open>max\<close> and \<open>min\<close> on \<open>int32_t\<close>.\<close>

definition c_max :: "int \<Rightarrow> int \<Rightarrow> int" where "c_max a b = (if a > b then a else b)"
definition c_min :: "int \<Rightarrow> int \<Rightarrow> int" where "c_min a b = (if a > b then b else a)"

section \<open>Specification\<close>

definition total_ns :: "TimeInternal \<Rightarrow> int" where
  "total_ns t = seconds t * 1000000000 + nanoseconds t"

definition normalized :: "TimeInternal \<Rightarrow> bool" where
  "normalized t \<longleftrightarrow> \<bar>nanoseconds t\<bar> < 1000000000 \<and>
     (seconds t > 0 \<longrightarrow> nanoseconds t \<ge> 0) \<and> (seconds t < 0 \<longrightarrow> nanoseconds t \<le> 0)"

definition wf_time :: "TimeInternal \<Rightarrow> bool" where
  "wf_time t \<longleftrightarrow> is_i32 (seconds t) \<and> is_i32 (nanoseconds t)"

text \<open>The normal form of a number of nanoseconds.\<close>

definition time_of_ns :: "int \<Rightarrow> TimeInternal" where
  "time_of_ns v = \<lparr>seconds = v sdiv 1000000000, nanoseconds = v smod 1000000000\<rparr>"

section \<open>Lemmas\<close>

lemma total_ns_of_ns [simp]: "total_ns (time_of_ns v) = v"
  by (simp add: total_ns_def time_of_ns_def mult_sdiv_smod_eq sdiv_mult_smod_eq)

text \<open>The normal form is unique, so an operation is specified by the nanoseconds it returns.\<close>

lemma sdiv_giga_eq:
  fixes s n :: int
  assumes "\<bar>n\<bar> < 1000000000" and "s > 0 \<Longrightarrow> n \<ge> 0" and "s < 0 \<Longrightarrow> n \<le> 0"
  shows "(s * 1000000000 + n) sdiv 1000000000 = s"
proof (cases "s * 1000000000 + n \<ge> 0")
  case True
  then have "0 \<le> n" using assms by (cases "s > 0") auto
  then have "(s * 1000000000 + n) div 1000000000 = s" using assms(1) by simp
  with True show ?thesis by (simp add: sdiv_pos)
next
  case False
  then have "n \<le> 0" using assms by (cases "s < 0") auto
  then have "((- s) * 1000000000 + (- n)) div 1000000000 = - s" using assms(1) by simp
  with False show ?thesis by (simp add: sdiv_pos)
qed

lemma normalized_unique: "normalized t \<Longrightarrow> t = time_of_ns (total_ns t)"
proof -
  assume n: "normalized t"
  have "total_ns t sdiv 1000000000 = seconds t"
    unfolding total_ns_def by (rule sdiv_giga_eq) (use n in \<open>auto simp: normalized_def\<close>)
  moreover from this have "total_ns t smod 1000000000 = nanoseconds t"
    using sdiv_mult_smod_eq [of "total_ns t" 1000000000] by (simp add: total_ns_def)
  ultimately show ?thesis by (simp add: time_of_ns_def)
qed

lemma normalized_of_ns [simp]: "normalized (time_of_ns v)"
  by (auto simp: normalized_def time_of_ns_def sdiv_pos smod_pos abs_less_iff
      intro: order_less_le_trans [OF _ order_refl])

lemma normalizedI:
  "\<bar>nanoseconds t\<bar> < 1000000000 \<Longrightarrow> (seconds t > 0 \<Longrightarrow> nanoseconds t \<ge> 0) \<Longrightarrow>
   (seconds t < 0 \<Longrightarrow> nanoseconds t \<le> 0) \<Longrightarrow> normalized t"
  by (simp add: normalized_def)

lemma sdiv_giga:
  fixes n :: int
  assumes "is_i32 n"
  shows "n sdiv 1000000000 \<in> {-2..2}" "\<bar>n - n sdiv 1000000000 * 1000000000\<bar> < 1000000000"
    "0 \<le> n \<Longrightarrow> 0 \<le> n - n sdiv 1000000000 * 1000000000"
    "n \<le> 0 \<Longrightarrow> n - n sdiv 1000000000 * 1000000000 \<le> 0"
  using assms by (auto simp: is_i32_def sdiv_pos)

lemma normalizeTime_spec:
  assumes "wf_time r" and "\<bar>seconds r\<bar> \<le> 2147483644"
  shows "normalizeTime r = time_of_ns (total_ns r)"
proof -
  obtain s n where r: "r = \<lparr>seconds = s, nanoseconds = n\<rparr>" by (cases r)
  have n: "is_i32 n" and s: "\<bar>s\<bar> \<le> 2147483644" using assms by (auto simp: r wf_time_def)
  define q m where "q = n sdiv 1000000000" and "m = n - q * 1000000000"
  note qm = sdiv_giga [OF n, folded q_def, folded m_def]
  have i: "i32 (s + q) = s + q" "i32 m = m" "i32 (s + q - 1) = s + q - 1"
    "i32 (s + q + 1) = s + q + 1" "s + q > 0 \<Longrightarrow> m < 0 \<Longrightarrow> i32 (m + 1000000000) = m + 1000000000"
    "s + q < 0 \<Longrightarrow> m > 0 \<Longrightarrow> i32 (m - 1000000000) = m - 1000000000"
    using qm(1,2) s by (auto intro!: i32_exact simp: abs_le_iff abs_less_iff)
  define t where "t = normalizeTime r"
  have t: "t = (if s + q > 0 \<and> m < 0 then \<lparr>seconds = s + q - 1, nanoseconds = m + 1000000000\<rparr>
      else if s + q < 0 \<and> m > 0 then \<lparr>seconds = s + q + 1, nanoseconds = m - 1000000000\<rparr>
      else \<lparr>seconds = s + q, nanoseconds = m\<rparr>)"
    using i by (simp add: t_def normalizeTime_def r Let_def q_def [symmetric] m_def [symmetric])
  have "normalized t" using qm(2) by (auto simp: t normalized_def)
  moreover have "total_ns t = total_ns r" by (simp add: t total_ns_def r m_def)
  ultimately show ?thesis using normalized_unique by (metis t_def)
qed

lemma wf_time_of_ns: "\<bar>v\<bar> < 2147483647 * 1000000000 \<Longrightarrow> wf_time (time_of_ns v)"
  by (auto simp: wf_time_def time_of_ns_def is_i32_def sdiv_pos smod_pos div_less_iff_less_mult)

text \<open>
  The operations on operands whose sums cannot leave \<open>int32_t\<close>.  \<open>fits\<close> is what every
  normalised time of a running clock satisfies: fewer than \<open>2^30\<close> seconds on either side.
\<close>

definition fits :: "TimeInternal \<Rightarrow> bool" where
  "fits t \<longleftrightarrow> \<bar>seconds t\<bar> \<le> 1073741822 \<and> \<bar>nanoseconds t\<bar> \<le> 1073741823"

lemma addTime_spec:
  assumes "fits x" "fits y"
  shows "addTime x y = time_of_ns (total_ns x + total_ns y)"
proof -
  have "i32 (seconds x + seconds y) = seconds x + seconds y"
    "i32 (nanoseconds x + nanoseconds y) = nanoseconds x + nanoseconds y"
    using assms by (auto intro!: i32_exact simp: fits_def abs_le_iff)
  moreover have "normalizeTime \<lparr>seconds = seconds x + seconds y,
      nanoseconds = nanoseconds x + nanoseconds y\<rparr> = time_of_ns (total_ns x + total_ns y)"
    using assms
    by (subst normalizeTime_spec) (auto simp: wf_time_def fits_def is_i32_def total_ns_def algebra_simps)
  ultimately show ?thesis by (simp add: addTime_def)
qed

lemma subTime_spec:
  assumes "fits x" "fits y"
  shows "subTime x y = time_of_ns (total_ns x - total_ns y)"
proof -
  have "i32 (seconds x - seconds y) = seconds x - seconds y"
    "i32 (nanoseconds x - nanoseconds y) = nanoseconds x - nanoseconds y"
    using assms by (auto intro!: i32_exact simp: fits_def abs_le_iff)
  moreover have "normalizeTime \<lparr>seconds = seconds x - seconds y,
      nanoseconds = nanoseconds x - nanoseconds y\<rparr> = time_of_ns (total_ns x - total_ns y)"
    using assms
    by (subst normalizeTime_spec) (auto simp: wf_time_def fits_def is_i32_def total_ns_def algebra_simps)
  ultimately show ?thesis by (simp add: subTime_def)
qed

lemma div2Time_spec:
  assumes "normalized r" "fits r"
  shows "div2Time r = time_of_ns (total_ns r sdiv 2)"
proof -
  define b where "b = seconds r smod 2"
  define h where "h = seconds r sdiv 2"
  define m where "m = nanoseconds r + b * 1000000000"
  have s: "seconds r = 2 * h + b" using sdiv_mult_smod_eq [of "seconds r" 2] by (simp add: h_def b_def)
  have b: "b \<in> {-1..1}" "seconds r \<ge> 0 \<Longrightarrow> b \<ge> 0 \<and> h \<ge> 0" "seconds r \<le> 0 \<Longrightarrow> b \<le> 0 \<and> h \<le> 0"
    by (auto simp: b_def h_def smod_pos sdiv_pos split: if_splits)
  have m: "\<bar>m\<bar> < 2000000000" "i32 m = m"
    using assms(1) b by (auto simp: m_def normalized_def intro!: i32_exact)
  have sgn: "total_ns r \<ge> 0 \<Longrightarrow> m \<ge> 0 \<and> h \<ge> 0" "total_ns r \<le> 0 \<Longrightarrow> m \<le> 0 \<and> h \<le> 0"
    using assms(1) b by (auto simp: m_def normalized_def total_ns_def)
  have tot: "total_ns r = m + h * 1000000000 * 2" by (simp add: total_ns_def s m_def)
  have half: "total_ns r sdiv 2 = h * 1000000000 + m sdiv 2"
  proof (cases "total_ns r \<ge> 0")
    case True
    then show ?thesis using sgn by (simp add: sdiv_pos tot)
  next
    case False
    then have "m \<le> 0" using sgn by auto
    moreover have "(- (m + h * 1000000000 * 2)) div 2 = (- m) div 2 - h * 1000000000"
      by linarith
    ultimately show ?thesis using False by (cases "m = 0") (simp_all add: sdiv_pos tot)
  qed
  have "\<bar>m sdiv 2\<bar> < 1000000000" using m(1) by (auto simp: sdiv_pos)
  then have "normalizeTime \<lparr>seconds = h, nanoseconds = m sdiv 2\<rparr> =
      time_of_ns (h * 1000000000 + m sdiv 2)"
    using assms(2) b(1) s
    by (subst normalizeTime_spec) (auto simp: wf_time_def is_i32_def total_ns_def fits_def)
  then show ?thesis by (simp add: div2Time_def h_def [symmetric] b_def [symmetric] m_def [symmetric] m half)
qed

lemma scaledNanosecondsToInternalTime_spec:
  assumes "is_i64 v" "v \<noteq> -9223372036854775808"
  shows "scaledNanosecondsToInternalTime v = time_of_ns (v sdiv 65536)"
proof -
  define a where "a = \<bar>v\<bar> div 65536"
  define q r where "q = a div 1000000000" and "r = a mod 1000000000"
  have v: "\<bar>v\<bar> \<le> 9223372036854775807" using assms by (auto simp: is_i64_def)
  have a: "0 \<le> a" "a \<le> 140737488355327"
    using zdiv_mono1 [OF v, of 65536] by (auto simp: a_def)
  have q: "0 \<le> q" "q \<le> 140737"
    using zdiv_mono1 [OF a(2), of 1000000000] a(1) by (auto simp: q_def)
  have r: "0 \<le> r" "r < 1000000000" by (simp_all add: r_def)
  have "i32 q = q" "i32 r = r" "i32 (- q) = - q" "i32 (- r) = - r"
    using q r by (auto intro!: i32_exact)
  moreover have "a sdiv 1000000000 = q" "a smod 1000000000 = r"
    using a by (simp_all add: q_def r_def sdiv_pos smod_pos)
  moreover have "i64 (- v) = - v" if "v < 0" using v that by (simp add: is_i64_def)
  moreover have "- v div 65536 = a" "v sdiv 65536 = - a" if "v < 0"
    using that by (simp_all add: a_def sdiv_pos)
  moreover have "v div 65536 = a" "v sdiv 65536 = a" if "\<not> v < 0"
    using that by (simp_all add: a_def sdiv_pos)
  ultimately show ?thesis
    by (simp add: scaledNanosecondsToInternalTime_def time_of_ns_def)
qed

text \<open>Conversions to and from the wire format.\<close>

lemma and_not_INT_MAX:
  assumes "is_i32 x"
  shows "x AND NOT INT_MAX \<noteq> 0 \<longleftrightarrow> x < 0"
proof -
  have "INT_MAX = mask 31" by (simp add: INT_MAX_def mask_eq_exp_minus_1)
  moreover have "x AND NOT (mask 31) = push_bit 31 (drop_bit 31 x)"
    by (rule bit_eqI) (auto simp: bit_and_iff bit_not_iff bit_mask_iff bit_push_bit_iff bit_drop_bit_eq)
  ultimately have "x AND NOT INT_MAX = push_bit 31 (drop_bit 31 x)" by simp
  also have "\<dots> = x div 2147483648 * 2147483648"
    by (simp add: push_bit_eq_mult drop_bit_eq_div)
  finally show ?thesis using assms by (auto simp: is_i32_def)
qed

lemma fromInternalTime_nonneg:
  assumes "wf_time t" "0 \<le> seconds t" "0 \<le> nanoseconds t"
  shows "fromInternalTime t ext = ext\<lparr>secondsField := \<lparr>u48_lsb = seconds t, u48_msb = 0\<rparr>,
    nanosecondsField := nanoseconds t\<rparr>"
  using assms and_not_INT_MAX [of "seconds t"] and_not_INT_MAX [of "nanoseconds t"]
  by (auto simp: fromInternalTime_def wf_time_def is_i32_def is_u32_def)

lemma fromInternalTime_negative:
  assumes "wf_time t" "seconds t < 0 \<or> nanoseconds t < 0"
  shows "fromInternalTime t ext = ext"
  using assms and_not_INT_MAX [of "seconds t"] and_not_INT_MAX [of "nanoseconds t"]
  by (auto simp: fromInternalTime_def wf_time_def)

lemma to_from_InternalTime:
  assumes "wf_time t" "0 \<le> seconds t" "0 \<le> nanoseconds t" "seconds t < INT_MAX"
  shows "toInternalTime old (fromInternalTime t ext) = t"
  using assms by (simp add: fromInternalTime_nonneg toInternalTime_def wf_time_def)

lemma toInternalTime_late:
  "INT_MAX \<le> u48_lsb (secondsField ts) \<Longrightarrow> toInternalTime old ts = old"
  by (simp add: toInternalTime_def)

text \<open>\<open>floorLog2\<close>: each of its steps halves the number of bits left.\<close>

definition fl_inv :: "int \<Rightarrow> nat \<Rightarrow> int \<times> int \<Rightarrow> bool" where
  "fl_inv n0 k = (\<lambda>(n, pos). 0 \<le> pos \<and> n * 2 ^ nat pos \<le> n0 \<and> n0 < (n + 1) * 2 ^ nat pos \<and>
     1 \<le> n \<and> n < 2 ^ k)"

lemma fl_step_inv: "fl_inv n0 (k + k) p \<Longrightarrow> fl_inv n0 k (fl_step k p)"
proof -
  obtain n pos where p: "p = (n, pos)" by (cases p)
  assume "fl_inv n0 (k + k) p"
  then have i: "0 \<le> pos" "n * 2 ^ nat pos \<le> n0" "n0 < (n + 1) * 2 ^ nat pos" "1 \<le> n"
    "n < 2 ^ k * 2 ^ k"
    by (auto simp: fl_inv_def p power_add)
  show ?thesis
  proof (cases "n \<ge> 2 ^ k")
    case True
    define d where "d = n div 2 ^ k"
    have pk: "(0::int) < 2 ^ k" by simp
    note dm = div_mult_mod_eq [of n "2 ^ k", folded d_def] pos_mod_bound [OF pk, of n]
      pos_mod_sign [OF pk, of n]
    have d: "d * 2 ^ k \<le> n" "n + 1 \<le> (d + 1) * 2 ^ k"
      unfolding distrib_right using dm by linarith+
    have pw: "(2::int) ^ nat (pos + int k) = 2 ^ k * 2 ^ nat pos"
      using i(1) by (simp add: nat_add_distrib power_add)
    have "d * 2 ^ k * 2 ^ nat pos \<le> n0"
      by (rule order_trans [OF mult_right_mono [OF d(1)] i(2)]) simp
    moreover have "n0 < (d + 1) * 2 ^ k * 2 ^ nat pos"
      by (rule less_le_trans [OF i(3) mult_right_mono [OF d(2)]]) simp
    moreover have "1 \<le> d"
      using True pk by (simp add: d_def pos_imp_zdiv_pos_iff int_one_le_iff_zero_less)
    moreover have "d < 2 ^ k"
    proof (rule ccontr)
      assume "\<not> d < 2 ^ k"
      then have "2 ^ k * 2 ^ k \<le> d * 2 ^ k" by (intro mult_right_mono) simp_all
      with d(1) i(5) show False by linarith
    qed
    ultimately show ?thesis
      using True i(1) by (simp add: fl_inv_def fl_step_def p d_def [symmetric] pw mult.assoc)
  next
    case False
    then show ?thesis using i by (simp add: fl_inv_def fl_step_def p)
  qed
qed

lemma floorLog2_spec:
  assumes "0 < n" "is_u32 n"
  shows "0 \<le> floorLog2 n \<and> 2 ^ nat (floorLog2 n) \<le> n \<and> n < 2 ^ Suc (nat (floorLog2 n))"
proof -
  let ?p = "fl_step 2 (fl_step 4 (fl_step 8 (fl_step 16 (n, 0))))"
  obtain m pos where p: "?p = (m, pos)" by (cases ?p)
  have "fl_inv n 32 (n, 0)" using assms by (simp add: fl_inv_def is_u32_def)
  then have "fl_inv n 2 ?p"
    using fl_step_inv [of n 16] fl_step_inv [of n 8] fl_step_inv [of n 4] fl_step_inv [of n 2]
    by simp
  then have i: "0 \<le> pos" "m * 2 ^ nat pos \<le> n" "n < (m + 1) * 2 ^ nat pos" "1 \<le> m" "m < 4"
    by (auto simp: fl_inv_def p)
  have f: "floorLog2 n = (if m \<ge> 2 then pos + 1 else pos)"
    using assms by (simp add: floorLog2_def p)
  have "m = 1 \<or> m = 2 \<or> m = 3" using i by auto
  then show ?thesis using i f by (auto simp: nat_add_distrib)
qed

section \<open>Properties\<close>

text \<open>
  C40 (refinement).  On times small enough for the sums to stay in 32 bits, \<open>addTime\<close> and
  \<open>subTime\<close> are addition and subtraction of nanosecond counts, and their results are in normal
  form: the nanoseconds lie strictly between minus and plus one second and agree in sign with
  the seconds.
\<close>

theorem time_arithmetic_exact:
  assumes "fits x" "fits y"
  shows "total_ns (addTime x y) = total_ns x + total_ns y \<and> normalized (addTime x y) \<and>
    total_ns (subTime x y) = total_ns x - total_ns y \<and> normalized (subTime x y)"
  by (simp add: addTime_spec [OF assms] subTime_spec [OF assms])

theorem time_arithmetic_exact_witness:
  "total_ns (addTime \<lparr>seconds = 3, nanoseconds = -999999999\<rparr> \<lparr>seconds = -5, nanoseconds = 7\<rparr>) =
     -2999999992 \<and> normalized (subTime \<lparr>seconds = 3, nanoseconds = -999999999\<rparr> \<lparr>seconds = -5, nanoseconds = 7\<rparr>)"
  using time_arithmetic_exact [of "\<lparr>seconds = 3, nanoseconds = -999999999\<rparr>" "\<lparr>seconds = -5, nanoseconds = 7\<rparr>"]
  by (simp add: fits_def total_ns_def)

text \<open>
  \<open>normalizeTime\<close> keeps the nanosecond count of every 32-bit time whose
  seconds leave room for the carry, brings it to normal form, and leaves a time in normal form
  alone.
\<close>

theorem normalizeTime_normal_form:
  assumes "wf_time r" "\<bar>seconds r\<bar> \<le> 2147483644"
  shows "normalized (normalizeTime r) \<and> total_ns (normalizeTime r) = total_ns r \<and>
    (normalized r \<longrightarrow> normalizeTime r = r)"
  using normalizeTime_spec [OF assms] normalized_unique by (auto simp: eq_commute)

theorem normalizeTime_normal_form_witness:
  "normalized (normalizeTime \<lparr>seconds = 2, nanoseconds = -2000000001\<rparr>) \<and>
   total_ns (normalizeTime \<lparr>seconds = 2, nanoseconds = -2000000001\<rparr>) = -1"
  using normalizeTime_normal_form [of "\<lparr>seconds = 2, nanoseconds = -2000000001\<rparr>"]
  by (simp add: wf_time_def is_i32_def total_ns_def)

text \<open>
  \<open>div2Time\<close> halves a time in normal form, rounding toward zero to the whole
  nanosecond, also for negative times and odd second counts.
\<close>

theorem div2Time_halves:
  assumes "normalized r" "fits r"
  shows "total_ns (div2Time r) = total_ns r sdiv 2 \<and> normalized (div2Time r)"
  by (simp add: div2Time_spec [OF assms])

theorem div2Time_halves_witness:
  "total_ns (div2Time \<lparr>seconds = -3, nanoseconds = -5\<rparr>) = -1500000002"
  using div2Time_halves [of "\<lparr>seconds = -3, nanoseconds = -5\<rparr>"]
  by (simp add: normalized_def fits_def total_ns_def signed_divide_int_def)

text \<open>
  \<open>scaledNanosecondsToInternalTime\<close> converts every correction field (nanoseconds
  times \<open>2 ^ 16\<close>) but the least 64-bit number to the normalized time of its whole nanoseconds,
  truncated toward zero.
\<close>

theorem scaled_nanoseconds_exact:
  assumes "is_i64 v" "v \<noteq> -9223372036854775808"
  shows "total_ns (scaledNanosecondsToInternalTime v) = v sdiv 65536 \<and>
    normalized (scaledNanosecondsToInternalTime v)"
  by (simp add: scaledNanosecondsToInternalTime_spec [OF assms])

theorem scaled_nanoseconds_exact_witness:
  "total_ns (scaledNanosecondsToInternalTime (-131073)) = -2"
  using scaled_nanoseconds_exact [of "-131073"] by (simp add: is_i64_def signed_divide_int_def)

text \<open>
  A nonnegative internal time before \<open>INT_MAX\<close> seconds survives the conversion to
  the wire format and back, whatever the destination structures held before.
\<close>

theorem timestamp_roundtrip:
  assumes "wf_time t" "0 \<le> seconds t" "0 \<le> nanoseconds t" "seconds t < INT_MAX"
  shows "toInternalTime old (fromInternalTime t ext) = t"
  by (rule to_from_InternalTime [OF assms])

theorem timestamp_roundtrip_witness:
  "toInternalTime \<lparr>seconds = 9, nanoseconds = 9\<rparr> (fromInternalTime \<lparr>seconds = 2147483646, nanoseconds = 999999999\<rparr>
     \<lparr>secondsField = \<lparr>u48_lsb = 1, u48_msb = 2\<rparr>, nanosecondsField = 3\<rparr>) =
   \<lparr>seconds = 2147483646, nanoseconds = 999999999\<rparr>"
  by (rule timestamp_roundtrip) (simp_all add: wf_time_def is_i32_def INT_MAX_def)

text \<open>
  Outside that range both conversions leave their destination as it was: a negative
  internal time is not written, and a time stamp from \<open>INT_MAX\<close> seconds on is not read.  The
  callers pass uninitialised locals as destinations.
\<close>

theorem timestamp_out_of_range:
  "(wf_time t \<and> (seconds t < 0 \<or> nanoseconds t < 0) \<longrightarrow> fromInternalTime t ext = ext) \<and>
   (INT_MAX \<le> u48_lsb (secondsField ts) \<longrightarrow> toInternalTime old ts = old)"
  by (simp add: fromInternalTime_negative toInternalTime_late)

theorem timestamp_out_of_range_witness:
  "toInternalTime \<lparr>seconds = 7, nanoseconds = 8\<rparr>
     \<lparr>secondsField = \<lparr>u48_lsb = 2147483647, u48_msb = 0\<rparr>, nanosecondsField = 3\<rparr> =
   \<lparr>seconds = 7, nanoseconds = 8\<rparr>"
  using timestamp_out_of_range [of "\<lparr>seconds = 0, nanoseconds = 0\<rparr>" "\<lparr>secondsField = \<lparr>u48_lsb = 0, u48_msb = 0\<rparr>, nanosecondsField = 0\<rparr>"
      "\<lparr>secondsField = \<lparr>u48_lsb = 2147483647, u48_msb = 0\<rparr>, nanosecondsField = 3\<rparr>" "\<lparr>seconds = 7, nanoseconds = 8\<rparr>"]
  by (simp add: INT_MAX_def)

text \<open>
  The unrolled binary search of \<open>floorLog2\<close> computes the floor of the binary
  logarithm of every nonzero 32-bit number.
\<close>

theorem floorLog2_is_log:
  assumes "0 < n" "is_u32 n"
  shows "0 \<le> floorLog2 n \<and> 2 ^ nat (floorLog2 n) \<le> n \<and> n < 2 ^ Suc (nat (floorLog2 n))"
  by (rule floorLog2_spec [OF assms])

theorem floorLog2_is_log_witness:
  "2 ^ nat (floorLog2 4294967295) \<le> (4294967295 :: int) \<and> 4294967295 < (2 :: int) ^ Suc (nat (floorLog2 4294967295))"
  using floorLog2_is_log [of 4294967295] by (simp add: is_u32_def)

end
