(* ===== verification/World.thy ===== *)
theory World
  imports Datatypes
begin

text \<open>
  The state the daemon runs in.  \<open>world\<close> holds the static variables of the program
  (\<open>ptpClock\<close> of \<open>ptpd.c\<close>, the timer arrays of \<open>dep/timer.c\<close>), the UDP control blocks and
  the packet buffers it has handed back to lwIP, and logs of what it sent and of what it
  told the clock hardware.  What the daemon reads from outside (clock registers, time
  stamps, \<open>rand\<close>, the outcomes of lwIP calls, the content of uninitialised locals) comes
  from an \<open>env\<close>, a record of arbitrary functions of a counter that advances at every such
  read; a theorem that holds for every world holds for every such environment.
\<close>

section \<open>The environment\<close>

record env =
  e_now :: "nat \<Rightarrow> TimeInternal"         \<comment> \<open>clock registers, read by \<open>getTime\<close>\<close>
  e_rx :: "nat \<Rightarrow> TimeInternal"          \<comment> \<open>time stamp of the last received frame\<close>
  e_tx :: "nat \<Rightarrow> TimeInternal"          \<comment> \<open>time stamp of the last sent frame\<close>
  e_rand :: "nat \<Rightarrow> nat"                  \<comment> \<open>\<open>rand ()\<close>\<close>
  e_alloc :: "nat \<Rightarrow> bool"                \<comment> \<open>\<open>pbuf_alloc\<close> succeeds\<close>
  e_take :: "nat \<Rightarrow> bool"                 \<comment> \<open>\<open>pbuf_take\<close> returns \<open>ERR_OK\<close>\<close>
  e_send :: "nat \<Rightarrow> bool"                 \<comment> \<open>\<open>udp_sendto\<close> returns \<open>ERR_OK\<close>\<close>
  e_udp_new :: "nat \<Rightarrow> bool"              \<comment> \<open>\<open>udp_new\<close> finds a free control block\<close>
  e_ephemeral :: "nat \<Rightarrow> int"             \<comment> \<open>port lwIP picks for an unbound control block\<close>
  e_ifaddr :: "nat \<Rightarrow> int"                \<comment> \<open>\<open>netif_default->ip_addr.addr\<close>\<close>
  e_hwaddr :: "octet list"               \<comment> \<open>\<open>netif_default->hwaddr\<close>\<close>
  e_timestamp :: "nat \<Rightarrow> Timestamp"      \<comment> \<open>an uninitialised local \<open>Timestamp\<close>\<close>
  e_time :: "nat \<Rightarrow> TimeInternal"        \<comment> \<open>an uninitialised local \<open>TimeInternal\<close>\<close>
  e_announce :: "nat \<Rightarrow> MsgAnnounce"     \<comment> \<open>the announce view of another union member\<close>

section \<open>Outputs\<close>

text \<open>A datagram: destination address and port, payload.\<close>

datatype packet = Packet int int "octet list"

text \<open>What \<open>dep/sys_time.c\<close> asks of the clock hardware.\<close>

datatype clock_cmd = SetTime TimeInternal | UpdateOffset TimeInternal | AdjFreq int

section \<open>Timers\<close>

text \<open>
  One slot of \<open>ptpdTimers\<close> and \<open>ptpdTimersExpired\<close>: whether the RTOS timer was created, the
  period it runs with (\<open>None\<close>: stopped) and the expired flag.
\<close>

record ptp_timer =
  t_created :: bool
  t_period :: "int option"
  t_expired :: bool

record world =
  ptp :: PtpClock
  timers :: "ptp_timer list"
  env :: env
  tick :: nat                             \<comment> \<open>environment reads so far\<close>
  pcbs :: "(nat \<times> int) list"              \<comment> \<open>live UDP control blocks and their local ports\<close>
  next_pcb :: nat
  sent :: "packet list"                   \<comment> \<open>datagrams, newest last\<close>
  freed :: "pbuf list"                    \<comment> \<open>received buffers handed back to lwIP\<close>
  clock_cmds :: "clock_cmd list"
  alerts :: nat                           \<comment> \<open>calls of \<open>ptpd_alert\<close>\<close>
  div_by_zero :: bool                     \<comment> \<open>a C division by zero was executed\<close>
  wild_read :: bool                       \<comment> \<open>a read outside a buffer was executed\<close>

text \<open>Reading the environment.\<close>

definition ask :: "(env \<Rightarrow> nat \<Rightarrow> 'a) \<Rightarrow> world \<Rightarrow> 'a \<times> world" where
  "ask f w = (f (env w) (tick w), w\<lparr>tick := Suc (tick w)\<rparr>)"

text \<open>Functions of the program that touch \<open>ptpClock\<close> only.\<close>

definition on_clock :: "(PtpClock \<Rightarrow> PtpClock) \<Rightarrow> world \<Rightarrow> world" where
  "on_clock f w = w\<lparr>ptp := f (ptp w)\<rparr>"

text \<open>The port's state and the state the last decision recommended.\<close>

definition port_state :: "world \<Rightarrow> ptp_state" where
  "port_state w = portState (portDS (ptp w))"

definition set_portState :: "ptp_state \<Rightarrow> PtpClock \<Rightarrow> PtpClock" where
  "set_portState s c = c\<lparr>portDS := (portDS c)\<lparr>portState := s\<rparr>\<rparr>"

definition raise_event :: "int \<Rightarrow> PtpClock \<Rightarrow> PtpClock" where
  "raise_event e c = c\<lparr>events := setFlag (events c) e\<rparr>"

definition clear_event :: "int \<Rightarrow> PtpClock \<Rightarrow> PtpClock" where
  "clear_event e c = c\<lparr>events := clearFlag (events c) e\<rparr>"

lemma ask_simps [simp]:
  "fst (ask f w) = f (env w) (tick w)"
  "snd (ask f w) = w\<lparr>tick := Suc (tick w)\<rparr>"
  by (simp_all add: ask_def)

lemma on_clock_simps [simp]:
  "ptp (on_clock f w) = f (ptp w)" "timers (on_clock f w) = timers w"
  "env (on_clock f w) = env w" "tick (on_clock f w) = tick w" "pcbs (on_clock f w) = pcbs w"
  "sent (on_clock f w) = sent w" "freed (on_clock f w) = freed w"
  "clock_cmds (on_clock f w) = clock_cmds w" "alerts (on_clock f w) = alerts w"
  "div_by_zero (on_clock f w) = div_by_zero w" "wild_read (on_clock f w) = wild_read w"
  "next_pcb (on_clock f w) = next_pcb w"
  by (simp_all add: on_clock_def)

section \<open>Static data at boot\<close>

text \<open>
  The zero-initialised static data of \<open>ptpd.c\<close> and \<open>dep/timer.c\<close>: enumerators of value 0,
  \<open>false\<close>, null pointers.  No timer is created, no control block open.
\<close>

definition zero_time :: TimeInternal where "zero_time = \<lparr>seconds = 0, nanoseconds = 0\<rparr>"

definition zero_port :: PortIdentity where
  "zero_port = \<lparr>clockIdentity = replicate CLOCK_IDENTITY_LENGTH 0, portNumber = 0\<rparr>"

definition zero_quality :: ClockQuality where
  "zero_quality = \<lparr>clockClass = 0, clockAccuracy = 0, offsetScaledLogVariance = 0\<rparr>"

definition zero_header :: MsgHeader where
  "zero_header = \<lparr>h_transportSpecific = 0, messageType = 0, versionPTP = 0, messageLength = 0,
     h_domainNumber = 0, flagField = [0, 0], correctionfield = 0, sourcePortIdentity = zero_port,
     sequenceId = 0, controlField = 0, logMessageInterval = 0\<rparr>"

definition zero_timestamp :: Timestamp where
  "zero_timestamp = \<lparr>secondsField = \<lparr>u48_lsb = 0, u48_msb = 0\<rparr>, nanosecondsField = 0\<rparr>"

definition zero_announce :: MsgAnnounce where
  "zero_announce = \<lparr>a_originTimestamp = zero_timestamp, a_currentUtcOffset = 0,
     a_grandmasterPriority1 = 0, a_grandmasterClockQuality = zero_quality,
     a_grandmasterPriority2 = 0, a_grandmasterIdentity = replicate CLOCK_IDENTITY_LENGTH 0,
     a_stepsRemoved = 0, a_timeSource = 0\<rparr>"

definition zero_record :: ForeignMasterRecord where
  "zero_record = \<lparr>foreignMasterPortIdentity = zero_port, foreignMasterAnnounceMessages = 0,
     f_announce = zero_announce, f_header = zero_header\<rparr>"

definition zero_servo :: Servo where
  "zero_servo = \<lparr>noResetClock = False, noAdjust = False, servo_ap = 0, servo_ai = 0, sDelay = 0, sOffset = 0\<rparr>"

definition zero_filter :: Filter where
  "zero_filter = \<lparr>y_prev = 0, y_sum = 0, filt_s = 0, s_prev = 0, filt_n = 0\<rparr>"

definition zero_queue :: BufQueue where
  "zero_queue = \<lparr>q_pbuf = replicate PBUF_QUEUE_SIZE None, q_head = 0, q_tail = 0\<rparr>"

definition zero_opts :: RunTimeOpts where
  "zero_opts = \<lparr>r_announceInterval = 0, r_syncInterval = 0, r_clockQuality = zero_quality,
     r_priority1 = 0, r_priority2 = 0, r_domainNumber = 0, r_slaveOnly = False,
     r_currentUtcOffset = 0, r_stats = 0, r_inboundLatency = zero_time, r_outboundLatency = zero_time,
     r_maxForeignRecords = 0, r_delayMechanism = DELAY_DISABLED, r_servo = zero_servo\<rparr>"

definition zero_clock :: PtpClock where
  "zero_clock = \<lparr>
     defaultDS = \<lparr>twoStepFlag = False, d_clockIdentity = replicate CLOCK_IDENTITY_LENGTH 0,
       numberPorts = 0, d_clockQuality = zero_quality, d_priority1 = 0, d_priority2 = 0,
       d_domainNumber = 0, d_slaveOnly = False, d_transportSpecific = False\<rparr>,
     currentDS = \<lparr>c_stepsRemoved = 0, offsetFromMaster = zero_time, meanPathDelay = zero_time\<rparr>,
     parentDS = \<lparr>parentPortIdentity = zero_port, parentStats = False,
       observedParentOffsetScaledLogVariance = 0, observedParentClockPhaseChangeRate = 0,
       p_grandmasterIdentity = replicate CLOCK_IDENTITY_LENGTH 0,
       p_grandmasterClockQuality = zero_quality, p_grandmasterPriority1 = 0, p_grandmasterPriority2 = 0\<rparr>,
     timePropertiesDS = \<lparr>t_currentUtcOffset = 0, currentUtcOffsetValid = False, leap59 = False,
       leap61 = False, timeTraceable = False, frequencyTraceable = False, ptpTimescale = False,
       t_timeSource = 0\<rparr>,
     portDS = \<lparr>portIdentity = zero_port, portState = PTP_INITIALIZING, logMinDelayReqInterval = 0,
       peerMeanPathDelay = zero_time, logAnnounceInterval = 0, announceReceiptTimeout = 0,
       logSyncInterval = 0, delayMechanism = DELAY_DISABLED, logMinPdelayReqInterval = 0,
       versionNumber = 0\<rparr>,
     foreignMasterDS = \<lparr>fm_records = [], fm_count = 0, fm_capacity = 0, fm_i = 0, fm_best = 0\<rparr>,
     msgTmpHeader = zero_header, msgTmp = TmpNone,
     msgObuf = replicate PACKET_SIZE 0, msgIbuf = replicate PACKET_SIZE 0, msgIbufLength = 0,
     Tms = zero_time, Tsm = zero_time,
     pdelay_t1 = zero_time, pdelay_t2 = zero_time, pdelay_t3 = zero_time, pdelay_t4 = zero_time,
     timestamp_syncRecieve = zero_time, timestamp_delayReqSend = zero_time,
     timestamp_delayReqRecieve = zero_time, correctionField_sync = zero_time,
     correctionField_pDelayResp = zero_time, sentPDelayReqSequenceId = 0,
     sentDelayReqSequenceId = 0, sentSyncSequenceId = 0, sentAnnounceSequenceId = 0,
     recvPDelayReqSequenceId = 0, recvSyncSequenceId = 0, waitingForFollowUp = False,
     waitingForPDelayRespFollowUp = False, ofm_filt = zero_filter, owd_filt = zero_filter,
     slv_filt = zero_filter, offsetHistory = [0, 0], observedDrift = 0, messageActivity = False,
     netPath = \<lparr>multicastAddr = 0, peerMulticastAddr = 0, unicastAddr = 0, eventPcb = None,
       generalPcb = None, eventQ = zero_queue, generalQ = zero_queue\<rparr>,
     recommendedState = PTP_INITIALIZING, portUuidField = replicate 6 0,
     inboundLatency = zero_time, outboundLatency = zero_time, servo = zero_servo, events = 0,
     stats = 0, rtOpts = zero_opts\<rparr>"

definition boot_world :: "env \<Rightarrow> world" where
  "boot_world e = \<lparr>ptp = zero_clock,
     timers = replicate TIMER_ARRAY_SIZE \<lparr>t_created = False, t_period = None, t_expired = False\<rparr>,
     env = e, tick = 0, pcbs = [], next_pcb = 0, sent = [], freed = [], clock_cmds = [],
     alerts = 0, div_by_zero = False, wild_read = False\<rparr>"

text \<open>
  A calm environment, for concrete runs: the clock stands still, every lwIP call succeeds, and
  \<open>rand\<close> returns 5.
\<close>

definition calm_env :: env where
  "calm_env = \<lparr>e_now = (\<lambda>_. \<lparr>seconds = 100, nanoseconds = 0\<rparr>),
     e_rx = (\<lambda>_. \<lparr>seconds = 100, nanoseconds = 500\<rparr>), e_tx = (\<lambda>_. \<lparr>seconds = 100, nanoseconds = 900\<rparr>),
     e_rand = (\<lambda>_. 5), e_alloc = (\<lambda>_. True), e_take = (\<lambda>_. True), e_send = (\<lambda>_. True),
     e_udp_new = (\<lambda>_. True), e_ephemeral = (\<lambda>_. 49152), e_ifaddr = (\<lambda>_. 3232235777),
     e_hwaddr = [0, 128, 225, 0, 0, 1], e_timestamp = (\<lambda>_. zero_timestamp), e_time = (\<lambda>_. zero_time),
     e_announce = (\<lambda>_. zero_announce)\<rparr>"

end
