(* ===== verification/Buffer.thy ===== *)
theory Buffer
  imports Datatypes
begin

text \<open>
  Byte buffers as \<open>dep/msg.c\<close> uses them: loads and stores through casted pointers
  (\<open>*(int16_t*)(buf + k)\<close>), which on the little-endian target put the low byte first;
  \<open>memcpy\<close>, \<open>memset\<close> and \<open>memcmp\<close>; and \<open>flip16\<close>/\<open>flip32\<close>, which are lwIP's \<open>htons\<close> and
  \<open>htonl\<close> (\<open>PP_HTONS\<close>, \<open>PP_HTONL\<close>).  The collection \<open>buf_simps\<close> evaluates a load after a
  sequence of stores at fixed offsets.
\<close>

section \<open>Loads and stores\<close>

definition byte :: "int \<Rightarrow> octet" where "byte v = word_of_int v"

definition peek8 :: "octet list \<Rightarrow> nat \<Rightarrow> int" where
  "peek8 buf k = uint (buf ! k)"

definition peek16 :: "octet list \<Rightarrow> nat \<Rightarrow> int" where
  "peek16 buf k = uint (buf ! k) + 256 * uint (buf ! (k + 1))"

definition peek32 :: "octet list \<Rightarrow> nat \<Rightarrow> int" where
  "peek32 buf k = uint (buf ! k) + 256 * uint (buf ! (k + 1)) + 65536 * uint (buf ! (k + 2)) +
     16777216 * uint (buf ! (k + 3))"

definition peek_list :: "octet list \<Rightarrow> nat \<Rightarrow> nat \<Rightarrow> octet list" where
  "peek_list buf k n = map (\<lambda>j. buf ! (k + j)) [0..<n]"

definition poke8 :: "octet list \<Rightarrow> nat \<Rightarrow> int \<Rightarrow> octet list" where
  "poke8 buf k v = buf[k := byte v]"

definition poke16 :: "octet list \<Rightarrow> nat \<Rightarrow> int \<Rightarrow> octet list" where
  "poke16 buf k v = buf[k := byte v, k + 1 := byte (v div 256)]"

definition poke32 :: "octet list \<Rightarrow> nat \<Rightarrow> int \<Rightarrow> octet list" where
  "poke32 buf k v = buf[k := byte v, k + 1 := byte (v div 256), k + 2 := byte (v div 65536),
     k + 3 := byte (v div 16777216)]"

fun poke_list :: "octet list \<Rightarrow> nat \<Rightarrow> octet list \<Rightarrow> octet list" where
  "poke_list buf k [] = buf"
| "poke_list buf k (b # bs) = poke_list (buf[k := b]) (Suc k) bs"

definition memset :: "octet list \<Rightarrow> nat \<Rightarrow> octet \<Rightarrow> nat \<Rightarrow> octet list" where
  "memset buf k c n = poke_list buf k (replicate n c)"

definition flip16 :: "int \<Rightarrow> int" where
  "flip16 x = u16 x mod 256 * 256 + u16 x div 256"

definition flip32 :: "int \<Rightarrow> int" where
  "flip32 x = (let y = u32 x in
     y mod 256 * 16777216 + y div 256 mod 256 * 65536 + y div 65536 mod 256 * 256 + y div 16777216)"

text \<open>newlib's \<open>memcmp\<close>: the difference of the first bytes that differ.\<close>

fun memcmp :: "octet list \<Rightarrow> octet list \<Rightarrow> int" where
  "memcmp (a # as) (b # bs) = (if a = b then memcmp as bs else uint a - uint b)"
| "memcmp _ _ = 0"

declare poke_list.simps [simp del]

section \<open>Lemmas\<close>

lemma is_u8_peek8 [simp]: "is_u8 (peek8 buf k)"
  using uint_lt2p [of "buf ! k"] uint_ge_0 [of "buf ! k"] by (simp add: is_u8_def peek8_def)

lemma uint_byte [simp]: "uint (byte v) = u8 v"
  by (simp add: byte_def u8_def uint_word_of_int)

lemma is_u8_uint [simp]: "is_u8 (uint (b :: octet))"
  using uint_lt2p [of b] uint_ge_0 [of b] by (simp add: is_u8_def)

lemma length_poke [simp]:
  "length (poke8 buf k v) = length buf" "length (poke16 buf k v) = length buf"
  "length (poke32 buf k v) = length buf"
  by (simp_all add: poke8_def poke16_def poke32_def)

lemma length_poke_list [simp]: "length (poke_list buf k bs) = length buf"
  by (induction buf k bs rule: poke_list.induct) (simp_all add: poke_list.simps)

lemma length_peek_list [simp]: "length (peek_list buf k n) = n"
  by (simp add: peek_list_def)

lemma nth_poke8: "poke8 buf k v ! j = (if j = k \<and> k < length buf then byte v else buf ! j)"
  by (cases "k < length buf") (simp_all add: poke8_def nth_list_update list_update_beyond)

lemma nth_poke16: "k + 1 < length buf \<Longrightarrow> poke16 buf k v ! j =
    (if j = k then byte v else if j = k + 1 then byte (v div 256) else buf ! j)"
  by (auto simp: poke16_def nth_list_update)

lemma nth_poke32: "k + 3 < length buf \<Longrightarrow> poke32 buf k v ! j =
    (if j = k then byte v else if j = k + 1 then byte (v div 256)
     else if j = k + 2 then byte (v div 65536) else if j = k + 3 then byte (v div 16777216)
     else buf ! j)"
  by (auto simp: poke32_def nth_list_update)

lemma nth_poke_outside:
  "j < k \<or> k < j \<Longrightarrow> poke8 buf k v ! j = buf ! j"
  "j < k \<or> k + 1 < j \<Longrightarrow> poke16 buf k v ! j = buf ! j"
  "j < k \<or> k + 3 < j \<Longrightarrow> poke32 buf k v ! j = buf ! j"
  by (auto simp: poke8_def poke16_def poke32_def)

lemma nth_poke_list_outside: "j < k \<or> k + length bs \<le> j \<Longrightarrow> poke_list buf k bs ! j = buf ! j"
  by (induction buf k bs rule: poke_list.induct) (auto simp: poke_list.simps)

lemma nth_poke_list_inside:
  "i < length bs \<Longrightarrow> k + i < length buf \<Longrightarrow> poke_list buf k bs ! (k + i) = bs ! i"
proof (induction buf k bs arbitrary: i rule: poke_list.induct)
  case (2 buf k b bs)
  show ?case
  proof (cases i)
    case 0
    with 2 show ?thesis by (simp add: nth_poke_list_outside poke_list.simps)
  next
    case (Suc i')
    with 2 show ?thesis by (simp add: poke_list.simps)
  qed
qed simp

text \<open>A load at the place of the last store, and past a store elsewhere.\<close>

lemma bytes_sum:
  fixes v :: int
  shows "u8 v + 256 * u8 (v div 256) = u16 v"
    "u8 v + 256 * u8 (v div 256) + 65536 * u8 (v div 65536) + 16777216 * u8 (v div 16777216) = u32 v"
proof -
  show a: "u8 v + 256 * u8 (v div 256) = u16 v"
    using zmod_zmult2_eq [of 256 v 256] by (simp add: c_conv)
  have "u32 v = 65536 * u16 (v div 65536) + u16 v"
    using zmod_zmult2_eq [of 65536 v 65536] by (simp add: c_conv)
  also have "u16 (v div 65536) = 256 * u8 (v div 16777216) + u8 (v div 65536)"
    using zmod_zmult2_eq [of 256 "v div 65536" 256] by (simp add: zdiv_zmult2_eq [symmetric] c_conv)
  finally show "u8 v + 256 * u8 (v div 256) + 65536 * u8 (v div 65536) +
      16777216 * u8 (v div 16777216) = u32 v"
    using a by (simp only: algebra_simps)
qed

lemma peek_poke_same [buf_simps]:
  "k < length buf \<Longrightarrow> peek8 (poke8 buf k v) k = u8 v"
  "k + 1 < length buf \<Longrightarrow> peek16 (poke16 buf k v) k = u16 v"
  "k + 3 < length buf \<Longrightarrow> peek32 (poke32 buf k v) k = u32 v"
  using bytes_sum [of v]
  by (simp_all add: peek8_def peek16_def peek32_def nth_poke8 nth_poke16 nth_poke32)

lemma peek_list_poke_list_same [buf_simps]:
  "length bs = n \<Longrightarrow> k + n \<le> length buf \<Longrightarrow> peek_list (poke_list buf k bs) k n = bs"
  by (rule nth_equalityI) (auto simp: peek_list_def nth_poke_list_inside)

lemma peek_agree:
  "buf ! j = buf' ! j \<Longrightarrow> peek8 buf j = peek8 buf' j"
  "(\<And>i. j \<le> i \<Longrightarrow> i \<le> j + 1 \<Longrightarrow> buf ! i = buf' ! i) \<Longrightarrow> peek16 buf j = peek16 buf' j"
  "(\<And>i. j \<le> i \<Longrightarrow> i \<le> j + 3 \<Longrightarrow> buf ! i = buf' ! i) \<Longrightarrow> peek32 buf j = peek32 buf' j"
  "(\<And>i. j \<le> i \<Longrightarrow> i < j + n \<Longrightarrow> buf ! i = buf' ! i) \<Longrightarrow> peek_list buf j n = peek_list buf' j n"
  by (simp_all add: peek8_def peek16_def peek32_def peek_list_def)

lemma peek_poke_other [buf_simps]:
  "j < k \<or> k < j \<Longrightarrow> peek8 (poke8 buf k v) j = peek8 buf j"
  "j < k \<or> k + 1 < j \<Longrightarrow> peek8 (poke16 buf k v) j = peek8 buf j"
  "j < k \<or> k + 3 < j \<Longrightarrow> peek8 (poke32 buf k v) j = peek8 buf j"
  "j < k \<or> k + length bs \<le> j \<Longrightarrow> peek8 (poke_list buf k bs) j = peek8 buf j"
  "j + 1 < k \<or> k < j \<Longrightarrow> peek16 (poke8 buf k v) j = peek16 buf j"
  "j + 1 < k \<or> k + 1 < j \<Longrightarrow> peek16 (poke16 buf k v) j = peek16 buf j"
  "j + 1 < k \<or> k + 3 < j \<Longrightarrow> peek16 (poke32 buf k v) j = peek16 buf j"
  "j + 1 < k \<or> k + length bs \<le> j \<Longrightarrow> peek16 (poke_list buf k bs) j = peek16 buf j"
  "j + 3 < k \<or> k < j \<Longrightarrow> peek32 (poke8 buf k v) j = peek32 buf j"
  "j + 3 < k \<or> k + 1 < j \<Longrightarrow> peek32 (poke16 buf k v) j = peek32 buf j"
  "j + 3 < k \<or> k + 3 < j \<Longrightarrow> peek32 (poke32 buf k v) j = peek32 buf j"
  "j + 3 < k \<or> k + length bs \<le> j \<Longrightarrow> peek32 (poke_list buf k bs) j = peek32 buf j"
  by (auto intro!: peek_agree nth_poke_outside nth_poke_list_outside)

lemma peek_list_poke_other [buf_simps]:
  "j + n \<le> k \<or> k < j \<Longrightarrow> peek_list (poke8 buf k v) j n = peek_list buf j n"
  "j + n \<le> k \<or> k + 1 < j \<Longrightarrow> peek_list (poke16 buf k v) j n = peek_list buf j n"
  "j + n \<le> k \<or> k + 3 < j \<Longrightarrow> peek_list (poke32 buf k v) j n = peek_list buf j n"
  "j + n \<le> k \<or> k + length bs \<le> j \<Longrightarrow> peek_list (poke_list buf k bs) j n = peek_list buf j n"
  by (auto intro!: peek_agree nth_poke_outside nth_poke_list_outside)

lemma length_memset [simp]: "length (memset buf k c n) = length buf"
  by (simp add: memset_def)

lemma peek_memset_other [buf_simps]:
  "j < k \<or> k + n \<le> j \<Longrightarrow> peek8 (memset buf k c n) j = peek8 buf j"
  "j + 1 < k \<or> k + n \<le> j \<Longrightarrow> peek16 (memset buf k c n) j = peek16 buf j"
  "j + 3 < k \<or> k + n \<le> j \<Longrightarrow> peek32 (memset buf k c n) j = peek32 buf j"
  "j + m \<le> k \<or> k + n \<le> j \<Longrightarrow> peek_list (memset buf k c n) j m = peek_list buf j m"
  by (simp_all add: memset_def buf_simps)

lemma nth_memset_inside:
  "k \<le> j \<Longrightarrow> j < k + n \<Longrightarrow> j < length buf \<Longrightarrow> memset buf k c n ! j = c"
  using nth_poke_list_inside [of "j - k" "replicate n c" k buf] by (simp add: memset_def)

lemma peek_memset [buf_simps]:
  "k \<le> j \<Longrightarrow> j + 1 < k + n \<Longrightarrow> j + 1 < length buf \<Longrightarrow> peek16 (memset buf k 0 n) j = 0"
  "k \<le> j \<Longrightarrow> j + 3 < k + n \<Longrightarrow> j + 3 < length buf \<Longrightarrow> peek32 (memset buf k 0 n) j = 0"
  by (simp_all add: peek16_def peek32_def nth_memset_inside)

text \<open>\<open>flip16\<close> and \<open>flip32\<close> undo themselves.\<close>

lemma byte_digits:
  fixes y z :: int
  assumes "0 \<le> y" "y < 256"
  shows "(y + 256 * z) mod 256 = y" "(y + 256 * z) div 256 = z"
  using assms by simp_all

lemma flip16_flip16 [simp]: "flip16 (flip16 x) = u16 x"
proof -
  define a b where "a = u16 x mod 256" and "b = u16 x div 256"
  have x: "0 \<le> u16 x" "u16 x < 65536" by (simp_all add: u16_def)
  then have r: "0 \<le> a" "a < 256" "0 \<le> b" "b < 256" by (auto simp: a_def b_def)
  have f: "flip16 x = b + 256 * a" by (simp add: flip16_def a_def b_def)
  then have "0 \<le> flip16 x" "flip16 x < 65536" using r by linarith+
  then have u: "u16 (flip16 x) = b + 256 * a" by (simp add: u16_def f)
  show ?thesis
    unfolding flip16_def [of "flip16 x"] u byte_digits [OF r(3,4)] by (simp add: a_def b_def)
qed

lemma flip32_bytes:
  assumes x: "x = a + 256 * (b + 256 * (c + 256 * d))"
    and r: "0 \<le> a" "a < 256" "0 \<le> b" "b < 256" "0 \<le> c" "c < 256" "0 \<le> d" "d < 256"
  shows "flip32 x = d + 256 * (c + 256 * (b + 256 * a))"
proof -
  have "x = a + 256 * b + 65536 * c + 16777216 * d" by (simp add: x)
  then have "0 \<le> x" "x < 4294967296" using r by linarith+
  then have u: "u32 x = x" by (simp add: u32_def)
  have "x div 65536 = x div 256 div 256" "x div 16777216 = x div 256 div 256 div 256"
    by (simp_all only: zdiv_zmult2_eq [symmetric]) simp_all
  then have "x mod 256 = a" "x div 256 mod 256 = b" "x div 65536 mod 256 = c" "x div 16777216 = d"
    unfolding x by (simp_all only: byte_digits [OF r(1,2)] byte_digits [OF r(3,4)] byte_digits [OF r(5,6)])
  then show ?thesis by (simp add: flip32_def Let_def u)
qed

lemma flip32_flip32 [simp]: "flip32 (flip32 x) = u32 x"
proof -
  define a b c d where "a = u8 x" and "b = u8 (x div 256)" and "c = u8 (x div 65536)"
    and "d = u8 (x div 16777216)"
  have r: "0 \<le> a" "a < 256" "0 \<le> b" "b < 256" "0 \<le> c" "c < 256" "0 \<le> d" "d < 256"
    by (simp_all add: a_def b_def c_def d_def u8_def)
  have x: "u32 x = a + 256 * (b + 256 * (c + 256 * d))"
    using bytes_sum(2) [of x] by (simp add: a_def b_def c_def d_def)
  have "flip32 x = flip32 (u32 x)" by (simp add: flip32_def)
  also have "\<dots> = d + 256 * (c + 256 * (b + 256 * a))" by (rule flip32_bytes [OF x r])
  finally have "flip32 (flip32 x) = a + 256 * (b + 256 * (c + 256 * d))"
    by (rule flip32_bytes) (use r in auto)
  then show ?thesis by (simp add: x)
qed

lemma flip_conv [simp]:
  "flip16 (u16 x) = flip16 x" "flip16 (i16 x) = flip16 x"
  "flip32 (u32 x) = flip32 x" "flip32 (i32 x) = flip32 x"
  by (simp_all add: flip16_def flip32_def)

lemma flip_range [simp]: "is_u16 (flip16 x)" "is_u32 (flip32 x)"
  by (metis conv_range(2) flip16_flip16 flip_conv(1)) (metis conv_range(3) flip32_flip32 flip_conv(3))

lemma flip_0 [simp]: "flip16 0 = 0" "flip32 0 = 0"
  by (simp_all add: flip16_def flip32_def)

lemma memcmp_refl [simp]: "memcmp as as = 0"
  by (induction as) simp_all

lemma memcmp_swap: "memcmp as bs = - memcmp bs as"
  by (induction as bs rule: memcmp.induct) auto

lemma memcmp_zero: "length as = length bs \<Longrightarrow> memcmp as bs = 0 \<longleftrightarrow> as = bs"
  by (induction as bs rule: memcmp.induct) (auto simp: word_uint_eq_iff)

end
