(* ===== verification/Net.thy ===== *)
theory Net
  imports World Buffer "HOL-Library.While_Combinator" "HOL-Library.Multiset"
begin

text \<open>
  The network layer, \<open>dep/net.c\<close>: the two ring queues between the lwIP receive callbacks and
  the daemon, opening and closing of the UDP ports, reception (the copy out of a pbuf chain)
  and transmission.  The contract of a bounded FIFO queue is the locale \<open>bounded_fifo\<close>; it is
  interpreted on the ring buffer of the code.
\<close>

section \<open>The queues\<close>

definition PBUF_QUEUE_MASK :: int where "PBUF_QUEUE_MASK = int PBUF_QUEUE_SIZE - 1"

definition netQInit :: "BufQueue \<Rightarrow> BufQueue" where
  "netQInit queue = queue\<lparr>q_head := 0, q_tail := 0\<rparr>"

definition netQPut :: "BufQueue \<Rightarrow> pbuf \<Rightarrow> bool \<times> BufQueue" where
  "netQPut queue p =
     (if (q_head queue + 1) AND PBUF_QUEUE_MASK \<noteq> q_tail queue then
        let h = (q_head queue + 1) AND PBUF_QUEUE_MASK
        in (True, queue\<lparr>q_head := h, q_pbuf := (q_pbuf queue)[nat h := Some p]\<rparr>)
      else (False, queue))"

definition netQGet :: "BufQueue \<Rightarrow> pbuf option \<times> BufQueue" where
  "netQGet queue =
     (if q_tail queue \<noteq> q_head queue then
        let t = (q_tail queue + 1) AND PBUF_QUEUE_MASK
        in (q_pbuf queue ! nat t, queue\<lparr>q_tail := t\<rparr>)
      else (None, queue))"

text \<open>
  The loop of \<open>netQEmpty\<close> runs on the queue and the list of the buffers freed so far.
\<close>

definition netQEmpty_more :: "BufQueue \<times> pbuf list \<Rightarrow> bool" where
  "netQEmpty_more s = (q_tail (fst s) \<noteq> q_head (fst s))"

definition netQEmpty_body :: "BufQueue \<times> pbuf list \<Rightarrow> BufQueue \<times> pbuf list" where
  "netQEmpty_body s =
     (let queue = fst s; t = (q_tail queue + 1) AND PBUF_QUEUE_MASK
      in (queue\<lparr>q_tail := t\<rparr>,
          case q_pbuf queue ! nat t of Some p \<Rightarrow> snd s @ [p] | None \<Rightarrow> snd s))"

definition netQEmpty :: "BufQueue \<Rightarrow> BufQueue \<times> pbuf list" where
  "netQEmpty queue = while netQEmpty_more netQEmpty_body (queue, [])"

definition netQCheck :: "BufQueue \<Rightarrow> bool" where
  "netQCheck queue = (q_tail queue \<noteq> q_head queue)"

section \<open>The contract of a bounded FIFO queue\<close>

datatype 'a queue_op = Put 'a | Get

text \<open>
  Any sequence of operations, with the items that were accepted and the items that were
  delivered, both in order.
\<close>

fun queue_run :: "('q \<Rightarrow> 'a \<Rightarrow> bool \<times> 'q) \<Rightarrow> ('q \<Rightarrow> 'a option \<times> 'q) \<Rightarrow> 'a queue_op list \<Rightarrow> 'q \<Rightarrow>
    'a list \<times> 'a list \<times> 'q" where
  "queue_run put get [] q = ([], [], q)"
| "queue_run put get (Put x # ops) q =
     (let (ok, q') = put q x; (acc, del, q'') = queue_run put get ops q'
      in (if ok then x # acc else acc, del, q''))"
| "queue_run put get (Get # ops) q =
     (let (r, q') = get q; (acc, del, q'') = queue_run put get ops q'
      in (acc, (case r of Some x \<Rightarrow> x # del | None \<Rightarrow> del), q''))"

locale bounded_fifo =
  fixes init :: "'q \<Rightarrow> 'q" and put :: "'q \<Rightarrow> 'a \<Rightarrow> bool \<times> 'q" and get :: "'q \<Rightarrow> 'a option \<times> 'q"
    and check :: "'q \<Rightarrow> bool" and shape :: "'q \<Rightarrow> bool" and good :: "'q \<Rightarrow> bool"
    and contents :: "'q \<Rightarrow> 'a list" and cap :: nat
  assumes init_good: "shape q \<Longrightarrow> good (init q)"
    and init_contents: "shape q \<Longrightarrow> contents (init q) = []"
    and put_good: "good q \<Longrightarrow> good (snd (put q x))"
    and put_accepts: "good q \<Longrightarrow> fst (put q x) \<longleftrightarrow> length (contents q) < cap"
    and put_contents: "good q \<Longrightarrow> contents (snd (put q x)) =
      (if length (contents q) < cap then contents q @ [x] else contents q)"
    and get_good: "good q \<Longrightarrow> good (snd (get q))"
    and get_result: "good q \<Longrightarrow> fst (get q) =
      (case contents q of [] \<Rightarrow> None | x # _ \<Rightarrow> Some x)"
    and get_contents: "good q \<Longrightarrow> contents (snd (get q)) = tl (contents q)"
    and check_contents: "good q \<Longrightarrow> check q \<longleftrightarrow> contents q \<noteq> []"
    and bounded: "good q \<Longrightarrow> length (contents q) \<le> cap"
begin

lemma run_good: "good q \<Longrightarrow> good (snd (snd (queue_run put get ops q)))"
proof (induction ops arbitrary: q)
  case (Cons a ops)
  show ?case
    using Cons.IH [OF put_good [OF Cons.prems]] Cons.IH [OF get_good [OF Cons.prems]]
    by (cases a) (auto simp: split_beta)
qed simp

text \<open>Nothing is lost, duplicated or reordered between acceptance and delivery.\<close>

lemma run_fifo:
  "good q \<Longrightarrow> contents q @ fst (queue_run put get ops q) =
     fst (snd (queue_run put get ops q)) @ contents (snd (snd (queue_run put get ops q)))"
proof (induction ops arbitrary: q)
  case (Cons a ops)
  show ?case
  proof (cases a)
    case (Put x)
    then show ?thesis
      using Cons.IH [OF put_good [OF Cons.prems, of x]] Cons.prems
      by (auto simp: split_beta put_accepts put_contents)
  next
    case Get
    then show ?thesis
      using Cons.IH [OF get_good [OF Cons.prems]] Cons.prems
      by (cases "contents q") (auto simp: split_beta get_result get_contents)
  qed
qed simp

text \<open>An accepted item waits behind at most \<open>cap - 1\<close> others.\<close>

lemma put_waits: "good q \<Longrightarrow> fst (put q x) \<Longrightarrow>
    \<exists>front. contents (snd (put q x)) = front @ [x] \<and> length front < cap"
  by (auto simp: put_accepts put_contents)

lemma get_none: "good q \<Longrightarrow> fst (get q) = None \<longleftrightarrow> \<not> check q"
  by (auto simp: get_result check_contents split: list.splits)

end

section \<open>The ring buffer meets the contract\<close>

definition q_slot :: "BufQueue \<Rightarrow> nat \<Rightarrow> pbuf" where
  "q_slot queue k = the (q_pbuf queue ! nat ((q_tail queue + 1 + int k) mod 4))"

definition q_contents :: "BufQueue \<Rightarrow> pbuf list" where
  "q_contents queue = map (q_slot queue) [0..<nat ((q_head queue - q_tail queue) mod 4)]"

definition q_shape :: "BufQueue \<Rightarrow> bool" where
  "q_shape queue \<longleftrightarrow> length (q_pbuf queue) = PBUF_QUEUE_SIZE"

definition q_good :: "BufQueue \<Rightarrow> bool" where
  "q_good queue \<longleftrightarrow> q_shape queue \<and> q_head queue \<in> {0, 1, 2, 3} \<and> q_tail queue \<in> {0, 1, 2, 3} \<and>
     list_all (\<lambda>k. q_pbuf queue ! nat ((q_tail queue + 1 + int k) mod 4) \<noteq> None)
       [0..<nat ((q_head queue - q_tail queue) mod 4)]"

lemma length_4E:
  assumes "length xs = PBUF_QUEUE_SIZE"
  obtains a b c d where "xs = [a, b, c, d]"
  using assms by (auto simp: PBUF_QUEUE_SIZE_def numeral_eq_Suc length_Suc_conv)

lemma upt_small: "[0..<Suc 0] = [0]" "[0..<2] = [0, Suc 0]" "[0..<3] = [0, Suc 0, 2]"
  by (simp_all add: upt_rec)

lemmas ring_defs = q_good_def q_shape_def q_contents_def q_slot_def netQPut_def netQGet_def
  netQInit_def netQCheck_def PBUF_QUEUE_MASK_def PBUF_QUEUE_SIZE_def Let_def upt_small

text \<open>The sixteen positions of the two indices.\<close>

lemma q_good_cases:
  assumes "q_good queue"
  obtains a b c d h t where "queue = \<lparr>q_pbuf = [a, b, c, d], q_head = h, q_tail = t\<rparr>"
    "h \<in> {0, 1, 2, 3}" "t \<in> {0, 1, 2, 3}"
  using assms by (cases queue) (auto simp: q_good_def q_shape_def elim: length_4E)

lemma ring_init:
  assumes "q_shape q"
  shows "q_good (netQInit q)" "q_contents (netQInit q) = []"
  using assms by (auto simp: ring_defs)

lemma ring_put:
  assumes "q_good q"
  shows "q_good (snd (netQPut q x))" "fst (netQPut q x) \<longleftrightarrow> length (q_contents q) < 3"
    "q_contents (snd (netQPut q x)) =
       (if length (q_contents q) < 3 then q_contents q @ [x] else q_contents q)"
proof -
  obtain a b c d h t where q: "q = \<lparr>q_pbuf = [a, b, c, d], q_head = h, q_tail = t\<rparr>"
    and h: "h \<in> {0, 1, 2, 3}" and t: "t \<in> {0, 1, 2, 3}" using assms by (rule q_good_cases)
  show "q_good (snd (netQPut q x))"
    using assms h t by (auto simp: q ring_defs)
  show "fst (netQPut q x) \<longleftrightarrow> length (q_contents q) < 3"
    using h t by (auto simp: q ring_defs)
  show "q_contents (snd (netQPut q x)) =
       (if length (q_contents q) < 3 then q_contents q @ [x] else q_contents q)"
    using h t by (auto simp: q ring_defs)
qed

lemma ring_get:
  assumes "q_good q"
  shows "q_good (snd (netQGet q))"
    "fst (netQGet q) = (case q_contents q of [] \<Rightarrow> None | x # _ \<Rightarrow> Some x)"
    "q_contents (snd (netQGet q)) = tl (q_contents q)"
    "netQCheck q \<longleftrightarrow> q_contents q \<noteq> []" "length (q_contents q) \<le> 3"
proof -
  obtain a b c d h t where q: "q = \<lparr>q_pbuf = [a, b, c, d], q_head = h, q_tail = t\<rparr>"
    and h: "h \<in> {0, 1, 2, 3}" and t: "t \<in> {0, 1, 2, 3}" using assms by (rule q_good_cases)
  show "q_good (snd (netQGet q))" using assms h t by (auto simp: q ring_defs)
  show "fst (netQGet q) = (case q_contents q of [] \<Rightarrow> None | x # _ \<Rightarrow> Some x)"
    using assms h t by (auto simp: q ring_defs)
  show "q_contents (snd (netQGet q)) = tl (q_contents q)" using h t by (auto simp: q ring_defs)
  show "netQCheck q \<longleftrightarrow> q_contents q \<noteq> []" using h t by (auto simp: q ring_defs)
  show "length (q_contents q) \<le> 3" using h t by (auto simp: q ring_defs)
qed

interpretation ring: bounded_fifo netQInit netQPut netQGet netQCheck q_shape q_good q_contents 3
  by unfold_locales (auto simp: ring_init ring_put ring_get split del: if_split)

text \<open>\<open>netQEmpty\<close> returns, and hands every queued buffer back exactly once.\<close>

lemma netQEmpty_step:
  assumes "q_good (fst s)" "netQEmpty_more s"
  obtains p where "hd (q_contents (fst s)) = p" "q_contents (fst s) \<noteq> []"
    "netQEmpty_body s = (snd (netQGet (fst s)), snd s @ [p])"
proof -
  have more: "netQCheck (fst s)" using assms(2) by (simp add: netQEmpty_more_def netQCheck_def)
  then obtain p ps where c: "q_contents (fst s) = p # ps"
    using assms(1) by (cases "q_contents (fst s)") (auto simp: ring.check_contents)
  then have "fst (netQGet (fst s)) = Some p" using assms(1) by (simp add: ring.get_result)
  then show ?thesis
    using that [of p] c more by (auto simp: netQEmpty_body_def netQGet_def netQCheck_def Let_def)
qed

lemma netQEmpty_option:
  assumes "q_good q"
  shows "\<exists>q'. while_option netQEmpty_more netQEmpty_body (q, fr) = Some (q', fr @ q_contents q) \<and>
     q_good q' \<and> q_contents q' = []"
  using assms
proof (induction "length (q_contents q)" arbitrary: q fr)
  case 0
  then have "\<not> netQEmpty_more (q, fr)"
    using ring.check_contents [of q] by (simp add: netQEmpty_more_def netQCheck_def)
  with 0 show ?case by (simp add: while_option_unfold)
next
  case (Suc n)
  then have "netQCheck q" by (auto simp: ring.check_contents)
  then have more: "netQEmpty_more (q, fr)" by (simp add: netQEmpty_more_def netQCheck_def)
  with Suc.prems obtain p where p: "hd (q_contents q) = p" "q_contents q \<noteq> []"
    and b: "netQEmpty_body (q, fr) = (snd (netQGet q), fr @ [p])"
    by (auto elim: netQEmpty_step [of "(q, fr)", simplified])
  have c: "q_contents (snd (netQGet q)) = tl (q_contents q)" using Suc.prems by (rule ring.get_contents)
  have "\<exists>q'. while_option netQEmpty_more netQEmpty_body (snd (netQGet q), fr @ [p]) =
      Some (q', (fr @ [p]) @ q_contents (snd (netQGet q))) \<and> q_good q' \<and> q_contents q' = []"
    using Suc.hyps(2) c Suc.prems by (intro Suc.hyps(1)) (auto simp: ring.get_good)
  moreover have "(fr @ [p]) @ q_contents (snd (netQGet q)) = fr @ q_contents q"
    using p by (cases "q_contents q") (auto simp: c)
  ultimately show ?case using more b by (simp add: while_option_unfold)
qed

lemma netQEmpty_spec:
  assumes "q_good q"
  shows "snd (netQEmpty q) = q_contents q" "q_good (fst (netQEmpty q))"
    "q_contents (fst (netQEmpty q)) = []"
  using netQEmpty_option [OF assms, of "[]"] by (auto simp: netQEmpty_def while_def)

section \<open>Opening and closing\<close>

text \<open>\<open>DEFAULT_PTP_DOMAIN_ADDRESS\<close> and \<open>PEER_PTP_DOMAIN_ADDRESS\<close> as \<open>inet_aton\<close> returns them
  (network byte order, read as a little-endian \<open>int32_t\<close>); it accepts both, so the label
  \<open>fail04\<close> of \<open>netInit\<close> is not reached.\<close>

definition DEFAULT_PTP_DOMAIN_ADDRESS :: int where
  "DEFAULT_PTP_DOMAIN_ADDRESS = i32 (224 + 256 * 0 + 65536 * 1 + 16777216 * 129)"

definition PEER_PTP_DOMAIN_ADDRESS :: int where
  "PEER_PTP_DOMAIN_ADDRESS = i32 (224 + 256 * 0 + 65536 * 0 + 16777216 * 107)"

definition on_net :: "(NetPath \<Rightarrow> NetPath) \<Rightarrow> world \<Rightarrow> world" where
  "on_net f = on_clock (\<lambda>c. c\<lparr>netPath := f (netPath c)\<rparr>)"

definition ptpd_alert :: "world \<Rightarrow> world" where
  "ptpd_alert w = w\<lparr>alerts := Suc (alerts w)\<rparr>"

definition pbuf_free :: "pbuf \<Rightarrow> world \<Rightarrow> world" where
  "pbuf_free p w = w\<lparr>freed := freed w @ [p]\<rparr>"

text \<open>
  lwIP's UDP control blocks: \<open>udp_new\<close> returns a fresh one without a local port when the pool
  has one left; \<open>udp_bind\<close> refuses (\<open>ERR_USE\<close>) a port another control block holds.
\<close>

definition udp_new :: "world \<Rightarrow> nat option \<times> world" where
  "udp_new w =
     (let (free, w) = ask e_udp_new w
      in if free then (Some (next_pcb w),
             w\<lparr>pcbs := (next_pcb w, 0) # pcbs w, next_pcb := Suc (next_pcb w)\<rparr>)
         else (None, w))"

definition udp_remove :: "nat option \<Rightarrow> world \<Rightarrow> world" where
  "udp_remove pcb w =
     (case pcb of None \<Rightarrow> w | Some k \<Rightarrow> w\<lparr>pcbs := filter (\<lambda>(k', _). k' \<noteq> k) (pcbs w)\<rparr>)"

definition local_port :: "nat \<Rightarrow> world \<Rightarrow> int" where
  "local_port k w = (case map_of (pcbs w) k of Some p \<Rightarrow> p | None \<Rightarrow> 0)"

definition set_local_port :: "nat \<Rightarrow> int \<Rightarrow> world \<Rightarrow> world" where
  "set_local_port k port w =
     w\<lparr>pcbs := map (\<lambda>(k', p). (k', if k' = k then port else p)) (pcbs w)\<rparr>"

definition udp_bind :: "nat option \<Rightarrow> int \<Rightarrow> world \<Rightarrow> world" where
  "udp_bind pcb port w =
     (case pcb of None \<Rightarrow> w
      | Some k \<Rightarrow> if list_ex (\<lambda>(k', p). k' \<noteq> k \<and> p = port) (pcbs w) then w
                  else set_local_port k port w)"

definition netShutdown :: "world \<Rightarrow> bool \<times> world" where
  "netShutdown w =
     (let w = (case eventPcb (netPath (ptp w)) of None \<Rightarrow> w
               | Some k \<Rightarrow> on_net (\<lambda>n. n\<lparr>eventPcb := None\<rparr>) (udp_remove (Some k) w));
          w = (case generalPcb (netPath (ptp w)) of None \<Rightarrow> w
               | Some k \<Rightarrow> on_net (\<lambda>n. n\<lparr>generalPcb := None\<rparr>) (udp_remove (Some k) w));
          w = on_net (\<lambda>n. n\<lparr>multicastAddr := 0, unicastAddr := 0\<rparr>) w
      in (True, w))"

definition findIface :: "world \<Rightarrow> int \<times> world" where
  "findIface w =
     (let w = on_clock (\<lambda>c. c\<lparr>portUuidField := poke_list (portUuidField c) 0 (e_hwaddr (env w))\<rparr>) w
      in ask e_ifaddr w)"

definition netInit :: "world \<Rightarrow> bool \<times> world" where
  "netInit w =
     (let w = on_net (\<lambda>n. n\<lparr>eventQ := netQInit (eventQ n), generalQ := netQInit (generalQ n)\<rparr>) w;
          (addr, w) = findIface w
      in if addr = 0 then (False, w)
         else
     (let (pcb, w) = udp_new w;
          w = on_net (\<lambda>n. n\<lparr>eventPcb := pcb\<rparr>) w
      in if pcb = None then (False, w)
         else
     (let (pcb, w) = udp_new w;
          w = on_net (\<lambda>n. n\<lparr>generalPcb := pcb\<rparr>) w
      in if pcb = None then (False, udp_remove (eventPcb (netPath (ptp w))) w)
         else
     (let w = on_net (\<lambda>n. n\<lparr>unicastAddr := 0\<rparr>) w;
          w = on_net (\<lambda>n. n\<lparr>multicastAddr := DEFAULT_PTP_DOMAIN_ADDRESS\<rparr>) w;
          w = on_net (\<lambda>n. n\<lparr>peerMulticastAddr := PEER_PTP_DOMAIN_ADDRESS\<rparr>) w;
          w = udp_bind (eventPcb (netPath (ptp w))) PTP_EVENT_PORT w;
          w = udp_bind (generalPcb (netPath (ptp w))) PTP_GENERAL_PORT w
      in (True, w)))))"

section \<open>Reception\<close>

definition netRecvEventCallback :: "pbuf \<Rightarrow> world \<Rightarrow> world" where
  "netRecvEventCallback p w =
     (let (ok, q) = netQPut (eventQ (netPath (ptp w))) p;
          w = on_net (\<lambda>n. n\<lparr>eventQ := q\<rparr>) w
      in if \<not> ok then pbuf_free p w else ptpd_alert w)"

definition netRecvGeneralCallback :: "pbuf \<Rightarrow> world \<Rightarrow> world" where
  "netRecvGeneralCallback p w =
     (let (ok, q) = netQPut (generalQ (netPath (ptp w))) p;
          w = on_net (\<lambda>n. n\<lparr>generalQ := q\<rparr>) w
      in if \<not> ok then pbuf_free p w else ptpd_alert w)"

definition netSelect :: "world \<Rightarrow> int" where
  "netSelect w =
     (if netQCheck (eventQ (netPath (ptp w))) \<or> netQCheck (generalQ (netPath (ptp w))) then 1 else 0)"

definition netEmptyEventQ :: "world \<Rightarrow> world" where
  "netEmptyEventQ w =
     (let (q, fr) = netQEmpty (eventQ (netPath (ptp w)));
          w = on_net (\<lambda>n. n\<lparr>eventQ := q\<rparr>) w
      in w\<lparr>freed := freed w @ fr\<rparr>)"

text \<open>
  The copy loop of \<open>netRecv\<close>: \<open>copy_pbuf buf chain j i n\<close> copies the \<open>n\<close> bytes that remain to
  \<open>buf\<close> at \<open>i\<close>, reading at offset \<open>j\<close> of the first segment.  It stops, with the flag set, at
  a read outside the segment or through the null \<open>next\<close> pointer, which C leaves undefined.
\<close>

fun copy_pbuf :: "octet list \<Rightarrow> octet list list \<Rightarrow> nat \<Rightarrow> nat \<Rightarrow> nat \<Rightarrow> octet list \<times> bool" where
  "copy_pbuf buf pcopy j i 0 = (buf, False)"
| "copy_pbuf buf [] j i (Suc n) = (buf, True)"
| "copy_pbuf buf (payload # next) j i (Suc n) =
     (if j < length payload then
        (let buf = buf[i := payload ! j]; j = Suc j
         in if j = length payload then copy_pbuf buf next 0 (Suc i) n
            else copy_pbuf buf (payload # next) j (Suc i) n)
      else (buf, True))"

text \<open>
  \<open>netRecv\<close> on one queue; the flag \<open>stamp\<close> says whether the caller passed a \<open>time\<close> pointer,
  whose old value is \<open>time\<close>.  Result: the length, the buffer, the time and the queue.
\<close>

definition netRecv :: "octet list \<Rightarrow> bool \<Rightarrow> TimeInternal \<Rightarrow> BufQueue \<Rightarrow> world \<Rightarrow>
    (int \<times> octet list \<times> TimeInternal \<times> BufQueue) \<times> world" where
  "netRecv buf stamp time msgQueue w =
     (let (r, q) = netQGet msgQueue
      in case r of
        None \<Rightarrow> ((0, buf, time, q), w)
      | Some p \<Rightarrow>
          if PACKET_SIZE < tot_len p then ((0, buf, time, q), pbuf_free p w)
          else if tot_len p = 0 then ((0, buf, time, q), pbuf_free p w)
          else
            (let (time, w) = (if stamp then ask e_rx w else (time, w));
                 (buf, wild) = copy_pbuf buf (chain p) 0 0 (tot_len p);
                 w = w\<lparr>wild_read := wild_read w \<or> wild\<rparr>
             in ((int (tot_len p), buf, time, q), pbuf_free p w)))"

definition netRecvEvent :: "octet list \<Rightarrow> bool \<Rightarrow> TimeInternal \<Rightarrow> world \<Rightarrow>
    (int \<times> octet list \<times> TimeInternal) \<times> world" where
  "netRecvEvent buf stamp time w =
     (let ((n, buf, time, q), w) = netRecv buf stamp time (eventQ (netPath (ptp w))) w
      in ((n, buf, time), on_net (\<lambda>net. net\<lparr>eventQ := q\<rparr>) w))"

definition netRecvGeneral :: "octet list \<Rightarrow> bool \<Rightarrow> TimeInternal \<Rightarrow> world \<Rightarrow>
    (int \<times> octet list \<times> TimeInternal) \<times> world" where
  "netRecvGeneral buf stamp time w =
     (let ((n, buf, time, q), w) = netRecv buf stamp time (generalQ (netPath (ptp w))) w
      in ((n, buf, time), on_net (\<lambda>net. net\<lparr>generalQ := q\<rparr>) w))"

section \<open>Transmission\<close>

text \<open>
  \<open>udp_sendto\<close> on a control block without a local port first binds it to an ephemeral one; the
  destination port was read before.  A null control block is a null pointer access.
\<close>

definition udp_sendto :: "nat \<Rightarrow> octet list \<Rightarrow> int \<Rightarrow> int \<Rightarrow> world \<Rightarrow> bool \<times> world" where
  "udp_sendto k payload addr port w =
     (let w = (if local_port k w = 0
               then let (e, w) = ask e_ephemeral w in set_local_port k e w else w);
          (ok, w) = ask e_send w
      in (ok, if ok then w\<lparr>sent := sent w @ [Packet addr port payload]\<rparr> else w))"

definition netSend :: "octet list \<Rightarrow> nat \<Rightarrow> bool \<Rightarrow> TimeInternal \<Rightarrow> int \<Rightarrow> nat option \<Rightarrow> world \<Rightarrow>
    (int \<times> TimeInternal) \<times> world" where
  "netSend buf len stamp time addr pcb w =
     (let (alloc, w) = ask e_alloc w
      in if \<not> alloc then ((int len, time), w)
         else
     (let (taken, w) = ask e_take w
      in if \<not> taken then ((int len, time), w)
         else case pcb of None \<Rightarrow> ((int len, time), w\<lparr>wild_read := True\<rparr>)
         | Some k \<Rightarrow>
     (let (ok, w) = udp_sendto k (take len buf) addr (local_port k w) w
      in if \<not> ok then ((int len, time), w)
         else
     (let (time, w) = (if stamp then ask e_tx w else (time, w))
      in ((int len, time), w)))))"

definition netSendEvent :: "octet list \<Rightarrow> nat \<Rightarrow> bool \<Rightarrow> TimeInternal \<Rightarrow> world \<Rightarrow>
    (int \<times> TimeInternal) \<times> world" where
  "netSendEvent buf len stamp time w =
     netSend buf len stamp time (multicastAddr (netPath (ptp w))) (eventPcb (netPath (ptp w))) w"

definition netSendGeneral :: "octet list \<Rightarrow> nat \<Rightarrow> TimeInternal \<Rightarrow> world \<Rightarrow>
    (int \<times> TimeInternal) \<times> world" where
  "netSendGeneral buf len time w =
     netSend buf len False time (multicastAddr (netPath (ptp w))) (generalPcb (netPath (ptp w))) w"

definition netSendPeerGeneral :: "octet list \<Rightarrow> nat \<Rightarrow> TimeInternal \<Rightarrow> world \<Rightarrow>
    (int \<times> TimeInternal) \<times> world" where
  "netSendPeerGeneral buf len time w =
     netSend buf len False time (peerMulticastAddr (netPath (ptp w)))
       (generalPcb (netPath (ptp w))) w"

definition netSendPeerEvent :: "octet list \<Rightarrow> nat \<Rightarrow> bool \<Rightarrow> TimeInternal \<Rightarrow> world \<Rightarrow>
    (int \<times> TimeInternal) \<times> world" where
  "netSendPeerEvent buf len stamp time w =
     netSend buf len stamp time (peerMulticastAddr (netPath (ptp w))) (eventPcb (netPath (ptp w))) w"

section \<open>Lemmas\<close>

subsection \<open>The copy loop\<close>

definition wf_pbuf :: "pbuf \<Rightarrow> bool" where
  "wf_pbuf p \<longleftrightarrow> tot_len p = length (concat (chain p)) \<and> [] \<notin> set (chain p)"

lemma copy_pbuf_spec:
  "[] \<notin> set ch \<Longrightarrow> (n = 0 \<or> (ch \<noteq> [] \<and> j < length (hd ch))) \<Longrightarrow>
    j + n \<le> length (concat ch) \<Longrightarrow> i + n \<le> length buf \<Longrightarrow>
    copy_pbuf buf ch j i n = (take i buf @ take n (drop j (concat ch)) @ drop (i + n) buf, False)"
proof (induction buf ch j i n rule: copy_pbuf.induct)
  case (3 buf payload "next" j i n)
  have j: "j < length payload" using 3 by simp
  have upd: "take (Suc i) (buf[i := x]) = take i buf @ [x]" "drop (Suc (i + n)) (buf[i := x]) = drop (Suc (i + n)) buf" for x
    using 3(6) by (simp_all add: take_Suc_conv_app_nth)
  have hd: "take (Suc n) (drop j (payload @ concat next)) =
      payload ! j # take n (drop (Suc j) (payload @ concat next))"
    using j by (simp add: Cons_nth_drop_Suc [symmetric])
  show ?case
  proof (cases "Suc j = length payload")
    case True
    have "copy_pbuf (buf[i := payload ! j]) next 0 (Suc i) n =
        (take (Suc i) (buf[i := payload ! j]) @ take n (drop 0 (concat next)) @
         drop (Suc i + n) (buf[i := payload ! j]), False)"
      using 3(3-) True j by (cases "next"; intro 3(1)) auto
    then show ?thesis using j True upd hd by simp
  next
    case False
    have "copy_pbuf (buf[i := payload ! j]) (payload # next) (Suc j) (Suc i) n =
        (take (Suc i) (buf[i := payload ! j]) @ take n (drop (Suc j) (concat (payload # next))) @
         drop (Suc i + n) (buf[i := payload ! j]), False)"
      using 3(3-) False j by (intro 3(2)) auto
    then show ?thesis using j False upd hd by simp
  qed
qed auto

lemma copy_pbuf_all:
  assumes "wf_pbuf p" "tot_len p \<le> length buf"
  shows "copy_pbuf buf (chain p) 0 0 (tot_len p) =
     (concat (chain p) @ drop (tot_len p) buf, False)"
  using assms copy_pbuf_spec [of "chain p" "tot_len p" 0 0 buf]
  by (cases "chain p"; cases "hd (chain p)") (auto simp: wf_pbuf_def)

subsection \<open>Frame facts\<close>

lemma on_net_simps [simp]:
  "netPath (ptp (on_net f w)) = f (netPath (ptp w))" "timers (on_net f w) = timers w"
  "env (on_net f w) = env w" "tick (on_net f w) = tick w" "pcbs (on_net f w) = pcbs w"
  "sent (on_net f w) = sent w" "freed (on_net f w) = freed w"
  "clock_cmds (on_net f w) = clock_cmds w" "alerts (on_net f w) = alerts w"
  "div_by_zero (on_net f w) = div_by_zero w" "wild_read (on_net f w) = wild_read w"
  "next_pcb (on_net f w) = next_pcb w"
  by (simp_all add: on_net_def)

subsection \<open>Where the received buffers are\<close>

definition net_good :: "world \<Rightarrow> bool" where
  "net_good w \<longleftrightarrow> q_good (eventQ (netPath (ptp w))) \<and> q_good (generalQ (netPath (ptp w)))"

definition owned :: "world \<Rightarrow> pbuf multiset" where
  "owned w = mset (freed w) + mset (q_contents (eventQ (netPath (ptp w)))) +
     mset (q_contents (generalQ (netPath (ptp w))))"

lemma callback_conserves:
  assumes "net_good w"
  shows "net_good (netRecvEventCallback p w)" "owned (netRecvEventCallback p w) = add_mset p (owned w)"
    "net_good (netRecvGeneralCallback p w)" "owned (netRecvGeneralCallback p w) = add_mset p (owned w)"
  using assms
  by (auto simp: net_good_def owned_def netRecvEventCallback_def netRecvGeneralCallback_def Let_def
      split_beta pbuf_free_def ptpd_alert_def ring_put)

lemma q_contents_get:
  assumes "q_good q"
  shows "fst (netQGet q) = None \<Longrightarrow> q_contents (snd (netQGet q)) = q_contents q"
    "fst (netQGet q) = Some p \<Longrightarrow> q_contents q = p # q_contents (snd (netQGet q))"
  using assms by (auto simp: ring_get split: list.splits)

lemma netRecv_conserves:
  assumes "q_good q"
  shows "q_good (snd (snd (snd (fst (netRecv buf stamp time q w)))))"
    "mset (freed (snd (netRecv buf stamp time q w))) +
       mset (q_contents (snd (snd (snd (fst (netRecv buf stamp time q w)))))) =
     mset (freed w) + mset (q_contents q)"
    "netPath (ptp (snd (netRecv buf stamp time q w))) = netPath (ptp w)"
  using assms q_contents_get [OF assms] ring.get_good [OF assms]
  by (auto simp: netRecv_def Let_def split_beta pbuf_free_def split: option.splits)

lemma netRecv_returns:
  assumes "q_good q" "q_contents q = p # ps" "wf_pbuf p" "0 < tot_len p" "tot_len p \<le> PACKET_SIZE"
    "length buf = PACKET_SIZE"
  shows "fst (netRecv buf stamp time q w) =
      (int (tot_len p), concat (chain p) @ drop (tot_len p) buf,
       (if stamp then e_rx (env w) (tick w) else time), snd (netQGet q))"
    "wild_read (snd (netRecv buf stamp time q w)) = wild_read w"
  using assms copy_pbuf_all [of p buf]
  by (auto simp: netRecv_def Let_def split_beta pbuf_free_def ring_get ask_def)


lemma netRecv_rejects:
  assumes "q_good q" "q_contents q = p # ps" "tot_len p = 0 \<or> PACKET_SIZE < tot_len p"
  shows "fst (netRecv buf stamp time q w) = (0, buf, time, snd (netQGet q))"
    "snd (netRecv buf stamp time q w) = pbuf_free p w"
  using assms by (auto simp: netRecv_def Let_def split_beta ring_get)

lemma netRecv_empty:
  assumes "q_good q" "q_contents q = []"
  shows "netRecv buf stamp time q w = ((0, buf, time, q), w)"
  using assms ring.get_none [OF assms(1)] ring.check_contents [OF assms(1)]
  by (auto simp: netRecv_def netQGet_def netQCheck_def Let_def)

lemma netRecv_length_buf [simp]: "length (fst (snd (fst (netRecv buf stamp time q w)))) = length buf"
proof -
  have "length (fst (copy_pbuf b ch j i n)) = length b" for b ch j i n
    by (induction b ch j i n rule: copy_pbuf.induct) (simp_all add: Let_def)
  then show ?thesis by (simp add: netRecv_def Let_def split_beta split: option.splits)
qed

lemma netRecvEvent_conserves:
  assumes "net_good w"
  shows "net_good (snd (netRecvEvent buf stamp time w))"
    "owned (snd (netRecvEvent buf stamp time w)) = owned w"
    "net_good (snd (netRecvGeneral buf stamp time w))"
    "owned (snd (netRecvGeneral buf stamp time w)) = owned w"
  using assms netRecv_conserves [of "eventQ (netPath (ptp w))" buf stamp time w]
    netRecv_conserves [of "generalQ (netPath (ptp w))" buf stamp time w]
  by (auto simp: net_good_def owned_def netRecvEvent_def netRecvGeneral_def Let_def split_beta
      ac_simps)

lemma netEmptyEventQ_conserves:
  assumes "net_good w"
  shows "net_good (netEmptyEventQ w)" "owned (netEmptyEventQ w) = owned w"
    "q_contents (eventQ (netPath (ptp (netEmptyEventQ w)))) = []"
  using assms
  by (auto simp: net_good_def owned_def netEmptyEventQ_def Let_def split_beta netQEmpty_spec)

subsection \<open>Transmission\<close>

lemma netSend_length: "fst (fst (netSend buf len stamp time addr pcb w)) = int len"
  by (simp add: netSend_def udp_sendto_def ask_def Let_def split_beta split: option.splits)

text \<open>A control block bound to its port sends there; nothing else about the world changes.\<close>

lemma local_port_tick [simp]: "local_port k (w\<lparr>tick := t\<rparr>) = local_port k w"
  by (simp add: local_port_def)

lemma netSend_bound:
  assumes "local_port k w = port" "port \<noteq> 0"
  shows "netSend buf len stamp time addr (Some k) w =
     (if \<not> e_alloc (env w) (tick w) then ((int len, time), w\<lparr>tick := Suc (tick w)\<rparr>)
      else if \<not> e_take (env w) (Suc (tick w)) then ((int len, time), w\<lparr>tick := Suc (Suc (tick w))\<rparr>)
      else if \<not> e_send (env w) (Suc (Suc (tick w)))
        then ((int len, time), w\<lparr>tick := Suc (Suc (Suc (tick w)))\<rparr>)
      else ((int len, if stamp then e_tx (env w) (Suc (Suc (Suc (tick w)))) else time),
        w\<lparr>tick := (if stamp then Suc (Suc (Suc (Suc (tick w)))) else Suc (Suc (Suc (tick w)))),
           sent := sent w @ [Packet addr port (take len buf)]\<rparr>))"
  using assms by (simp add: netSend_def udp_sendto_def ask_def Let_def)

subsection \<open>Opening the ports\<close>

definition pcbs_good :: "world \<Rightarrow> bool" where
  "pcbs_good w \<longleftrightarrow> list_all (\<lambda>(k, p). k < next_pcb w) (pcbs w)"

lemma map_port_other:
  "list_all (\<lambda>(k, p). k < n) ps \<Longrightarrow> n \<le> k \<Longrightarrow> map (\<lambda>(k', p). (k', if k' = k then port else p)) ps = ps"
  for n k :: nat
  by (induction ps) (auto simp: split_beta)

lemma port_taken:
  "list_all (\<lambda>(k, p). k < n) ps \<Longrightarrow> n \<le> k \<Longrightarrow>
    list_ex (\<lambda>(k', p). k' \<noteq> k \<and> p = port) ps \<longleftrightarrow> port \<in> snd ` set ps"
  for n k :: nat
  by (induction ps) auto

lemma netInit_opens:
  assumes "e_ifaddr (env w) (tick w) \<noteq> 0" "e_udp_new (env w) (Suc (tick w))"
    "e_udp_new (env w) (Suc (Suc (tick w)))" "pcbs_good w"
  shows "fst (netInit w)"
    "eventPcb (netPath (ptp (snd (netInit w)))) = Some (next_pcb w)"
    "generalPcb (netPath (ptp (snd (netInit w)))) = Some (Suc (next_pcb w))"
    "pcbs (snd (netInit w)) =
       (Suc (next_pcb w), if PTP_GENERAL_PORT \<in> snd ` set (pcbs w) then 0 else PTP_GENERAL_PORT) #
       (next_pcb w, if PTP_EVENT_PORT \<in> snd ` set (pcbs w) then 0 else PTP_EVENT_PORT) # pcbs w"
    "eventQ (netPath (ptp (snd (netInit w)))) = netQInit (eventQ (netPath (ptp w)))"
    "generalQ (netPath (ptp (snd (netInit w)))) = netQInit (generalQ (netPath (ptp w)))"
    "freed (snd (netInit w)) = freed w"
    "multicastAddr (netPath (ptp (snd (netInit w)))) = DEFAULT_PTP_DOMAIN_ADDRESS"
    "peerMulticastAddr (netPath (ptp (snd (netInit w)))) = PEER_PTP_DOMAIN_ADDRESS"
  using assms(1-3) port_taken [OF assms(4) [unfolded pcbs_good_def]]
    map_port_other [OF assms(4) [unfolded pcbs_good_def]]
  by (simp_all add: netInit_def findIface_def udp_new_def udp_bind_def set_local_port_def ask_def
      Let_def PTP_EVENT_PORT_def PTP_GENERAL_PORT_def)

section \<open>Properties\<close>

text \<open>Concrete packets and a concrete ring for the witnesses.\<close>

definition sample_pbuf :: "nat \<Rightarrow> pbuf" where
  "sample_pbuf k = \<lparr>pbuf_id = k, tot_len = 5, chain = [[1, 2], [3, 4, 5]]\<rparr>"

definition sample_ring :: BufQueue where
  "sample_ring = \<lparr>q_pbuf = [Some (sample_pbuf 0), Some (sample_pbuf 1), None, None], q_head = 1, q_tail = 3\<rparr>"

lemma sample_ring_ok [simp]:
  "q_shape zero_queue" "q_good sample_ring" "q_contents sample_ring = [sample_pbuf 0, sample_pbuf 1]"
  "wf_pbuf (sample_pbuf k)"
  by (simp_all add: sample_ring_def sample_pbuf_def zero_queue_def wf_pbuf_def ring_defs)

text \<open>
  C20 (refinement).  The four-slot ring of packet buffers is a bounded FIFO of capacity three: run
  any sequence of \<open>netQPut\<close> and \<open>netQGet\<close> from \<open>netQInit\<close>; the buffers accepted, in the order they
  were put, are those delivered, in the order they were got, followed by those still queued.
\<close>

theorem queue_is_fifo:
  assumes "q_shape q"
  shows "fst (queue_run netQPut netQGet ops (netQInit q)) =
      fst (snd (queue_run netQPut netQGet ops (netQInit q))) @
      q_contents (snd (snd (queue_run netQPut netQGet ops (netQInit q)))) \<and>
    length (q_contents (snd (snd (queue_run netQPut netQGet ops (netQInit q))))) \<le> 3"
  using ring.run_fifo [OF ring.init_good [OF assms], of ops] ring.init_contents [OF assms]
    ring.bounded [OF ring.run_good [OF ring.init_good [OF assms], of ops]] by simp

theorem queue_is_fifo_witness:
  "fst (queue_run netQPut netQGet [Put (sample_pbuf 0), Put (sample_pbuf 1), Get] (netQInit zero_queue)) =
   fst (snd (queue_run netQPut netQGet [Put (sample_pbuf 0), Put (sample_pbuf 1), Get] (netQInit zero_queue))) @
   q_contents (snd (snd (queue_run netQPut netQGet [Put (sample_pbuf 0), Put (sample_pbuf 1), Get]
     (netQInit zero_queue))))"
  using queue_is_fifo [OF sample_ring_ok(1)] by blast

text \<open>
  The draining loop of \<open>netQEmpty\<close> ends on every well-formed ring; it hands every
  queued buffer to \<open>pbuf_free\<close> once, in queue order, and leaves the ring empty.
\<close>

theorem netQEmpty_drains:
  assumes "q_good q"
  shows "\<exists>q'. while_option netQEmpty_more netQEmpty_body (q, []) = Some (q', q_contents q) \<and>
    netQEmpty q = (q', q_contents q) \<and> q_good q' \<and> q_contents q' = [] \<and> \<not> netQCheck q'"
proof -
  obtain q' where q': "while_option netQEmpty_more netQEmpty_body (q, []) = Some (q', q_contents q)"
    "q_good q'" "q_contents q' = []"
    using netQEmpty_option [OF assms, of "[]"] by auto
  then have "netQEmpty q = (q', q_contents q)" by (simp add: netQEmpty_def while_def)
  moreover have "\<not> netQCheck q'" using ring_get(4) [OF q'(2)] q'(3) by simp
  ultimately show ?thesis using q' by blast
qed

theorem netQEmpty_drains_witness:
  "snd (netQEmpty sample_ring) = [sample_pbuf 0, sample_pbuf 1]"
  using netQEmpty_drains [OF sample_ring_ok(2)] by auto

text \<open>
  \<open>netRecv\<close> copies a chained packet of at most \<open>PACKET_SIZE\<close> bytes, its segments
  concatenated, to the start of the buffer, returns its length, removes it from the queue and
  reads nothing outside its segments.
\<close>

theorem netRecv_copies_packet:
  assumes "q_good q" "q_contents q = p # ps" "wf_pbuf p" "0 < tot_len p" "tot_len p \<le> PACKET_SIZE"
    "length buf = PACKET_SIZE"
  shows "fst (netRecv buf stamp time q w) =
      (int (tot_len p), concat (chain p) @ drop (tot_len p) buf,
       (if stamp then e_rx (env w) (tick w) else time), snd (netQGet q)) \<and>
    q_contents (snd (netQGet q)) = ps \<and>
    wild_read (snd (netRecv buf stamp time q w)) = wild_read w"
  using netRecv_returns [OF assms] ring_get(3) [OF assms(1)] assms(2) by simp

theorem netRecv_copies_packet_witness:
  "take 5 (fst (snd (fst (netRecv (replicate PACKET_SIZE 0) True zero_time sample_ring (boot_world calm_env))))) =
     [1, 2, 3, 4, 5]"
  using netRecv_copies_packet [OF sample_ring_ok(2,3,4), of "replicate PACKET_SIZE 0" True zero_time "boot_world calm_env"]
  by (simp add: sample_pbuf_def PACKET_SIZE_def)

text \<open>
  \<open>netRecv\<close> discards an empty packet and one longer than \<open>PACKET_SIZE\<close>: the buffer and
  the time stamp stay as they were, the length returned is 0, and the packet is freed.
\<close>

theorem netRecv_discards:
  assumes "q_good q" "q_contents q = p # ps" "tot_len p = 0 \<or> PACKET_SIZE < tot_len p"
  shows "fst (netRecv buf stamp time q w) = (0, buf, time, snd (netQGet q)) \<and>
    freed (snd (netRecv buf stamp time q w)) = freed w @ [p]"
  using netRecv_rejects [OF assms] by (simp add: pbuf_free_def)

theorem netRecv_discards_witness:
  "freed (snd (netRecv (replicate PACKET_SIZE 0) True zero_time
     \<lparr>q_pbuf = [Some \<lparr>pbuf_id = 4, tot_len = 301, chain = [replicate 301 0]\<rparr>, None, None, None], q_head = 0, q_tail = 3\<rparr>
     (boot_world calm_env))) = [\<lparr>pbuf_id = 4, tot_len = 301, chain = [replicate 301 0]\<rparr>]"
proof -
  let ?p = "\<lparr>pbuf_id = 4, tot_len = 301, chain = [replicate 301 0]\<rparr>"
  let ?q = "\<lparr>q_pbuf = [Some ?p, None, None, None], q_head = 0, q_tail = 3\<rparr>"
  have "q_good ?q" "q_contents ?q = [?p]" by (simp_all add: ring_defs)
  from netRecv_discards [OF this, of "replicate PACKET_SIZE 0" True zero_time "boot_world calm_env"]
  show ?thesis by (simp add: PACKET_SIZE_def boot_world_def)
qed

text \<open>
  \<open>netSend\<close> returns the length of the message on every path, failures of \<open>pbuf_alloc\<close>,
  \<open>pbuf_take\<close> and \<open>udp_sendto\<close> included; when all three succeed it sends exactly one datagram,
  the first \<open>len\<close> bytes of the buffer, from the control block's own port, and otherwise none.
\<close>

theorem netSend_reports_length:
  assumes "local_port k w = port" "port \<noteq> 0"
  shows "fst (fst (netSend buf len stamp time addr (Some k) w)) = int len \<and>
    sent (snd (netSend buf len stamp time addr (Some k) w)) =
      (if e_alloc (env w) (tick w) \<and> e_take (env w) (Suc (tick w)) \<and> e_send (env w) (Suc (Suc (tick w)))
       then sent w @ [Packet addr port (take len buf)] else sent w)"
  unfolding netSend_bound [OF assms] by simp

theorem netSend_reports_length_witness:
  "sent (snd (netSend [7, 8, 9] 2 False zero_time 224 (Some 0) ((boot_world calm_env)\<lparr>pcbs := [(0, 319)]\<rparr>))) =
     [Packet 224 319 [7, 8]]"
  using netSend_reports_length [of 0 "(boot_world calm_env)\<lparr>pcbs := [(0, 319)]\<rparr>" 319 "[7, 8, 9]" 2 False zero_time 224]
  by (simp add: local_port_def boot_world_def calm_env_def)

text \<open>
  When the interface has an address and lwIP has two control blocks left,
  \<open>netInit\<close> succeeds with two new control blocks, bound to the PTP event and general ports unless
  another control block already holds them, empty queues and the PTP multicast addresses.
\<close>

theorem netInit_opens_ports:
  assumes "e_ifaddr (env w) (tick w) \<noteq> 0" "e_udp_new (env w) (Suc (tick w))"
    "e_udp_new (env w) (Suc (Suc (tick w)))" "pcbs_good w"
  shows "fst (netInit w) \<and>
    eventPcb (netPath (ptp (snd (netInit w)))) = Some (next_pcb w) \<and>
    generalPcb (netPath (ptp (snd (netInit w)))) = Some (Suc (next_pcb w)) \<and>
    pcbs (snd (netInit w)) =
       (Suc (next_pcb w), if PTP_GENERAL_PORT \<in> snd ` set (pcbs w) then 0 else PTP_GENERAL_PORT) #
       (next_pcb w, if PTP_EVENT_PORT \<in> snd ` set (pcbs w) then 0 else PTP_EVENT_PORT) # pcbs w \<and>
    \<not> netQCheck (eventQ (netPath (ptp (snd (netInit w))))) \<and>
    \<not> netQCheck (generalQ (netPath (ptp (snd (netInit w))))) \<and>
    multicastAddr (netPath (ptp (snd (netInit w)))) = DEFAULT_PTP_DOMAIN_ADDRESS"
  using netInit_opens [OF assms] by (simp add: netQCheck_def netQInit_def)

theorem netInit_opens_ports_witness:
  "pcbs (snd (netInit (boot_world calm_env))) = [(1, 320), (0, 319)]"
  using netInit_opens_ports [of "boot_world calm_env"]
  by (simp add: boot_world_def calm_env_def pcbs_good_def PTP_EVENT_PORT_def PTP_GENERAL_PORT_def)

end
