(* ===== verification/SysTime.thy ===== *)
theory SysTime
  imports World
begin

text \<open>
  \<open>dep/sys_time.c\<close>: reading and setting the PTP clock, and the random numbers.  The calls into
  the Ethernet driver are logged in \<open>clock_cmds\<close>; the driver's side of them is theory \<open>Ethif\<close>.
\<close>

definition getTime :: "world \<Rightarrow> TimeInternal \<times> world" where
  "getTime w = ask e_now w"

definition setTime :: "TimeInternal \<Rightarrow> world \<Rightarrow> world" where
  "setTime time w = w\<lparr>clock_cmds := clock_cmds w @
     [SetTime \<lparr>seconds = seconds time, nanoseconds = nanoseconds time\<rparr>]\<rparr>"

definition updateTime :: "TimeInternal \<Rightarrow> world \<Rightarrow> world" where
  "updateTime time w = w\<lparr>clock_cmds := clock_cmds w @
     [UpdateOffset \<lparr>seconds = i32 (- seconds time), nanoseconds = i32 (- nanoseconds time)\<rparr>]\<rparr>"

text \<open>
  \<open>rand () % randMax\<close> in \<open>uint32_t\<close>.  A zero \<open>randMax\<close> is a division by zero: the flag is raised
  and the value is what the target's divide and multiply-subtract give.
\<close>

definition getRand :: "int \<Rightarrow> world \<Rightarrow> int \<times> world" where
  "getRand randMax w =
     (let (r, w) = ask e_rand w; m = u32 randMax
      in (u32 (int r) mod m, if m = 0 then w\<lparr>div_by_zero := True\<rparr> else w))"

definition adjTime :: "int \<Rightarrow> world \<Rightarrow> bool \<times> world" where
  "adjTime adj w =
     (let adj = (if adj > ADJ_FREQ_MAX then ADJ_FREQ_MAX
                 else if adj < - ADJ_FREQ_MAX then - ADJ_FREQ_MAX else adj)
      in (True, w\<lparr>clock_cmds := clock_cmds w @ [AdjFreq adj]\<rparr>))"

text \<open>\<open>pow2ms\<close> of \<open>dep/constants_dep.h\<close>.\<close>

definition pow2ms :: "int \<Rightarrow> int" where
  "pow2ms a = (if a > 0 then i32 (1000 * 2 ^ nat a) else 1000 div 2 ^ nat (- a))"

section \<open>Lemmas\<close>

text \<open>No command to the clock asks for more than the limit.\<close>

definition cmd_ok :: "clock_cmd \<Rightarrow> bool" where
  "cmd_ok c = (case c of AdjFreq a \<Rightarrow> \<bar>a\<bar> \<le> ADJ_FREQ_MAX | _ \<Rightarrow> True)"

lemma adjTime_cmd:
  "\<exists>a. \<bar>a\<bar> \<le> ADJ_FREQ_MAX \<and> (\<bar>adj\<bar> \<le> ADJ_FREQ_MAX \<longrightarrow> a = adj) \<and>
     clock_cmds (snd (adjTime adj w)) = clock_cmds w @ [AdjFreq a]"
  by (auto simp: adjTime_def Let_def ADJ_FREQ_MAX_def)

lemma systime_frame [simp]:
  "ptp (snd (getTime w)) = ptp w" "ptp (setTime t w) = ptp w" "ptp (snd (getRand m w)) = ptp w"
  "ptp (snd (adjTime a w)) = ptp w" "timers (snd (getTime w)) = timers w"
  "timers (setTime t w) = timers w" "timers (snd (getRand m w)) = timers w"
  "timers (snd (adjTime a w)) = timers w" "env (snd (getTime w)) = env w"
  "env (setTime t w) = env w" "env (snd (getRand m w)) = env w" "env (snd (adjTime a w)) = env w"
  "sent (snd (getTime w)) = sent w" "sent (setTime t w) = sent w" "sent (snd (getRand m w)) = sent w"
  "sent (snd (adjTime a w)) = sent w" "freed (snd (getTime w)) = freed w"
  "freed (setTime t w) = freed w" "freed (snd (getRand m w)) = freed w"
  "freed (snd (adjTime a w)) = freed w" "pcbs (snd (getTime w)) = pcbs w"
  "pcbs (setTime t w) = pcbs w" "pcbs (snd (getRand m w)) = pcbs w" "pcbs (snd (adjTime a w)) = pcbs w"
  "clock_cmds (snd (getTime w)) = clock_cmds w" "clock_cmds (snd (getRand m w)) = clock_cmds w"
  by (simp_all add: getTime_def setTime_def getRand_def adjTime_def Let_def split_beta)

lemma getRand_bound:
  assumes "is_u32 m" "0 < m"
  shows "0 \<le> fst (getRand m w)" "fst (getRand m w) < m"
  using assms by (simp_all add: getRand_def Let_def split_beta)

lemma pow2ms_small:
  assumes "-9 \<le> a" "a \<le> 21"
  shows "0 < pow2ms a"
proof (cases "a > 0")
  case True
  have "(2::int) ^ nat a \<le> 2 ^ 21" using assms by (intro power_increasing) auto
  moreover have "(0::int) < 2 ^ nat a" by simp
  ultimately have "0 < 1000 * (2::int) ^ nat a" "1000 * (2::int) ^ nat a \<le> 2097152000" by simp_all
  then show ?thesis using True by (simp add: pow2ms_def i32_exact)
next
  case False
  have "(2::int) ^ nat (- a) \<le> 2 ^ 9" using assms by (intro power_increasing) auto
  then have "(2::int) ^ nat (- a) \<le> 1000" by simp
  then show ?thesis using False by (simp add: pow2ms_def pos_imp_zdiv_pos_iff)
qed

lemma pow2ms_zero: "a \<le> -10 \<Longrightarrow> pow2ms a = 0"
proof -
  assume a: "a \<le> -10"
  then have "(2::int) ^ 10 \<le> 2 ^ nat (- a)" by (intro power_increasing) auto
  with a show ?thesis by (simp add: pow2ms_def)
qed

end
