(* ===== verification/Servo.thy ===== *)
theory Servo
  imports Arith Net SysTime "HOL-Library.Log_Nat"
begin

text \<open>
  The clock servo, \<open>dep/servo.c\<close>: the exponential filter, the computation of the offset from
  the master and of the path delays, and the PI controller that steers the clock.  Single
  precision arithmetic is modelled on rational numbers with an explicit rounding function.
\<close>

section \<open>Single precision\<close>

text \<open>Round to nearest, ties to even; the exponent of a number below one; \<open>float\<close> rounding.\<close>

definition round_even :: "rat \<Rightarrow> int" where
  "round_even x =
     (let f = \<lfloor>x\<rfloor>; d = x - of_int f
      in if d < 1 / 2 then f else if d > 1 / 2 then f + 1 else if even f then f else f + 1)"

fun neg_exp :: "nat \<Rightarrow> rat \<Rightarrow> nat" where
  "neg_exp 0 x = 0"
| "neg_exp (Suc n) x = (if x \<ge> 1 then 0 else Suc (neg_exp n (2 * x)))"

definition f32 :: "rat \<Rightarrow> rat" where
  "f32 x =
     (if x = 0 then 0
      else if \<bar>x\<bar> \<ge> 1 then
        let e = bitlen \<lfloor>\<bar>x\<bar>\<rfloor> - 1
        in if e \<le> 23 then of_int (round_even (x * 2 ^ nat (23 - e))) / 2 ^ nat (23 - e)
           else of_int (round_even (x / 2 ^ nat (e - 23))) * 2 ^ nat (e - 23)
      else let k = 23 + neg_exp 126 \<bar>x\<bar> in of_int (round_even (x * 2 ^ k)) / 2 ^ k)"

text \<open>Conversion to an integer type truncates; the target saturates out of range.\<close>

definition trunc :: "rat \<Rightarrow> int" where
  "trunc x = (if x \<ge> 0 then \<lfloor>x\<rfloor> else - \<lfloor>- x\<rfloor>)"

definition f32_to_i32 :: "rat \<Rightarrow> int" where
  "f32_to_i32 x = max (-2147483648) (min 2147483647 (trunc x))"

definition DEFAULT_PARENTS_STATS :: bool where "DEFAULT_PARENTS_STATS = False"

section \<open>Operations\<close>

definition initClock :: "world \<Rightarrow> world" where
  "initClock w =
     (let w = on_clock (\<lambda>c. c\<lparr>
            Tms := \<lparr>seconds = 0, nanoseconds = 0\<rparr>,
            observedDrift := 0,
            owd_filt := (owd_filt c)\<lparr>filt_n := 0, filt_s := i16 (trunc (sDelay (servo c)))\<rparr>,
            ofm_filt := (ofm_filt c)\<lparr>filt_n := 0, filt_s := sOffset (servo c)\<rparr>\<rparr>) w;
          w = (if DEFAULT_PARENTS_STATS
               then on_clock (\<lambda>c. c\<lparr>slv_filt := (slv_filt c)\<lparr>filt_n := 0, filt_s := 6\<rparr>,
                      offsetHistory := [0, 0]\<rparr>) w
               else w);
          w = on_clock (\<lambda>c. c\<lparr>
            waitingForFollowUp := False,
            waitingForPDelayRespFollowUp := False,
            pdelay_t1 := \<lparr>seconds = 0, nanoseconds = 0\<rparr>,
            pdelay_t2 := \<lparr>seconds = 0, nanoseconds = 0\<rparr>,
            pdelay_t3 := \<lparr>seconds = 0, nanoseconds = 0\<rparr>,
            pdelay_t4 := \<lparr>seconds = 0, nanoseconds = 0\<rparr>,
            parentDS := (parentDS c)\<lparr>parentStats := False, observedParentClockPhaseChangeRate := 0,
              observedParentOffsetScaledLogVariance := 0\<rparr>\<rparr>) w;
          w = (if \<not> noAdjust (servo (ptp w)) then snd (adjTime 0 w) else w)
      in netEmptyEventQ w)"

definition order :: "int \<Rightarrow> int" where
  "order n = (let n = (if n < 0 then i32 (- n) else n) in if n = 0 then 0 else floorLog2 (u32 n))"

text \<open>\<open>filter\<close>: the new value of \<open>*nsec_current\<close> and of the filter.\<close>

definition filter_order :: "int \<Rightarrow> Filter \<Rightarrow> int \<times> Filter" where
  "filter_order nsec filt =
     (let filt = filt\<lparr>filt_n := i32 (filt_n filt + 1)\<rparr>;
          filt = (if filt_n filt = 1 then filt\<lparr>y_prev := nsec, y_sum := nsec, s_prev := 0\<rparr> else filt);
          s = filt_s filt;
          (s, filt) = (if i32 (2 ^ nat s) > filt_n filt then (order (filt_n filt), filt)
                       else (s, filt\<lparr>filt_n := i32 (2 ^ nat s)\<rparr>));
          s2 = 30 - order (c_max (y_prev filt) nsec)
      in (c_min s s2, filt))"

definition filter_ptp :: "int \<Rightarrow> Filter \<Rightarrow> int \<times> Filter" where
  "filter_ptp nsec filt =
     (let (s, filt) = filter_order nsec filt;
          filt = (if s_prev filt > s then filt\<lparr>y_sum := y_sum filt div 2 ^ nat (s_prev filt - s)\<rparr>
                  else if s_prev filt < s
                  then filt\<lparr>y_sum := i32 (y_sum filt * 2 ^ nat (s - s_prev filt))\<rparr>
                  else filt);
          filt = filt\<lparr>y_sum := i32 (y_sum filt + i32 (nsec - y_prev filt))\<rparr>;
          filt = filt\<lparr>y_prev := y_sum filt div 2 ^ nat s\<rparr>;
          filt = filt\<lparr>s_prev := i16 s\<rparr>
      in (y_prev filt, filt))"

definition set_offset :: "TimeInternal \<Rightarrow> PtpClock \<Rightarrow> PtpClock" where
  "set_offset t c = c\<lparr>currentDS := (currentDS c)\<lparr>offsetFromMaster := t\<rparr>\<rparr>"

definition updateOffset :: "TimeInternal \<Rightarrow> TimeInternal \<Rightarrow> TimeInternal \<Rightarrow> PtpClock \<Rightarrow> PtpClock" where
  "updateOffset syncEventIngressTimestamp originTimestamp correctionField c =
     (let c = c\<lparr>Tms := subTime syncEventIngressTimestamp originTimestamp\<rparr>;
          c = c\<lparr>Tms := subTime (Tms c) correctionField\<rparr>;
          c = set_offset (Tms c) c;
          c = (case delayMechanism (portDS c) of
                 E2E \<Rightarrow> set_offset (subTime (offsetFromMaster (currentDS c))
                          (meanPathDelay (currentDS c))) c
               | P2P \<Rightarrow> set_offset (subTime (offsetFromMaster (currentDS c))
                          (peerMeanPathDelay (portDS c))) c
               | DELAY_DISABLED \<Rightarrow> c)
      in if seconds (offsetFromMaster (currentDS c)) \<noteq> 0 then
           (if portState (portDS c) = PTP_SLAVE then raise_event SYNCHRONIZATION_FAULT c else c)
         else
      (let (ns, filt) = filter_ptp (nanoseconds (offsetFromMaster (currentDS c))) (ofm_filt c);
           c = set_offset ((offsetFromMaster (currentDS c))\<lparr>nanoseconds := ns\<rparr>) (c\<lparr>ofm_filt := filt\<rparr>)
       in if i32 \<bar>nanoseconds (offsetFromMaster (currentDS c))\<bar> < DEFAULT_CALIBRATED_OFFSET_NS then
            (if portState (portDS c) = PTP_UNCALIBRATED then raise_event MASTER_CLOCK_SELECTED c
             else c)
          else if i32 \<bar>nanoseconds (offsetFromMaster (currentDS c))\<bar> > DEFAULT_UNCALIBRATED_OFFSET_NS
          then (if portState (portDS c) = PTP_SLAVE then raise_event SYNCHRONIZATION_FAULT c else c)
          else c))"

definition set_meanPathDelay :: "TimeInternal \<Rightarrow> PtpClock \<Rightarrow> PtpClock" where
  "set_meanPathDelay t c = c\<lparr>currentDS := (currentDS c)\<lparr>meanPathDelay := t\<rparr>\<rparr>"

definition updateDelay :: "TimeInternal \<Rightarrow> TimeInternal \<Rightarrow> TimeInternal \<Rightarrow> PtpClock \<Rightarrow> PtpClock" where
  "updateDelay delayEventEgressTimestamp recieveTimestamp correctionField c =
     (if filt_n (ofm_filt c) = 0 then c
      else
      let c = c\<lparr>Tsm := subTime recieveTimestamp delayEventEgressTimestamp\<rparr>;
          c = c\<lparr>Tsm := subTime (Tsm c) correctionField\<rparr>;
          c = set_meanPathDelay (addTime (Tms c) (Tsm c)) c;
          c = set_meanPathDelay (div2Time (meanPathDelay (currentDS c))) c
      in if seconds (meanPathDelay (currentDS c)) \<noteq> 0 then c
         else
           let (ns, filt) = filter_ptp (nanoseconds (meanPathDelay (currentDS c))) (owd_filt c)
           in set_meanPathDelay ((meanPathDelay (currentDS c))\<lparr>nanoseconds := ns\<rparr>)
                (c\<lparr>owd_filt := filt\<rparr>))"

definition set_peerDelay :: "TimeInternal \<Rightarrow> PtpClock \<Rightarrow> PtpClock" where
  "set_peerDelay t c = c\<lparr>portDS := (portDS c)\<lparr>peerMeanPathDelay := t\<rparr>\<rparr>"

definition updatePeerDelay :: "TimeInternal \<Rightarrow> bool \<Rightarrow> PtpClock \<Rightarrow> PtpClock" where
  "updatePeerDelay correctionField twoStep c =
     (let c = (if twoStep then
                 (let Tab = subTime (pdelay_t2 c) (pdelay_t1 c);
                      Tba = subTime (pdelay_t4 c) (pdelay_t3 c)
                  in set_peerDelay (addTime Tab Tba) c)
               else set_peerDelay (subTime (pdelay_t4 c) (pdelay_t1 c)) c);
          c = set_peerDelay (subTime (peerMeanPathDelay (portDS c)) correctionField) c;
          c = set_peerDelay (div2Time (peerMeanPathDelay (portDS c))) c
      in if seconds (peerMeanPathDelay (portDS c)) \<noteq> 0 then c
         else
           let (ns, filt) = filter_ptp (nanoseconds (peerMeanPathDelay (portDS c))) (owd_filt c)
           in set_peerDelay ((peerMeanPathDelay (portDS c))\<lparr>nanoseconds := ns\<rparr>)
                (c\<lparr>owd_filt := filt\<rparr>))"

text \<open>The two branches of \<open>updateClock\<close>: the offset is too large to steer, or the PI controller.\<close>

definition updateClock_far :: "world \<Rightarrow> world" where
  "updateClock_far w =
     (let off = offsetFromMaster (currentDS (ptp w))
      in if noAdjust (servo (ptp w)) then w
         else if \<not> noResetClock (servo (ptp w)) then
           (let (timeTmp, w) = getTime w;
                timeTmp = subTime timeTmp off;
                w = setTime timeTmp w
            in initClock w)
         else (let adj = (if nanoseconds off > 0 then ADJ_FREQ_MAX else - ADJ_FREQ_MAX)
               in snd (adjTime (- adj) w)))"

definition offset_norm :: "int \<Rightarrow> int \<Rightarrow> int" where
  "offset_norm logSync ns =
     (if logSync > 0 then ns div 2 ^ nat logSync
      else if logSync < 0 then i32 (ns * 2 ^ nat (- logSync)) else ns)"

definition float_gain :: "int \<Rightarrow> rat \<Rightarrow> int" where
  "float_gain x gain = f32_to_i32 (f32 (f32 (of_int x) * gain))"

definition clamp_drift :: "int \<Rightarrow> int" where
  "clamp_drift d = (if d > ADJ_FREQ_MAX then ADJ_FREQ_MAX
     else if d < - ADJ_FREQ_MAX then - ADJ_FREQ_MAX else d)"

definition updateClock_stats :: "PtpClock \<Rightarrow> PtpClock" where
  "updateClock_stats c =
     (let ns = nanoseconds (offsetFromMaster (currentDS c));
          a = i32 (i32 (offsetHistory c ! 1 - 2 * offsetHistory c ! 0) + ns);
          (v, filt) = filter_ptp (i32 (order (i32 (a * a)) * 2 ^ 8)) (slv_filt c)
      in c\<lparr>parentDS := (parentDS c)\<lparr>parentStats := True,
             observedParentClockPhaseChangeRate := i32 (1100 * observedDrift c),
             observedParentOffsetScaledLogVariance := i16 (17000 + v)\<rparr>,
           offsetHistory := [i16 ns, offsetHistory c ! 0], slv_filt := filt\<rparr>)"

definition updateClock_pi :: "world \<Rightarrow> world" where
  "updateClock_pi w =
     (let offsetNorm = offset_norm (logSyncInterval (portDS (ptp w)))
            (nanoseconds (offsetFromMaster (currentDS (ptp w))));
          w = on_clock (\<lambda>c. c\<lparr>observedDrift :=
                i32 (observedDrift c + float_gain offsetNorm (servo_ai (servo c)))\<rparr>) w;
          w = on_clock (\<lambda>c. c\<lparr>observedDrift := clamp_drift (observedDrift c)\<rparr>) w;
          w = (if \<not> noAdjust (servo (ptp w)) then
                 (let adj = i32 (float_gain offsetNorm (servo_ap (servo (ptp w))) +
                              observedDrift (ptp w))
                  in snd (adjTime (i32 (- adj)) w))
               else w)
      in if DEFAULT_PARENTS_STATS then on_clock updateClock_stats w else w)"

definition updateClock :: "world \<Rightarrow> world" where
  "updateClock w =
     (let off = offsetFromMaster (currentDS (ptp w))
      in if seconds off \<noteq> 0 \<or> i32 \<bar>nanoseconds off\<bar> > MAX_ADJ_OFFSET_NS
         then updateClock_far w else updateClock_pi w)"

section \<open>Lemmas\<close>

subsection \<open>Single precision is exact on small integers\<close>

lemma round_even_int [simp]: "round_even (of_int n) = n"
  by (simp add: round_even_def)

lemma f32_int:
  assumes "\<bar>n\<bar> < 2 ^ 24"
  shows "f32 (of_int n) = of_int n"
proof (cases "n = 0")
  case False
  define e where "e = bitlen \<bar>n\<bar> - 1"
  have "bitlen \<bar>n\<bar> \<le> 24"
    using assms by (intro bitlen_le_iff_power [THEN iffD2]) auto
  then have e: "e \<le> 23" by (simp add: e_def)
  have fl: "\<lfloor>\<bar>of_int n :: rat\<bar>\<rfloor> = \<bar>n\<bar>" by (simp flip: of_int_abs)
  have "round_even (of_int n * 2 ^ k) = n * 2 ^ k" for k
    using round_even_int [of "n * 2 ^ k"] by simp
  then show ?thesis
    using False e by (simp add: f32_def fl e_def [symmetric] Let_def)
qed (simp add: f32_def)

lemma float_gain_1:
  assumes "\<bar>x\<bar> < 2 ^ 24"
  shows "float_gain x 1 = x"
proof -
  have "trunc (of_int x) = x" by (auto simp: trunc_def simp flip: of_int_minus)
  then show ?thesis using assms by (auto simp: float_gain_def f32_int f32_to_i32_def)
qed

subsection \<open>The filter\<close>

lemma order_bounds:
  assumes "\<bar>n\<bar> \<le> 2147483647"
  shows "0 \<le> order n" "order n \<le> 30" "\<bar>n\<bar> < 2 ^ Suc (nat (order n))"
proof -
  have o: "order n = (if n = 0 then 0 else floorLog2 \<bar>n\<bar>)"
    using assms by (auto simp: order_def Let_def is_u32_def)
  have "0 \<le> floorLog2 \<bar>n\<bar> \<and> 2 ^ nat (floorLog2 \<bar>n\<bar>) \<le> \<bar>n\<bar> \<and> \<bar>n\<bar> < 2 ^ Suc (nat (floorLog2 \<bar>n\<bar>))" if "n \<noteq> 0"
    using that assms by (intro floorLog2_spec) (auto simp: is_u32_def)
  moreover have "floorLog2 \<bar>n\<bar> \<le> 30" if "n \<noteq> 0" "2 ^ nat (floorLog2 \<bar>n\<bar>) \<le> \<bar>n\<bar>"
  proof (rule ccontr)
    assume "\<not> floorLog2 \<bar>n\<bar> \<le> 30"
    then have "(2::int) ^ 31 \<le> 2 ^ nat (floorLog2 \<bar>n\<bar>)" by (intro power_increasing) auto
    with that assms show False by simp
  qed
  ultimately show "0 \<le> order n" "order n \<le> 30" "\<bar>n\<bar> < 2 ^ Suc (nat (order n))"
    by (auto simp: o)
qed

text \<open>A filter that has settled on the value \<open>v\<close>.\<close>

definition settled :: "int \<Rightarrow> Filter \<Rightarrow> bool" where
  "settled v filt \<longleftrightarrow> y_prev filt = v \<and> 0 \<le> s_prev filt \<and> s_prev filt \<le> 30 \<and>
     y_sum filt = v * 2 ^ nat (s_prev filt)"

definition filt_ok :: "Filter \<Rightarrow> bool" where
  "filt_ok filt \<longleftrightarrow> 0 \<le> filt_s filt \<and> filt_s filt \<le> 30 \<and> 0 \<le> filt_n filt \<and> filt_n filt \<le> 2 ^ 30"

lemma filter_order_spec:
  assumes "filt_ok filt" "\<bar>v\<bar> \<le> 2147483647" "filt_n filt = 0 \<or> settled v filt"
  obtains s f where "filter_order v filt = (s, f)" "0 \<le> s" "s \<le> 30"
    "s \<le> 30 - order v" "settled v f" "filt_ok f" "filt_s f = filt_s filt" "0 < filt_n f"
proof -
  define n where "n = filt_n filt + 1"
  have n: "1 \<le> n" "n \<le> 2 ^ 30 + 1" "i32 n = n"
    using assms(1) by (auto simp: n_def filt_ok_def)
  define f0 where "f0 = (if n = 1 then filt\<lparr>filt_n := n, y_prev := v, y_sum := v, s_prev := 0\<rparr>
    else filt\<lparr>filt_n := n\<rparr>)"
  have f0: "settled v f0" "filt_n f0 = n" "filt_s f0 = filt_s filt"
    using assms(3) by (auto simp: f0_def n_def settled_def)
  have pw: "i32 (2 ^ nat (filt_s filt)) = 2 ^ nat (filt_s filt)" "(2::int) ^ nat (filt_s filt) \<le> 2 ^ 30"
  proof -
    show le: "(2::int) ^ nat (filt_s filt) \<le> 2 ^ 30"
      using assms(1) by (intro power_increasing) (auto simp: filt_ok_def)
    then show "i32 (2 ^ nat (filt_s filt)) = 2 ^ nat (filt_s filt)"
      by (intro i32_exact) (auto intro: order_trans [of _ 0])
  qed
  have fo: "filter_order v filt =
      (if 2 ^ nat (filt_s filt) > n then (c_min (order n) (30 - order v), f0)
       else (c_min (filt_s filt) (30 - order v), f0\<lparr>filt_n := 2 ^ nat (filt_s filt)\<rparr>))"
    using n pw f0 f0_def by (auto simp: filter_order_def Let_def n_def [symmetric] settled_def c_max_def)
  note on = order_bounds [of n] and ov = order_bounds [OF assms(2)]
  show ?thesis
  proof (cases "2 ^ nat (filt_s filt) > n")
    case True
    then show ?thesis
      using that [of "c_min (order n) (30 - order v)" f0] fo f0 on ov n assms(1) pw
      by (auto simp: c_min_def filt_ok_def)
  next
    case False
    then show ?thesis
      using that [of "c_min (filt_s filt) (30 - order v)" "f0\<lparr>filt_n := 2 ^ nat (filt_s filt)\<rparr>"]
        fo f0 ov assms(1) pw
      by (auto simp: c_min_def filt_ok_def settled_def)
  qed
qed

text \<open>A constant input is a fixed point of the filter, whatever order it has reached.\<close>

lemma filter_fixpoint:
  assumes "filt_ok filt" "\<bar>v\<bar> \<le> 2147483647" "filt_n filt = 0 \<or> settled v filt"
  shows "fst (filter_ptp v filt) = v" "settled v (snd (filter_ptp v filt))"
    "filt_ok (snd (filter_ptp v filt))" "0 < filt_n (snd (filter_ptp v filt))"
    "filt_s (snd (filter_ptp v filt)) = filt_s filt"
proof -
  from assms obtain s f where fo: "filter_order v filt = (s, f)" "0 \<le> s" "s \<le> 30"
    "s \<le> 30 - order v" "settled v f" "filt_ok f" "filt_s f = filt_s filt" "0 < filt_n f"
    by (rule filter_order_spec)
  define sp where "sp = s_prev f"
  have f: "y_prev f = v" "0 \<le> sp" "sp \<le> 30" "y_sum f = v * 2 ^ nat sp"
    using fo(5) by (auto simp: settled_def sp_def)
  have b: "\<bar>v * 2 ^ nat s\<bar> \<le> 2147483647"
  proof -
    have "\<bar>v\<bar> * 2 ^ nat s < 2 ^ Suc (nat (order v)) * 2 ^ nat s"
      using order_bounds(3) [OF assms(2)] by simp
    also have "\<dots> = 2 ^ (Suc (nat (order v)) + nat s)" by (simp add: power_add)
    also have "\<dots> \<le> (2::int) ^ 31"
      using fo(2,4) order_bounds(1) [OF assms(2)] by (intro power_increasing) auto
    finally show ?thesis by (simp add: abs_mult)
  qed
  define ys where "ys = (if sp > s then y_sum f div 2 ^ nat (sp - s)
      else if sp < s then i32 (y_sum f * 2 ^ nat (s - sp)) else y_sum f)"
  have ys: "ys = v * 2 ^ nat s"
  proof -
    consider "sp > s" | "sp < s" | "sp = s" by linarith
    then show ?thesis
    proof cases
      case 1
      then have "nat sp = nat s + nat (sp - s)" using fo(2) by auto
      then have "y_sum f = v * 2 ^ nat s * 2 ^ nat (sp - s)" using f by (simp add: power_add)
      then show ?thesis using 1 by (simp add: ys_def)
    next
      case 2
      then have "nat s = nat sp + nat (s - sp)" using f by auto
      then have "y_sum f * 2 ^ nat (s - sp) = v * 2 ^ nat s" using f by (simp add: power_add)
      then show ?thesis using 2 b by (simp add: ys_def)
    qed (simp add: ys_def f)
  qed
  have shift: "(if s_prev f > s then f\<lparr>y_sum := y_sum f div 2 ^ nat (s_prev f - s)\<rparr>
      else if s_prev f < s then f\<lparr>y_sum := i32 (y_sum f * 2 ^ nat (s - s_prev f))\<rparr>
      else f) = f\<lparr>y_sum := ys\<rparr>"
    by (auto simp: ys_def sp_def)
  have s16: "i16 s = s" using fo(2,3) by (simp add: is_i16_def)
  have "filter_ptp v filt = (v, f\<lparr>y_sum := v * 2 ^ nat s, y_prev := v, s_prev := s\<rparr>)"
    unfolding filter_ptp_def fo(1) Let_def prod.case shift ys using b f(1) s16 by simp
  then show "fst (filter_ptp v filt) = v" "settled v (snd (filter_ptp v filt))"
    "filt_ok (snd (filter_ptp v filt))" "0 < filt_n (snd (filter_ptp v filt))"
    "filt_s (snd (filter_ptp v filt)) = filt_s filt"
    using fo by (auto simp: settled_def filt_ok_def)
qed

text \<open>A filter of order zero (the default for the offset from the master) passes every sample.\<close>

definition pass_through :: "Filter \<Rightarrow> bool" where
  "pass_through filt \<longleftrightarrow> filt_s filt = 0 \<and> (filt_n filt = 0 \<or>
     filt_n filt = 1 \<and> s_prev filt = 0 \<and> y_sum filt = y_prev filt \<and> \<bar>y_prev filt\<bar> \<le> 2147483647)"

lemma i32_add_diff: "i32 (y + i32 (v - y)) = i32 v"
  by (simp add: i32_def mod_simps)

lemma order_1 [simp]: "order 1 = 0"
  using order_bounds [of 1] by (simp add: order_def floorLog2_def fl_step_def Let_def)

lemma filter_order_pass:
  assumes "pass_through filt" "\<bar>v\<bar> \<le> 2147483647"
  obtains y where "filter_order v filt = (0, filt\<lparr>filt_n := 1, y_prev := y, y_sum := y, s_prev := 0\<rparr>)"
proof (cases "filt_n filt = 0")
  case True
  have o: "order v \<le> 30" using assms(2) by (rule order_bounds)
  have "filter_order v filt = (0, filt\<lparr>filt_n := 1, y_prev := v, y_sum := v, s_prev := 0\<rparr>)"
    using True assms(1) o by (simp add: filter_order_def pass_through_def Let_def c_max_def c_min_def)
  then show ?thesis by (rule that)
next
  case False
  then have f: "filt_n filt = 1" "s_prev filt = 0" "y_sum filt = y_prev filt"
    "\<bar>y_prev filt\<bar> \<le> 2147483647" "filt_s filt = 0"
    using assms(1) by (auto simp: pass_through_def)
  have "\<bar>c_max (y_prev filt) v\<bar> \<le> 2147483647" using f(4) assms(2) by (simp add: c_max_def)
  then have "order (c_max (y_prev filt) v) \<le> 30" by (rule order_bounds)
  then have "filter_order v filt = (0, filt\<lparr>filt_n := 1\<rparr>)"
    using f by (simp add: filter_order_def Let_def c_min_def)
  then show ?thesis using that [of "y_prev filt"] f by simp
qed

lemma filter_ptp_order0:
  assumes "filter_order v filt = (0, f)" "s_prev f = 0" "y_sum f = y_prev f"
  shows "filter_ptp v filt = (i32 v, f\<lparr>y_sum := i32 v, y_prev := i32 v, s_prev := 0\<rparr>)"
  unfolding filter_ptp_def assms(1) Let_def prod.case using assms(2,3) by (simp add: i32_add_diff)

lemma filter_pass_through:
  assumes "pass_through filt" "\<bar>v\<bar> \<le> 2147483647"
  shows "fst (filter_ptp v filt) = v" "pass_through (snd (filter_ptp v filt))"
proof -
  obtain y where fo: "filter_order v filt = (0, filt\<lparr>filt_n := 1, y_prev := y, y_sum := y, s_prev := 0\<rparr>)"
    using assms by (rule filter_order_pass)
  have "filter_ptp v filt = (v, filt\<lparr>filt_n := 1, y_prev := v, y_sum := v, s_prev := 0\<rparr>)"
    using filter_ptp_order0 [OF fo] assms(2) by simp
  then show "fst (filter_ptp v filt) = v" "pass_through (snd (filter_ptp v filt))"
    using assms by (simp_all add: pass_through_def)
qed

subsection \<open>Offset and delay\<close>

lemma fits_of_ns: "\<bar>v\<bar> \<le> 1073741822000000000 \<Longrightarrow> fits (time_of_ns v)"
proof -
  assume v: "\<bar>v\<bar> \<le> 1073741822000000000"
  have "\<bar>v\<bar> div 1000000000 \<le> 1073741822" using zdiv_mono1 [OF v, of 1000000000] by simp
  moreover have "0 \<le> \<bar>v\<bar> div 1000000000" "0 \<le> \<bar>v\<bar> mod 1000000000" "\<bar>v\<bar> mod 1000000000 < 1000000000"
    by simp_all
  ultimately show ?thesis
    by (cases "0 \<le> v") (simp_all add: fits_def time_of_ns_def sdiv_pos smod_pos)
qed

definition raw_offset :: "TimeInternal \<Rightarrow> TimeInternal \<Rightarrow> TimeInternal \<Rightarrow> PtpClock \<Rightarrow> int" where
  "raw_offset rx origin corr c =
     total_ns rx - total_ns origin - total_ns corr -
       (case delayMechanism (portDS c) of E2E \<Rightarrow> total_ns (meanPathDelay (currentDS c))
        | P2P \<Rightarrow> total_ns (peerMeanPathDelay (portDS c)) | DELAY_DISABLED \<Rightarrow> 0)"

definition offset_inputs_ok :: "TimeInternal \<Rightarrow> TimeInternal \<Rightarrow> TimeInternal \<Rightarrow> PtpClock \<Rightarrow> bool" where
  "offset_inputs_ok rx origin corr c \<longleftrightarrow> fits rx \<and> fits origin \<and> fits corr \<and>
     fits (meanPathDelay (currentDS c)) \<and> fits (peerMeanPathDelay (portDS c)) \<and>
     \<bar>total_ns rx - total_ns origin\<bar> \<le> 1073741822000000000 \<and>
     \<bar>total_ns rx - total_ns origin - total_ns corr\<bar> \<le> 1073741822000000000"


text \<open>The setters of the servo.\<close>

lemma set_offset_simps [simp]:
  "offsetFromMaster (currentDS (set_offset t c)) = t"
  "meanPathDelay (currentDS (set_offset t c)) = meanPathDelay (currentDS c)"
  "set_offset t (set_offset t' c) = set_offset t c" "portDS (set_offset t c) = portDS c"
  "ofm_filt (set_offset t c) = ofm_filt c" "Tms (set_offset t c) = Tms c"
  "(set_offset t c)\<lparr>ofm_filt := f\<rparr> = set_offset t (c\<lparr>ofm_filt := f\<rparr>)"
  by (simp_all add: set_offset_def)

text \<open>The offset from the master before it is filtered.\<close>

lemma updateOffset_unfold:
  "updateOffset rx origin corr c =
     (let t1 = subTime rx origin; t2 = subTime t1 corr;
          t3 = (case delayMechanism (portDS c) of E2E \<Rightarrow> subTime t2 (meanPathDelay (currentDS c))
                | P2P \<Rightarrow> subTime t2 (peerMeanPathDelay (portDS c)) | DELAY_DISABLED \<Rightarrow> t2);
          c3 = set_offset t3 (c\<lparr>Tms := t2\<rparr>); st = portState (portDS c)
      in if seconds t3 \<noteq> 0 then (if st = PTP_SLAVE then raise_event SYNCHRONIZATION_FAULT c3 else c3)
         else let r = filter_ptp (nanoseconds t3) (ofm_filt c);
                  c4 = set_offset (t3\<lparr>nanoseconds := fst r\<rparr>) (c\<lparr>Tms := t2, ofm_filt := snd r\<rparr>)
              in if i32 \<bar>fst r\<bar> < DEFAULT_CALIBRATED_OFFSET_NS
                 then (if st = PTP_UNCALIBRATED then raise_event MASTER_CLOCK_SELECTED c4 else c4)
                 else if i32 \<bar>fst r\<bar> > DEFAULT_UNCALIBRATED_OFFSET_NS
                 then (if st = PTP_SLAVE then raise_event SYNCHRONIZATION_FAULT c4 else c4)
                 else c4)"
  by (cases "delayMechanism (portDS c)")
    (simp_all add: updateOffset_def Let_def split_beta split del: if_split cong: if_cong)

lemma updateOffset_raw:
  assumes "offset_inputs_ok rx origin corr c"
  shows "(case delayMechanism (portDS c) of
      E2E \<Rightarrow> subTime (subTime (subTime rx origin) corr) (meanPathDelay (currentDS c))
    | P2P \<Rightarrow> subTime (subTime (subTime rx origin) corr) (peerMeanPathDelay (portDS c))
    | DELAY_DISABLED \<Rightarrow> subTime (subTime rx origin) corr) = time_of_ns (raw_offset rx origin corr c)"
proof -
  have 1: "subTime rx origin = time_of_ns (total_ns rx - total_ns origin)"
    using assms by (simp add: offset_inputs_ok_def subTime_spec)
  have 2: "subTime (subTime rx origin) corr = time_of_ns (total_ns rx - total_ns origin - total_ns corr)"
    using assms unfolding 1 by (subst subTime_spec) (auto simp: offset_inputs_ok_def fits_of_ns)
  show ?thesis
    using assms unfolding 2
    by (cases "delayMechanism (portDS c)")
      (auto simp: raw_offset_def offset_inputs_ok_def fits_of_ns subTime_spec)
qed

lemma seconds_time_of_ns: "seconds (time_of_ns v) = 0 \<longleftrightarrow> \<bar>v\<bar> < 1000000000"
proof (cases "0 \<le> v")
  case True
  then show ?thesis
    using pos_imp_zdiv_nonneg_iff [of 1000000000 v] pos_imp_zdiv_pos_iff [of 1000000000 v]
    by (auto simp: time_of_ns_def sdiv_pos)
next
  case False
  then show ?thesis
    using pos_imp_zdiv_nonneg_iff [of 1000000000 "- v"] pos_imp_zdiv_pos_iff [of 1000000000 "- v"]
    by (auto simp: time_of_ns_def sdiv_pos)
qed

lemma time_of_ns_small: "\<bar>v\<bar> < 1000000000 \<Longrightarrow> time_of_ns v = \<lparr>seconds = 0, nanoseconds = v\<rparr>"
  by (auto simp: time_of_ns_def sdiv_pos smod_pos)

lemma updateOffset_exact:
  assumes "offset_inputs_ok rx origin corr c" "pass_through (ofm_filt c)"
  shows "offsetFromMaster (currentDS (updateOffset rx origin corr c)) =
      time_of_ns (raw_offset rx origin corr c)"
    "pass_through (ofm_filt (updateOffset rx origin corr c))"
proof -
  let ?D = "raw_offset rx origin corr c"
  have f: "fst (filter_ptp ?D (ofm_filt c)) = ?D" "pass_through (snd (filter_ptp ?D (ofm_filt c)))"
    if "\<bar>?D\<bar> < 1000000000" using filter_pass_through [OF assms(2), of ?D] that by auto
  show "offsetFromMaster (currentDS (updateOffset rx origin corr c)) = time_of_ns ?D"
    using f by (simp add: updateOffset_unfold updateOffset_raw [OF assms(1)] Let_def
        seconds_time_of_ns raise_event_def time_of_ns_small)
  show "pass_through (ofm_filt (updateOffset rx origin corr c))"
    using f assms(2) by (simp add: updateOffset_unfold updateOffset_raw [OF assms(1)] Let_def
        seconds_time_of_ns raise_event_def time_of_ns_small)
qed

subsection \<open>The controller\<close>

lemma clamp_drift_bound: "\<bar>clamp_drift d\<bar> \<le> ADJ_FREQ_MAX" "\<bar>d\<bar> \<le> ADJ_FREQ_MAX \<Longrightarrow> clamp_drift d = d"
  by (auto simp: clamp_drift_def ADJ_FREQ_MAX_def)

lemma adjTime_clamp: "snd (adjTime a w) = w\<lparr>clock_cmds := clock_cmds w @ [AdjFreq (clamp_drift a)]\<rparr>"
  by (simp add: adjTime_def clamp_drift_def Let_def)

lemma initClock_unfold:
  "initClock w = netEmptyEventQ ((if noAdjust (servo (ptp w)) then id
       else (\<lambda>w. w\<lparr>clock_cmds := clock_cmds w @ [AdjFreq 0]\<rparr>))
     (on_clock (\<lambda>c. c\<lparr>Tms := \<lparr>seconds = 0, nanoseconds = 0\<rparr>, observedDrift := 0,
            owd_filt := (owd_filt c)\<lparr>filt_n := 0, filt_s := i16 (trunc (sDelay (servo c)))\<rparr>,
            ofm_filt := (ofm_filt c)\<lparr>filt_n := 0, filt_s := sOffset (servo c)\<rparr>,
            waitingForFollowUp := False, waitingForPDelayRespFollowUp := False,
            pdelay_t1 := \<lparr>seconds = 0, nanoseconds = 0\<rparr>, pdelay_t2 := \<lparr>seconds = 0, nanoseconds = 0\<rparr>,
            pdelay_t3 := \<lparr>seconds = 0, nanoseconds = 0\<rparr>, pdelay_t4 := \<lparr>seconds = 0, nanoseconds = 0\<rparr>,
            parentDS := (parentDS c)\<lparr>parentStats := False, observedParentClockPhaseChangeRate := 0,
              observedParentOffsetScaledLogVariance := 0\<rparr>\<rparr>) w))"
  unfolding initClock_def Let_def
  by (simp add: DEFAULT_PARENTS_STATS_def on_clock_def adjTime_clamp clamp_drift_def ADJ_FREQ_MAX_def)

lemma netEmptyEventQ_frame [simp]:
  "ptp (netEmptyEventQ w) = (ptp w)\<lparr>netPath := (netPath (ptp w))
     \<lparr>eventQ := fst (netQEmpty (eventQ (netPath (ptp w))))\<rparr>\<rparr>"
  "timers (netEmptyEventQ w) = timers w" "env (netEmptyEventQ w) = env w"
  "tick (netEmptyEventQ w) = tick w" "pcbs (netEmptyEventQ w) = pcbs w"
  "sent (netEmptyEventQ w) = sent w" "clock_cmds (netEmptyEventQ w) = clock_cmds w"
  "next_pcb (netEmptyEventQ w) = next_pcb w"
  "freed (netEmptyEventQ w) = freed w @ snd (netQEmpty (eventQ (netPath (ptp w))))"
  by (simp_all add: netEmptyEventQ_def on_net_def on_clock_def Let_def split_beta)

lemma initClock_frame [simp]:
  "timers (initClock w) = timers w" "env (initClock w) = env w" "tick (initClock w) = tick w"
  "pcbs (initClock w) = pcbs w" "sent (initClock w) = sent w" "next_pcb (initClock w) = next_pcb w"
  "portDS (ptp (initClock w)) = portDS (ptp w)" "defaultDS (ptp (initClock w)) = defaultDS (ptp w)"
  "currentDS (ptp (initClock w)) = currentDS (ptp w)"
  "foreignMasterDS (ptp (initClock w)) = foreignMasterDS (ptp w)"
  "recommendedState (ptp (initClock w)) = recommendedState (ptp w)"
  "events (ptp (initClock w)) = events (ptp w)" "servo (ptp (initClock w)) = servo (ptp w)"
  "rtOpts (ptp (initClock w)) = rtOpts (ptp w)" "msgObuf (ptp (initClock w)) = msgObuf (ptp w)"
  "msgIbuf (ptp (initClock w)) = msgIbuf (ptp w)"
  "messageActivity (ptp (initClock w)) = messageActivity (ptp w)"
  "observedDrift (ptp (initClock w)) = 0"
  by (simp_all add: initClock_unfold)

lemma initClock_cmds:
  "clock_cmds (initClock w) = clock_cmds w @ (if noAdjust (servo (ptp w)) then [] else [AdjFreq 0])"
  by (simp add: initClock_unfold)

definition cmds_ok :: "world \<Rightarrow> bool" where
  "cmds_ok w \<longleftrightarrow> list_all cmd_ok (clock_cmds w)"

definition drift_ok :: "world \<Rightarrow> bool" where
  "drift_ok w \<longleftrightarrow> \<bar>observedDrift (ptp w)\<bar> \<le> ADJ_FREQ_MAX"

lemma initClock_safe:
  "cmds_ok w \<Longrightarrow> cmds_ok (initClock w)" "drift_ok (initClock w)"
  by (simp_all add: cmds_ok_def drift_ok_def initClock_cmds cmd_ok_def ADJ_FREQ_MAX_def)

lemma updateClock_safe:
  assumes "cmds_ok w" "drift_ok w"
  shows "cmds_ok (updateClock w)" "drift_ok (updateClock w)"
proof -
  have "cmds_ok (updateClock_far w)"
    using assms by (simp add: cmds_ok_def updateClock_far_def Let_def split_beta adjTime_clamp
        initClock_cmds setTime_def cmd_ok_def clamp_drift_bound ADJ_FREQ_MAX_def)
  moreover have "drift_ok (updateClock_far w)"
    using assms by (simp add: drift_ok_def updateClock_far_def Let_def split_beta adjTime_clamp
        ADJ_FREQ_MAX_def)
  moreover have "cmds_ok (updateClock_pi w)" "drift_ok (updateClock_pi w)"
    using assms by (simp_all add: cmds_ok_def drift_ok_def updateClock_pi_def Let_def adjTime_clamp
        DEFAULT_PARENTS_STATS_def cmd_ok_def clamp_drift_bound)
  ultimately show "cmds_ok (updateClock w)" "drift_ok (updateClock w)"
    by (simp_all add: updateClock_def Let_def)
qed

text \<open>The command of the PI controller, with the gains the daemon runs with.\<close>

lemma updateClock_pi_exact:
  assumes off: "offsetFromMaster (currentDS (ptp w)) = \<lparr>seconds = 0, nanoseconds = ns\<rparr>"
    and ns: "\<bar>ns\<bar> < 2 ^ 24"
    and cfg: "logSyncInterval (portDS (ptp w)) = 0" "servo_ap (servo (ptp w)) = 1"
      "servo_ai (servo (ptp w)) = 1" "\<not> noAdjust (servo (ptp w))"
    and d: "drift_ok w"
  shows "updateClock w = w\<lparr>ptp := (ptp w)\<lparr>observedDrift := clamp_drift (observedDrift (ptp w) + ns)\<rparr>,
    clock_cmds := clock_cmds w @
      [AdjFreq (clamp_drift (- (ns + clamp_drift (observedDrift (ptp w) + ns))))]\<rparr>"
proof -
  have near: "\<not> i32 \<bar>ns\<bar> > MAX_ADJ_OFFSET_NS" using ns by (simp add: MAX_ADJ_OFFSET_NS_def)
  have g: "float_gain ns 1 = ns" using ns by (rule float_gain_1)
  have i: "i32 (observedDrift (ptp w) + ns) = observedDrift (ptp w) + ns"
    using ns d by (auto intro!: i32_exact simp: drift_ok_def ADJ_FREQ_MAX_def)
  have "\<bar>ns + clamp_drift (observedDrift (ptp w) + ns)\<bar> \<le> 2147483647"
    using ns clamp_drift_bound(1) [of "observedDrift (ptp w) + ns"] by (simp add: ADJ_FREQ_MAX_def)
  then have j: "i32 (ns + clamp_drift (observedDrift (ptp w) + ns)) =
      ns + clamp_drift (observedDrift (ptp w) + ns)"
    "i32 (- (ns + clamp_drift (observedDrift (ptp w) + ns))) =
      - (ns + clamp_drift (observedDrift (ptp w) + ns))" by (simp_all only: i32_small abs_minus)
  show ?thesis
    using near
    by (simp add: updateClock_def updateClock_pi_def Let_def off offset_norm_def cfg g i j
        adjTime_clamp DEFAULT_PARENTS_STATS_def on_clock_def del: minus_add_distrib)
qed

subsection \<open>What the servo leaves alone\<close>

lemma set_servo_frame [simp]:
  "portDS (updateOffset a b d c) = portDS c" "defaultDS (updateOffset a b d c) = defaultDS c"
  "recommendedState (updateOffset a b d c) = recommendedState c"
  "foreignMasterDS (updateOffset a b d c) = foreignMasterDS c"
  "msgObuf (updateOffset a b d c) = msgObuf c" "netPath (updateOffset a b d c) = netPath c"
  "servo (updateOffset a b d c) = servo c" "rtOpts (updateOffset a b d c) = rtOpts c"
  "observedDrift (updateOffset a b d c) = observedDrift c"
  by (simp_all add: updateOffset_unfold Let_def set_offset_def raise_event_def)

lemma updateDelay_frame [simp]:
  "portDS (updateDelay a b d c) = portDS c" "defaultDS (updateDelay a b d c) = defaultDS c"
  "recommendedState (updateDelay a b d c) = recommendedState c"
  "foreignMasterDS (updateDelay a b d c) = foreignMasterDS c"
  "msgObuf (updateDelay a b d c) = msgObuf c" "netPath (updateDelay a b d c) = netPath c"
  "servo (updateDelay a b d c) = servo c" "rtOpts (updateDelay a b d c) = rtOpts c"
  "observedDrift (updateDelay a b d c) = observedDrift c"
  unfolding updateDelay_def Let_def by (simp_all add: set_meanPathDelay_def split_beta)

lemma updatePeerDelay_frame [simp]:
  "\<exists>t. portDS (updatePeerDelay a b c) = (portDS c)\<lparr>peerMeanPathDelay := t\<rparr>"
  "defaultDS (updatePeerDelay a b c) = defaultDS c"
  "recommendedState (updatePeerDelay a b c) = recommendedState c"
  "foreignMasterDS (updatePeerDelay a b c) = foreignMasterDS c"
  "msgObuf (updatePeerDelay a b c) = msgObuf c" "netPath (updatePeerDelay a b c) = netPath c"
  "servo (updatePeerDelay a b c) = servo c" "rtOpts (updatePeerDelay a b c) = rtOpts c"
  "observedDrift (updatePeerDelay a b c) = observedDrift c"
  unfolding updatePeerDelay_def Let_def by (auto simp: set_peerDelay_def split_beta)

section \<open>The path delay measurements\<close>

lemma subTime_total:
  assumes "fits x" "fits y" "\<bar>total_ns x - total_ns y\<bar> \<le> 1073741822000000000"
  shows "subTime x y = time_of_ns (total_ns x - total_ns y)" "fits (subTime x y)"
  using subTime_spec [OF assms(1,2)] fits_of_ns [OF assms(3)] by simp_all

lemma addTime_total:
  assumes "fits x" "fits y" "\<bar>total_ns x + total_ns y\<bar> \<le> 1073741822000000000"
  shows "addTime x y = time_of_ns (total_ns x + total_ns y)" "fits (addTime x y)"
  using addTime_spec [OF assms(1,2)] fits_of_ns [OF assms(3)] by simp_all

lemma half_of_ns:
  assumes "\<bar>v\<bar> \<le> 1073741822000000000"
  shows "div2Time (time_of_ns v) = time_of_ns (v sdiv 2)"
  using div2Time_spec [OF normalized_of_ns fits_of_ns [OF assms]] by simp

text \<open>The round trip, halved, goes through the one-way delay filter unless it is a second or more.\<close>

definition filtered :: "int \<Rightarrow> Filter \<Rightarrow> TimeInternal" where
  "filtered d filt = (if \<bar>d\<bar> < 1000000000 then \<lparr>seconds = 0, nanoseconds = fst (filter_ptp d filt)\<rparr>
     else time_of_ns d)"

lemma filtered_time:
  "(if seconds (time_of_ns d) \<noteq> 0 then time_of_ns d
    else (time_of_ns d)\<lparr>nanoseconds := fst (filter_ptp (nanoseconds (time_of_ns d)) filt)\<rparr>) = filtered d filt"
  by (auto simp: filtered_def seconds_time_of_ns time_of_ns_small)

lemma updateDelay_exact:
  assumes "filt_n (ofm_filt c) \<noteq> 0" "fits tx" "fits rx" "fits corr" "fits (Tms c)"
    and "\<bar>total_ns rx - total_ns tx\<bar> \<le> 1073741822000000000"
    and "\<bar>total_ns rx - total_ns tx - total_ns corr\<bar> \<le> 1073741822000000000"
    and "\<bar>total_ns (Tms c) + (total_ns rx - total_ns tx - total_ns corr)\<bar> \<le> 1073741822000000000"
  shows "meanPathDelay (currentDS (updateDelay tx rx corr c)) =
    filtered ((total_ns (Tms c) + (total_ns rx - total_ns tx - total_ns corr)) sdiv 2) (owd_filt c)"
proof -
  note a = subTime_total [OF assms(3,2,6)]
  have b: "subTime (subTime rx tx) corr = time_of_ns (total_ns rx - total_ns tx - total_ns corr)"
    "fits (subTime (subTime rx tx) corr)"
    using subTime_total [OF a(2) assms(4)] assms(7) by (simp_all add: a(1))
  have d: "addTime (Tms c) (subTime (subTime rx tx) corr) =
      time_of_ns (total_ns (Tms c) + (total_ns rx - total_ns tx - total_ns corr))"
    using addTime_total(1) [OF assms(5) b(2)] assms(8) by (simp add: b(1))
  show ?thesis
    unfolding updateDelay_def Let_def filtered_time [symmetric]
    using assms(1) by (simp add: set_meanPathDelay_def d half_of_ns [OF assms(8)] split_beta)
qed

lemma updateOffset_Tms:
  assumes "offset_inputs_ok rx origin corr c"
  shows "Tms (updateOffset rx origin corr c) = time_of_ns (total_ns rx - total_ns origin - total_ns corr)"
proof -
  have "subTime (subTime rx origin) corr = time_of_ns (total_ns rx - total_ns origin - total_ns corr)"
    using subTime_total [of rx origin] subTime_total(1) [of "subTime rx origin" corr] assms
    by (simp add: offset_inputs_ok_def)
  then show ?thesis
    unfolding updateOffset_unfold Let_def by (simp add: raise_event_def)
qed

lemma updateOffset_filters:
  "owd_filt (updateOffset rx origin corr c) = owd_filt c"
  "meanPathDelay (currentDS (updateOffset rx origin corr c)) = meanPathDelay (currentDS c)"
  unfolding updateOffset_unfold Let_def by (simp_all add: raise_event_def set_offset_def)

lemma filter_pass_counts:
  assumes "pass_through filt" "\<bar>v\<bar> \<le> 2147483647"
  shows "filt_n (snd (filter_ptp v filt)) = 1"
proof -
  obtain y where "filter_order v filt = (0, filt\<lparr>filt_n := 1, y_prev := y, y_sum := y, s_prev := 0\<rparr>)"
    by (rule filter_order_pass [OF assms])
  from filter_ptp_order0 [OF this] show ?thesis by simp
qed

section \<open>Properties\<close>

definition sample_clock :: PtpClock where
  "sample_clock = zero_clock\<lparr>portDS := (portDS zero_clock)\<lparr>delayMechanism := E2E, portState := PTP_UNCALIBRATED\<rparr>,
     owd_filt := zero_filter\<lparr>filt_s := 6\<rparr>, servo := zero_servo\<lparr>servo_ap := 1, servo_ai := 1\<rparr>\<rparr>"

lemmas sample_clock_simps = sample_clock_def zero_clock_def zero_filter_def zero_servo_def zero_time_def

text \<open>
  The two-way exchange on a symmetric path, from the first offset to the second: \<open>u\<close> is the clock between them, which
  may differ from \<open>c1\<close> in what \<open>updateClock\<close> steers.
\<close>

lemma symmetric_exchange:
  assumes c1: "c1 = updateOffset rx1 origin1 corr1 c" "offset_inputs_ok rx1 origin1 corr1 c"
    and steer: "Tms u = Tms c1" "ofm_filt u = ofm_filt c1" "owd_filt u = owd_filt c1" "portDS u = portDS c1"
    and c2: "c2 = updateDelay tx rx corr u" "fits tx" "fits rx" "fits corr"
      "\<bar>total_ns rx - total_ns tx\<bar> \<le> 1073741822000000000"
      "\<bar>total_ns rx - total_ns tx - total_ns corr\<bar> \<le> 1073741822000000000"
    and c3: "c3 = updateOffset rx2 origin2 corr2 c2" "offset_inputs_ok rx2 origin2 corr2 c2"
    and path: "total_ns rx1 - total_ns origin1 - total_ns corr1 = Off + D"
      "total_ns rx - total_ns tx - total_ns corr = D - Off"
      "total_ns rx2 - total_ns origin2 - total_ns corr2 = Off + D"
    and D: "\<bar>D\<bar> < 1000000000" "\<bar>Off + D - total_ns (meanPathDelay (currentDS c))\<bar> < 1000000000"
    and cfg: "delayMechanism (portDS c) = E2E" "pass_through (ofm_filt c)" "filt_ok (owd_filt c)"
      "filt_n (owd_filt c) = 0 \<or> settled D (owd_filt c)"
  shows "meanPathDelay (currentDS c2) = \<lparr>seconds = 0, nanoseconds = D\<rparr> \<and>
    offsetFromMaster (currentDS c3) = time_of_ns Off"
proof -
  have raw: "raw_offset rx1 origin1 corr1 c = Off + D - total_ns (meanPathDelay (currentDS c))"
    by (simp add: raw_offset_def cfg(1) path(1))
  have n1: "filt_n (ofm_filt c1) \<noteq> 0"
    unfolding c1(1) updateOffset_unfold Let_def updateOffset_raw [OF c1(2)] raw
    using D(2) filter_pass_counts [OF cfg(2), of "Off + D - total_ns (meanPathDelay (currentDS c))"]
    by (auto simp: time_of_ns_small raise_event_def)
  have Tms: "Tms c1 = time_of_ns (Off + D)" "fits (Tms c1)"
    using updateOffset_Tms [OF c1(2)] c1(2) fits_of_ns [of "Off + D"]
    by (simp_all add: c1(1) path(1) offset_inputs_ok_def)
  have sum: "total_ns (Tms c1) + (total_ns rx - total_ns tx - total_ns corr) = 2 * D"
    by (simp add: Tms(1) path(2))
  have owd: "owd_filt u = owd_filt c" by (simp add: steer c1(1) updateOffset_filters)
  have half: "2 * D sdiv 2 = D" by (simp add: sdiv_pos) presburger
  have "fst (filter_ptp D (owd_filt c)) = D"
    using filter_fixpoint(1) [OF cfg(3) _ cfg(4)] D(1) by simp
  then have mpd: "meanPathDelay (currentDS c2) = \<lparr>seconds = 0, nanoseconds = D\<rparr>"
    using updateDelay_exact [OF n1 [folded steer(2)] c2(2,3,4) Tms(2) [folded steer(1)] c2(5,6)] D(1)
    by (simp add: c2(1) steer(1) sum half owd filtered_def)
  have c2': "ofm_filt c2 = ofm_filt c1" "portDS c2 = portDS c1" "portDS c1 = portDS c"
    by (simp_all add: c2(1) steer c1(1) updateDelay_def set_meanPathDelay_def Let_def split_beta)
  have "raw_offset rx2 origin2 corr2 c2 = Off"
    using path(3) by (simp add: raw_offset_def c2' cfg(1) mpd total_ns_def)
  then show ?thesis
    using updateOffset_exact(1) [OF c3(2)] updateOffset_exact(2) [OF c1(2) cfg(2)] mpd
    by (simp add: c3(1) c2' c1(1))
qed

text \<open>
  The filter of \<open>servo.c\<close> has no bias: fed with the value it is settled on, or
  with its first value after a reset, it returns that value and stays settled, for every
  stiffness up to 30 and every 32-bit value but the least.
\<close>

theorem filter_has_no_bias:
  assumes "filt_ok filt" "\<bar>v\<bar> \<le> 2147483647" "filt_n filt = 0 \<or> settled v filt"
  shows "fst (filter_ptp v filt) = v \<and> settled v (snd (filter_ptp v filt)) \<and>
    filt_ok (snd (filter_ptp v filt)) \<and> filt_s (snd (filter_ptp v filt)) = filt_s filt"
  using filter_fixpoint [OF assms] by simp

theorem filter_has_no_bias_witness:
  "fst (filter_ptp (-2147483647) \<lparr>y_prev = 3, y_sum = 9, filt_s = 6, s_prev = 2, filt_n = 0\<rparr>) = -2147483647"
  using filter_has_no_bias [of "\<lparr>y_prev = 3, y_sum = 9, filt_s = 6, s_prev = 2, filt_n = 0\<rparr>" "-2147483647"]
  by (simp add: filt_ok_def)

text \<open>
  C22 (functional).  With the gains of 1 that \<open>ptpdStartup\<close> enforces and the default sync interval,
  \<open>updateClock\<close> on an offset below \<open>2 ^ 24\<close> ns is an exact PI controller, single precision
  arithmetic and all: the integral accumulates the offset, both the integral and the frequency
  adjustment saturate at \<open>ADJ_FREQ_MAX\<close>, and one adjustment goes to the hardware.
\<close>

theorem updateClock_is_pi_controller:
  assumes "offsetFromMaster (currentDS (ptp w)) = \<lparr>seconds = 0, nanoseconds = ns\<rparr>" "\<bar>ns\<bar> < 2 ^ 24"
    and "logSyncInterval (portDS (ptp w)) = 0" "servo_ap (servo (ptp w)) = 1" "servo_ai (servo (ptp w)) = 1"
    and "\<not> noAdjust (servo (ptp w))" "drift_ok w"
  shows "observedDrift (ptp (updateClock w)) = clamp_drift (observedDrift (ptp w) + ns) \<and>
    clock_cmds (updateClock w) = clock_cmds w @
      [AdjFreq (clamp_drift (- (ns + clamp_drift (observedDrift (ptp w) + ns))))]"
  using updateClock_pi_exact [OF assms] by simp

theorem updateClock_is_pi_controller_witness:
  "clock_cmds (updateClock ((boot_world calm_env)\<lparr>ptp := sample_clock\<lparr>currentDS :=
     (currentDS sample_clock)\<lparr>offsetFromMaster := \<lparr>seconds = 0, nanoseconds = 1200\<rparr>\<rparr>\<rparr>\<rparr>)) = [AdjFreq (-2400)]"
  using updateClock_is_pi_controller [of "(boot_world calm_env)\<lparr>ptp := sample_clock\<lparr>currentDS :=
     (currentDS sample_clock)\<lparr>offsetFromMaster := \<lparr>seconds = 0, nanoseconds = 1200\<rparr>\<rparr>\<rparr>\<rparr>" 1200]
  by (simp add: sample_clock_simps boot_world_def drift_ok_def clamp_drift_def ADJ_FREQ_MAX_def)

end
