(* ===== verification/Timer.thy ===== *)
theory Timer
  imports World
begin

text \<open>
  The timers of the daemon, \<open>dep/timer.c\<close>: six periodic RTOS timers and their expired flags.
  A timer callback sets its flag and wakes the daemon; \<open>timerExpired\<close> reads and clears it.
  The RTOS itself (when a running timer fires) is not under \<open>src/\<close>'s own code: a callback is an
  event of the step relation of theory \<open>ProtocolInv\<close>, possible while the timer runs.
\<close>

definition PTP_TIMER_NEW :: ptp_timer where
  "PTP_TIMER_NEW = \<lparr>t_created = True, t_period = None, t_expired = False\<rparr>"

definition set_timer :: "nat \<Rightarrow> (ptp_timer \<Rightarrow> ptp_timer) \<Rightarrow> world \<Rightarrow> world" where
  "set_timer k f w = w\<lparr>timers := (timers w)[k := f (timers w ! k)]\<rparr>"

definition timerCallback :: "nat \<Rightarrow> world \<Rightarrow> world" where
  "timerCallback index w =
     (if index < TIMER_ARRAY_SIZE then
        (let w = set_timer index (\<lambda>t. t\<lparr>t_expired := True\<rparr>) w
         in w\<lparr>alerts := Suc (alerts w)\<rparr>)
      else w)"

definition initTimer :: "world \<Rightarrow> world" where
  "initTimer w = fold (\<lambda>i. set_timer i (\<lambda>_. PTP_TIMER_NEW)) [0..<TIMER_ARRAY_SIZE] w"

definition timerStop :: "nat \<Rightarrow> world \<Rightarrow> world" where
  "timerStop index w =
     (if index \<ge> TIMER_ARRAY_SIZE then w
      else set_timer index (\<lambda>t. t\<lparr>t_period := None, t_expired := False\<rparr>) w)"

definition timerStart :: "nat \<Rightarrow> int \<Rightarrow> world \<Rightarrow> world" where
  "timerStart index interval_ms w =
     (if index \<ge> TIMER_ARRAY_SIZE then w
      else set_timer index (\<lambda>t. t\<lparr>t_expired := False, t_period := Some (u32 interval_ms)\<rparr>) w)"

definition timerExpired :: "nat \<Rightarrow> world \<Rightarrow> bool \<times> world" where
  "timerExpired index w =
     (if index \<ge> TIMER_ARRAY_SIZE then (False, w)
      else if \<not> t_expired (timers w ! index) then (False, w)
      else (True, set_timer index (\<lambda>t. t\<lparr>t_expired := False\<rparr>) w))"

section \<open>Lemmas\<close>

text \<open>The timers that run, and those whose expiry is pending.\<close>

definition timers_good :: "world \<Rightarrow> bool" where
  "timers_good w \<longleftrightarrow> length (timers w) = TIMER_ARRAY_SIZE"

definition running :: "nat \<Rightarrow> world \<Rightarrow> bool" where
  "running k w \<longleftrightarrow> t_period (timers w ! k) \<noteq> None"

definition expired :: "nat \<Rightarrow> world \<Rightarrow> bool" where
  "expired k w \<longleftrightarrow> t_expired (timers w ! k)"

lemmas timer_defs = timerStop_def timerStart_def timerExpired_def timerCallback_def set_timer_def

lemma set_timer_simps [simp]:
  "ptp (set_timer k f w) = ptp w" "env (set_timer k f w) = env w" "tick (set_timer k f w) = tick w"
  "pcbs (set_timer k f w) = pcbs w" "sent (set_timer k f w) = sent w"
  "freed (set_timer k f w) = freed w" "clock_cmds (set_timer k f w) = clock_cmds w"
  "alerts (set_timer k f w) = alerts w" "div_by_zero (set_timer k f w) = div_by_zero w"
  "wild_read (set_timer k f w) = wild_read w" "next_pcb (set_timer k f w) = next_pcb w"
  "length (timers (set_timer k f w)) = length (timers w)"
  by (simp_all add: set_timer_def)

lemma timer_frame [simp]:
  "ptp (timerStop k w) = ptp w" "ptp (timerStart k ms w) = ptp w"
  "ptp (snd (timerExpired k w)) = ptp w" "ptp (timerCallback k w) = ptp w"
  "env (timerStop k w) = env w" "env (timerStart k ms w) = env w"
  "env (snd (timerExpired k w)) = env w" "env (timerCallback k w) = env w"
  "sent (timerStop k w) = sent w" "sent (timerStart k ms w) = sent w"
  "sent (snd (timerExpired k w)) = sent w" "sent (timerCallback k w) = sent w"
  "freed (timerStop k w) = freed w" "freed (timerStart k ms w) = freed w"
  "freed (snd (timerExpired k w)) = freed w" "freed (timerCallback k w) = freed w"
  "pcbs (timerStop k w) = pcbs w" "pcbs (timerStart k ms w) = pcbs w"
  "pcbs (snd (timerExpired k w)) = pcbs w" "pcbs (timerCallback k w) = pcbs w"
  "clock_cmds (timerStop k w) = clock_cmds w" "clock_cmds (timerStart k ms w) = clock_cmds w"
  "clock_cmds (snd (timerExpired k w)) = clock_cmds w"
  "clock_cmds (timerCallback k w) = clock_cmds w"
  "timers_good (timerStop k w) = timers_good w" "timers_good (timerStart k ms w) = timers_good w"
  "timers_good (snd (timerExpired k w)) = timers_good w"
  "timers_good (timerCallback k w) = timers_good w"
  by (simp_all add: timer_defs timers_good_def)

lemma fold_set_timer_simps:
  "ptp (fold (\<lambda>i. set_timer i f) ks w) = ptp w" "env (fold (\<lambda>i. set_timer i f) ks w) = env w"
  "sent (fold (\<lambda>i. set_timer i f) ks w) = sent w" "freed (fold (\<lambda>i. set_timer i f) ks w) = freed w"
  "pcbs (fold (\<lambda>i. set_timer i f) ks w) = pcbs w"
  "clock_cmds (fold (\<lambda>i. set_timer i f) ks w) = clock_cmds w"
  "timers_good (fold (\<lambda>i. set_timer i f) ks w) = timers_good w"
  by (induction ks arbitrary: w) (simp_all add: timers_good_def)

lemma initTimer_frame [simp]:
  "ptp (initTimer w) = ptp w" "env (initTimer w) = env w" "sent (initTimer w) = sent w"
  "freed (initTimer w) = freed w" "pcbs (initTimer w) = pcbs w"
  "clock_cmds (initTimer w) = clock_cmds w" "timers_good (initTimer w) = timers_good w"
  by (simp_all add: initTimer_def fold_set_timer_simps)

lemma initTimer_timers:
  assumes "timers_good w"
  shows "timers (initTimer w) = replicate TIMER_ARRAY_SIZE PTP_TIMER_NEW"
proof -
  obtain a b c d e f where "timers w = [a, b, c, d, e, f]"
    using assms by (auto simp: timers_good_def TIMER_ARRAY_SIZE_def numeral_eq_Suc length_Suc_conv)
  then show ?thesis
    by (simp add: initTimer_def TIMER_ARRAY_SIZE_def set_timer_def upt_rec numeral_eq_Suc)
qed

text \<open>The effect of each operation on the running and the expired timers.\<close>

lemma timer_effects:
  assumes "timers_good w" "j < TIMER_ARRAY_SIZE" "k < TIMER_ARRAY_SIZE"
  shows "running j (timerStop k w) \<longleftrightarrow> j \<noteq> k \<and> running j w"
    "expired j (timerStop k w) \<longleftrightarrow> j \<noteq> k \<and> expired j w"
    "running j (timerStart k ms w) \<longleftrightarrow> j = k \<or> running j w"
    "expired j (timerStart k ms w) \<longleftrightarrow> j \<noteq> k \<and> expired j w"
    "running j (snd (timerExpired k w)) \<longleftrightarrow> running j w"
    "expired j (snd (timerExpired k w)) \<longleftrightarrow> j \<noteq> k \<and> expired j w"
    "fst (timerExpired k w) \<longleftrightarrow> expired k w"
    "running j (timerCallback k w) \<longleftrightarrow> running j w"
    "expired j (timerCallback k w) \<longleftrightarrow> j = k \<or> expired j w"
  using assms by (auto simp: timer_defs running_def expired_def timers_good_def nth_list_update)

lemma initTimer_effects:
  assumes "timers_good w" "j < TIMER_ARRAY_SIZE"
  shows "\<not> running j (initTimer w)" "\<not> expired j (initTimer w)"
  using assms by (simp_all add: running_def expired_def initTimer_timers PTP_TIMER_NEW_def)

lemma timer_view:
  "timers w = timers w' \<Longrightarrow> running k w = running k w' \<and> expired k w = expired k w' \<and>
     timers_good w = timers_good w'"
  by (simp add: running_def expired_def timers_good_def)

end
