(* ===== verification/Msg.thy ===== *)
theory Msg
  imports World Buffer
begin

text \<open>
  The message codec, \<open>dep/msg.c\<close>: one \<open>msgPack\<close> and one \<open>msgUnpack\<close> function per message
  kind, each a sequence of stores into, or loads from, the packet buffer at the byte offsets
  of the PTP message tables.  Every \<open>msgPack\<close> overwrites the parts of the outgoing buffer it
  owns and leaves the header bytes that \<open>msgPackHeader\<close> stored once at start-up; the
  predicate \<open>packed_header\<close> says that they are there, and the round-trip lemmas state what
  the receiver's \<open>msgUnpack\<close> functions read from such a buffer.
\<close>

section \<open>Unpacking\<close>

definition msgUnpackHeader :: "octet list \<Rightarrow> MsgHeader" where
  "msgUnpackHeader buf = \<lparr>
     h_transportSpecific = peek8 buf 0 div 2 ^ 4,
     messageType = peek8 buf 0 AND 0x0F,
     versionPTP = peek8 buf 1 AND 0x0F,
     messageLength = i16 (flip16 (peek16 buf 2)),
     h_domainNumber = peek8 buf 4,
     flagField = peek_list buf 6 2,
     correctionfield = i64 (i64 (flip32 (peek32 buf 8) * 2 ^ 32) + flip32 (peek32 buf 12)),
     sourcePortIdentity = \<lparr>clockIdentity = peek_list buf 20 CLOCK_IDENTITY_LENGTH,
       portNumber = i16 (flip16 (peek16 buf 28))\<rparr>,
     sequenceId = i16 (flip16 (peek16 buf 30)),
     controlField = peek8 buf 32,
     logMessageInterval = i8 (peek8 buf 33)\<rparr>"

definition unpackTimestamp :: "octet list \<Rightarrow> Timestamp" where
  "unpackTimestamp buf = \<lparr>
     secondsField = \<lparr>u48_lsb = flip32 (peek32 buf 36), u48_msb = flip16 (peek16 buf 34)\<rparr>,
     nanosecondsField = flip32 (peek32 buf 40)\<rparr>"

definition unpackRequestingPort :: "octet list \<Rightarrow> PortIdentity" where
  "unpackRequestingPort buf = \<lparr>clockIdentity = peek_list buf 44 CLOCK_IDENTITY_LENGTH,
     portNumber = i16 (flip16 (peek16 buf 52))\<rparr>"

definition msgUnpackAnnounce :: "octet list \<Rightarrow> MsgAnnounce" where
  "msgUnpackAnnounce buf = \<lparr>
     a_originTimestamp = unpackTimestamp buf,
     a_currentUtcOffset = i16 (flip16 (peek16 buf 44)),
     a_grandmasterPriority1 = peek8 buf 47,
     a_grandmasterClockQuality = \<lparr>clockClass = peek8 buf 48, clockAccuracy = peek8 buf 49,
       offsetScaledLogVariance = i16 (flip16 (peek16 buf 50))\<rparr>,
     a_grandmasterPriority2 = peek8 buf 52,
     a_grandmasterIdentity = peek_list buf 53 CLOCK_IDENTITY_LENGTH,
     a_stepsRemoved = i16 (flip16 (peek16 buf 61)),
     a_timeSource = peek8 buf 63\<rparr>"

definition msgUnpackSync :: "octet list \<Rightarrow> MsgSync" where
  "msgUnpackSync buf = \<lparr>sync_originTimestamp = unpackTimestamp buf\<rparr>"

definition msgUnpackDelayReq :: "octet list \<Rightarrow> MsgDelayReq" where
  "msgUnpackDelayReq buf = \<lparr>delayReq_originTimestamp = unpackTimestamp buf\<rparr>"

definition msgUnpackFollowUp :: "octet list \<Rightarrow> MsgFollowUp" where
  "msgUnpackFollowUp buf = \<lparr>preciseOriginTimestamp = unpackTimestamp buf\<rparr>"

definition msgUnpackDelayResp :: "octet list \<Rightarrow> MsgDelayResp" where
  "msgUnpackDelayResp buf = \<lparr>receiveTimestamp = unpackTimestamp buf,
     resp_requestingPortIdentity = unpackRequestingPort buf\<rparr>"

definition msgUnpackPDelayReq :: "octet list \<Rightarrow> MsgPDelayReq" where
  "msgUnpackPDelayReq buf = \<lparr>pdelayReq_originTimestamp = unpackTimestamp buf\<rparr>"

definition msgUnpackPDelayResp :: "octet list \<Rightarrow> MsgPDelayResp" where
  "msgUnpackPDelayResp buf = \<lparr>requestReceiptTimestamp = unpackTimestamp buf,
     presp_requestingPortIdentity = unpackRequestingPort buf\<rparr>"

definition msgUnpackPDelayRespFollowUp :: "octet list \<Rightarrow> MsgPDelayRespFollowUp" where
  "msgUnpackPDelayRespFollowUp buf = \<lparr>responseOriginTimestamp = unpackTimestamp buf,
     prespfollow_requestingPortIdentity = unpackRequestingPort buf\<rparr>"

section \<open>Packing\<close>

definition msgPackHeader :: "PtpClock \<Rightarrow> octet list \<Rightarrow> octet list" where
  "msgPackHeader ptpClock buf =
     (let transport = u8 (of_bool (d_transportSpecific (defaultDS ptpClock)) * 2 ^ 4);
          buf = poke8 buf 0 transport;
          buf = poke8 buf 1 (versionNumber (portDS ptpClock));
          buf = poke8 buf 4 (d_domainNumber (defaultDS ptpClock));
          buf = (if twoStepFlag (defaultDS ptpClock) then poke8 buf 6 FLAG0_TWO_STEP else buf);
          buf = memset buf 8 0 8;
          buf = poke_list buf 20
                  (take CLOCK_IDENTITY_LENGTH (clockIdentity (portIdentity (portDS ptpClock))));
          buf = poke16 buf 28 (flip16 (portNumber (portIdentity (portDS ptpClock))))
      in poke8 buf 33 0x7F)"

definition packType :: "octet list \<Rightarrow> int \<Rightarrow> octet list" where
  "packType buf t =
     (let buf = poke8 buf 0 (peek8 buf 0 AND 0xF0) in poke8 buf 0 (peek8 buf 0 OR t))"

definition packTimestamp :: "octet list \<Rightarrow> Timestamp \<Rightarrow> octet list" where
  "packTimestamp buf ts =
     (let buf = poke16 buf 34 (flip16 (u48_msb (secondsField ts)));
          buf = poke32 buf 36 (flip32 (u48_lsb (secondsField ts)))
      in poke32 buf 40 (flip32 (nanosecondsField ts)))"

definition packRequestingPort :: "octet list \<Rightarrow> MsgHeader \<Rightarrow> octet list" where
  "packRequestingPort buf header =
     (let buf = poke_list buf 44
                  (take CLOCK_IDENTITY_LENGTH (clockIdentity (sourcePortIdentity header)))
      in poke16 buf 52 (flip16 (portNumber (sourcePortIdentity header))))"

definition packCorrection :: "octet list \<Rightarrow> MsgHeader \<Rightarrow> octet list" where
  "packCorrection buf header =
     (let buf = poke32 buf 8 (flip32 (correctionfield header div 2 ^ 32))
      in poke32 buf 12 (flip32 (i32 (correctionfield header))))"

definition msgPackAnnounce :: "PtpClock \<Rightarrow> octet list \<Rightarrow> octet list" where
  "msgPackAnnounce ptpClock buf =
     (let buf = packType buf ANNOUNCE;
          buf = poke16 buf 2 (flip16 (int ANNOUNCE_LENGTH));
          buf = poke16 buf 30 (flip16 (sentAnnounceSequenceId ptpClock));
          buf = poke8 buf 32 CTRL_OTHER;
          buf = poke8 buf 33 (logAnnounceInterval (portDS ptpClock));
          buf = memset buf 34 0 10;
          buf = poke16 buf 44 (flip16 (t_currentUtcOffset (timePropertiesDS ptpClock)));
          buf = poke8 buf 47 (p_grandmasterPriority1 (parentDS ptpClock));
          buf = poke8 buf 48 (clockClass (d_clockQuality (defaultDS ptpClock)));
          buf = poke8 buf 49 (clockAccuracy (d_clockQuality (defaultDS ptpClock)));
          buf = poke16 buf 50
                  (flip16 (offsetScaledLogVariance (d_clockQuality (defaultDS ptpClock))));
          buf = poke8 buf 52 (p_grandmasterPriority2 (parentDS ptpClock));
          buf = poke_list buf 53
                  (take CLOCK_IDENTITY_LENGTH (p_grandmasterIdentity (parentDS ptpClock)));
          buf = poke16 buf 61 (flip16 (c_stepsRemoved (currentDS ptpClock)))
      in poke8 buf 63 (t_timeSource (timePropertiesDS ptpClock)))"

definition msgPackSync :: "PtpClock \<Rightarrow> octet list \<Rightarrow> Timestamp \<Rightarrow> octet list" where
  "msgPackSync ptpClock buf originTimestamp =
     (let buf = packType buf SYNC;
          buf = poke16 buf 2 (flip16 (int SYNC_LENGTH));
          buf = poke16 buf 30 (flip16 (sentSyncSequenceId ptpClock));
          buf = poke8 buf 32 CTRL_SYNC;
          buf = poke8 buf 33 (logSyncInterval (portDS ptpClock));
          buf = memset buf 8 0 8
      in packTimestamp buf originTimestamp)"

definition msgPackDelayReq :: "PtpClock \<Rightarrow> octet list \<Rightarrow> Timestamp \<Rightarrow> octet list" where
  "msgPackDelayReq ptpClock buf originTimestamp =
     (let buf = packType buf DELAY_REQ;
          buf = poke16 buf 2 (flip16 (int DELAY_REQ_LENGTH));
          buf = poke16 buf 30 (flip16 (sentDelayReqSequenceId ptpClock));
          buf = poke8 buf 32 CTRL_DELAY_REQ;
          buf = poke8 buf 33 0x7F;
          buf = memset buf 8 0 8
      in packTimestamp buf originTimestamp)"

definition msgPackFollowUp :: "PtpClock \<Rightarrow> octet list \<Rightarrow> Timestamp \<Rightarrow> octet list" where
  "msgPackFollowUp ptpClock buf ts =
     (let buf = packType buf FOLLOW_UP;
          buf = poke16 buf 2 (flip16 (int FOLLOW_UP_LENGTH));
          buf = poke16 buf 30 (flip16 (sentSyncSequenceId ptpClock - 1));
          buf = poke8 buf 32 CTRL_FOLLOW_UP;
          buf = poke8 buf 33 (logSyncInterval (portDS ptpClock))
      in packTimestamp buf ts)"

definition msgPackDelayResp ::
    "PtpClock \<Rightarrow> octet list \<Rightarrow> MsgHeader \<Rightarrow> Timestamp \<Rightarrow> octet list" where
  "msgPackDelayResp ptpClock buf header ts =
     (let buf = packType buf DELAY_RESP;
          buf = poke16 buf 2 (flip16 (int DELAY_RESP_LENGTH));
          buf = memset buf 8 0 8;
          buf = packCorrection buf header;
          buf = poke16 buf 30 (flip16 (sequenceId header));
          buf = poke8 buf 32 CTRL_DELAY_RESP;
          buf = poke8 buf 33 (logMinDelayReqInterval (portDS ptpClock));
          buf = packTimestamp buf ts
      in packRequestingPort buf header)"

definition msgPackPDelayReq :: "PtpClock \<Rightarrow> octet list \<Rightarrow> Timestamp \<Rightarrow> octet list" where
  "msgPackPDelayReq ptpClock buf originTimestamp =
     (let buf = packType buf PDELAY_REQ;
          buf = poke16 buf 2 (flip16 (int PDELAY_REQ_LENGTH));
          buf = poke16 buf 30 (flip16 (sentPDelayReqSequenceId ptpClock));
          buf = poke8 buf 32 CTRL_OTHER;
          buf = poke8 buf 33 0x7F;
          buf = memset buf 8 0 8;
          buf = packTimestamp buf originTimestamp
      in memset buf 44 0 10)"

definition msgPackPDelayResp :: "octet list \<Rightarrow> MsgHeader \<Rightarrow> Timestamp \<Rightarrow> octet list" where
  "msgPackPDelayResp buf header ts =
     (let buf = packType buf PDELAY_RESP;
          buf = poke16 buf 2 (flip16 (int PDELAY_RESP_LENGTH));
          buf = memset buf 8 0 8;
          buf = poke16 buf 30 (flip16 (sequenceId header));
          buf = poke8 buf 32 CTRL_OTHER;
          buf = poke8 buf 33 0x7F;
          buf = packTimestamp buf ts
      in packRequestingPort buf header)"

definition msgPackPDelayRespFollowUp :: "octet list \<Rightarrow> MsgHeader \<Rightarrow> Timestamp \<Rightarrow> octet list" where
  "msgPackPDelayRespFollowUp buf header ts =
     (let buf = packType buf PDELAY_RESP_FOLLOW_UP;
          buf = poke16 buf 2 (flip16 (int PDELAY_RESP_FOLLOW_UP_LENGTH));
          buf = poke16 buf 30 (flip16 (sequenceId header));
          buf = poke8 buf 32 CTRL_OTHER;
          buf = poke8 buf 33 0x7F;
          buf = packCorrection buf header;
          buf = packTimestamp buf ts
      in packRequestingPort buf header)"

section \<open>Round trips\<close>

text \<open>The type nibble and the rest of the first octet.\<close>

lemma and_15: "v AND 0x0F = take_bit 4 v" for v :: int
  by (simp add: take_bit_eq_mask mask_eq_exp_minus_1)

lemma u8_take_bit: "u8 x = take_bit 8 x"
  by (simp add: u8_def take_bit_eq_mod)

lemma type_nibble:
  assumes x: "is_u8 x" and t: "0 \<le> t" "t \<le> 15"
  shows "((x AND 0xF0) OR t) AND 0x0F = t" "u8 ((x AND 0xF0) OR t) = (x AND 0xF0) OR t"
    "((x AND 0xF0) OR t) div 16 = x div 16" "u8 (x AND 0xF0) = x AND 0xF0"
proof -
  have x8: "take_bit 8 x = x" using x by (simp add: is_u8_def take_bit_eq_mod)
  have t4: "take_bit 4 t = t" and t8: "take_bit 8 t = t" and td: "drop_bit 4 t = 0"
    using t by (simp_all add: take_bit_eq_mod drop_bit_eq_div)
  have z: "take_bit 4 (240 :: int) = 0" "take_bit 8 (240 :: int) = 240" by simp_all
  show "((x AND 0xF0) OR t) AND 0x0F = t"
    unfolding and_15 take_bit_or take_bit_and z t4 by simp
  show "u8 (x AND 0xF0) = x AND 0xF0"
    using x8 z by (simp add: u8_take_bit)
  show "u8 ((x AND 0xF0) OR t) = (x AND 0xF0) OR t"
    using x8 z t8 by (simp add: u8_take_bit)
  have "drop_bit 4 ((x AND 0xF0) OR t) = drop_bit 4 x"
    unfolding drop_bit_or drop_bit_and td using x8 and_15 [of "drop_bit 4 x"]
    by (simp add: take_bit_drop_bit)
  then show "((x AND 0xF0) OR t) div 16 = x div 16" by (simp add: drop_bit_eq_div)
qed

lemma packType_simps [buf_simps]:
  assumes "0 < length buf" "0 \<le> t" "t \<le> 15"
  shows "peek8 (packType buf t) 0 AND 0x0F = t" "peek8 (packType buf t) 0 div 16 = peek8 buf 0 div 16"
  using assms type_nibble [OF is_u8_peek8 [of buf 0], of t]
  by (simp_all add: packType_def Let_def buf_simps)

lemma packType_frame [buf_simps]:
  "length (packType buf t) = length buf"
  "0 < k \<Longrightarrow> peek8 (packType buf t) k = peek8 buf k"
  "0 < k \<Longrightarrow> peek16 (packType buf t) k = peek16 buf k"
  "0 < k \<Longrightarrow> peek32 (packType buf t) k = peek32 buf k"
  "0 < k \<Longrightarrow> peek_list (packType buf t) k n = peek_list buf k n"
  by (simp_all add: packType_def Let_def buf_simps)

definition wf_port_header :: "PtpClock \<Rightarrow> bool" where
  "wf_port_header c \<longleftrightarrow> 0 \<le> versionNumber (portDS c) \<and> versionNumber (portDS c) \<le> 15 \<and>
     is_u8 (d_domainNumber (defaultDS c)) \<and>
     length (clockIdentity (portIdentity (portDS c))) = CLOCK_IDENTITY_LENGTH \<and>
     is_i16 (portNumber (portIdentity (portDS c)))"

definition packed_header :: "PtpClock \<Rightarrow> octet list \<Rightarrow> bool" where
  "packed_header c buf \<longleftrightarrow> length buf = PACKET_SIZE \<and>
     peek8 buf 0 div 2 ^ 4 = of_bool (d_transportSpecific (defaultDS c)) \<and>
     peek8 buf 1 = versionNumber (portDS c) \<and>
     peek8 buf 4 = d_domainNumber (defaultDS c) \<and>
     (twoStepFlag (defaultDS c) \<longrightarrow> peek8 buf 6 = FLAG0_TWO_STEP) \<and>
     peek_list buf 20 CLOCK_IDENTITY_LENGTH = clockIdentity (portIdentity (portDS c)) \<and>
     peek16 buf 28 = flip16 (portNumber (portIdentity (portDS c)))"

definition port_header ::
    "PtpClock \<Rightarrow> octet list \<Rightarrow> int \<Rightarrow> nat \<Rightarrow> int \<Rightarrow> int \<Rightarrow> int \<Rightarrow> int \<Rightarrow> MsgHeader" where
  "port_header c flags t len cf seq ctrl lmi = \<lparr>
     h_transportSpecific = of_bool (d_transportSpecific (defaultDS c)),
     messageType = t, versionPTP = versionNumber (portDS c), messageLength = int len,
     h_domainNumber = d_domainNumber (defaultDS c), flagField = flags, correctionfield = cf,
     sourcePortIdentity = portIdentity (portDS c), sequenceId = seq, controlField = ctrl,
     logMessageInterval = lmi\<rparr>"

lemma nibble_version: "0 \<le> v \<Longrightarrow> v \<le> 15 \<Longrightarrow> v AND 0x0F = v" for v :: int
  by (simp add: and_15 take_bit_eq_mod)

lemma packed_msgPackHeader:
  assumes "length buf = PACKET_SIZE" "wf_port_header c"
  shows "packed_header c (msgPackHeader c buf)"
  using assms
  by (simp add: packed_header_def wf_port_header_def msgPackHeader_def Let_def buf_simps length_defs FLAG0_TWO_STEP_def is_u8_def u8_def)

text \<open>Values of the C types.\<close>

definition wf_Timestamp :: "Timestamp \<Rightarrow> bool" where
  "wf_Timestamp ts \<longleftrightarrow> is_u16 (u48_msb (secondsField ts)) \<and> is_u32 (u48_lsb (secondsField ts)) \<and>
     is_u32 (nanosecondsField ts)"

definition wf_PortIdentity :: "PortIdentity \<Rightarrow> bool" where
  "wf_PortIdentity p \<longleftrightarrow> length (clockIdentity p) = CLOCK_IDENTITY_LENGTH \<and> is_i16 (portNumber p)"

lemma correction_halves:
  assumes "is_i64 v"
  shows "i64 (i64 (u32 (v div 4294967296) * 4294967296) + u32 v) = v"
proof -
  have "i64 (i64 (u32 (v div 4294967296) * 4294967296) + u32 v) =
      i64 (u32 (v div 4294967296) * 4294967296 + u32 v)"
    by (simp add: i64_def mod_simps algebra_simps)
  also have "\<dots> = i64 (v mod 18446744073709551616)"
    using zmod_zmult2_eq [of 4294967296 v 4294967296] by (simp add: u32_def mult.commute)
  also have "\<dots> = i64 v" by (simp add: i64_def mod_simps)
  finally show ?thesis using assms by simp
qed

lemma unpack_packTimestamp:
  "44 \<le> length buf \<Longrightarrow> wf_Timestamp ts \<Longrightarrow> unpackTimestamp (packTimestamp buf ts) = ts"
  by (cases ts, cases "secondsField ts")
    (simp add: unpackTimestamp_def packTimestamp_def wf_Timestamp_def Let_def buf_simps)

lemma unpack_packRequestingPort:
  "54 \<le> length buf \<Longrightarrow> wf_PortIdentity (sourcePortIdentity h) \<Longrightarrow>
    unpackRequestingPort (packRequestingPort buf h) = sourcePortIdentity h"
  by (cases "sourcePortIdentity h")
    (simp add: unpackRequestingPort_def packRequestingPort_def wf_PortIdentity_def Let_def buf_simps
      CLOCK_IDENTITY_LENGTH_def)

lemma packTimestamp_frame [buf_simps]:
  "length (packTimestamp buf ts) = length buf"
  "k < 34 \<or> 44 \<le> k \<Longrightarrow> peek8 (packTimestamp buf ts) k = peek8 buf k"
  "k < 33 \<or> 44 \<le> k \<Longrightarrow> peek16 (packTimestamp buf ts) k = peek16 buf k"
  "k < 31 \<or> 44 \<le> k \<Longrightarrow> peek32 (packTimestamp buf ts) k = peek32 buf k"
  "k + n \<le> 34 \<or> 44 \<le> k \<Longrightarrow> peek_list (packTimestamp buf ts) k n = peek_list buf k n"
  by (auto simp: packTimestamp_def Let_def buf_simps)

lemma packRequestingPort_frame [buf_simps]:
  assumes "length (clockIdentity (sourcePortIdentity h)) = CLOCK_IDENTITY_LENGTH"
  shows "length (packRequestingPort buf h) = length buf"
    "k < 44 \<Longrightarrow> peek8 (packRequestingPort buf h) k = peek8 buf k"
    "k < 43 \<Longrightarrow> peek16 (packRequestingPort buf h) k = peek16 buf k"
    "k < 41 \<Longrightarrow> peek32 (packRequestingPort buf h) k = peek32 buf k"
    "k + n \<le> 44 \<Longrightarrow> peek_list (packRequestingPort buf h) k n = peek_list buf k n"
    "unpackTimestamp (packRequestingPort buf h) = unpackTimestamp buf"
  using assms by (auto simp: packRequestingPort_def unpackTimestamp_def Let_def buf_simps CLOCK_IDENTITY_LENGTH_def)

lemma memset_after_timestamp [buf_simps]:
  "44 \<le> k \<Longrightarrow> unpackTimestamp (memset buf k 0 n) = unpackTimestamp buf"
  by (simp add: unpackTimestamp_def buf_simps)

lemma packCorrection_frame [buf_simps]:
  "length (packCorrection buf h) = length buf"
  "k < 8 \<or> 16 \<le> k \<Longrightarrow> peek8 (packCorrection buf h) k = peek8 buf k"
  "k < 7 \<or> 16 \<le> k \<Longrightarrow> peek16 (packCorrection buf h) k = peek16 buf k"
  "k + n \<le> 8 \<or> 16 \<le> k \<Longrightarrow> peek_list (packCorrection buf h) k n = peek_list buf k n"
  "16 \<le> length buf \<Longrightarrow> peek32 (packCorrection buf h) 8 = flip32 (correctionfield h div 2 ^ 32)"
  "16 \<le> length buf \<Longrightarrow> peek32 (packCorrection buf h) 12 = flip32 (correctionfield h)"
  by (auto simp: packCorrection_def Let_def buf_simps)

lemmas pack_defs = msgPackSync_def msgPackFollowUp_def msgPackDelayReq_def msgPackDelayResp_def
  msgPackPDelayReq_def msgPackPDelayResp_def msgPackPDelayRespFollowUp_def msgPackAnnounce_def

lemmas header_defs = packed_header_def wf_port_header_def msgUnpackHeader_def port_header_def Let_def
  length_defs msg_type_defs ctrl_defs nibble_version

text \<open>What a receiver reads from the header of each message, and that the header survives.\<close>

lemma header_msgPackSync:
  assumes "packed_header c buf" "wf_port_header c"
  shows "packed_header c (msgPackSync c buf ts)"
    "msgUnpackHeader (msgPackSync c buf ts) = port_header c (peek_list buf 6 2) SYNC SYNC_LENGTH
      0 (i16 (sentSyncSequenceId c)) CTRL_SYNC (i8 (logSyncInterval (portDS c)))"
  using assms
  by (simp_all add: msgPackSync_def header_defs buf_simps)

lemma header_msgPackFollowUp:
  assumes "packed_header c buf" "wf_port_header c"
  shows "packed_header c (msgPackFollowUp c buf ts)"
    "msgUnpackHeader (msgPackFollowUp c buf ts) = port_header c (peek_list buf 6 2) FOLLOW_UP FOLLOW_UP_LENGTH
      (correctionfield (msgUnpackHeader buf)) (i16 (sentSyncSequenceId c - 1)) CTRL_FOLLOW_UP (i8 (logSyncInterval (portDS c)))"
  using assms
  by (simp_all add: msgPackFollowUp_def header_defs buf_simps)

lemma header_msgPackDelayReq:
  assumes "packed_header c buf" "wf_port_header c"
  shows "packed_header c (msgPackDelayReq c buf ts)"
    "msgUnpackHeader (msgPackDelayReq c buf ts) = port_header c (peek_list buf 6 2) DELAY_REQ DELAY_REQ_LENGTH
      0 (i16 (sentDelayReqSequenceId c)) CTRL_DELAY_REQ 0x7F"
  using assms
  by (simp_all add: msgPackDelayReq_def header_defs buf_simps)

lemma header_msgPackDelayResp:
  assumes "packed_header c buf" "wf_port_header c"
    "wf_PortIdentity (sourcePortIdentity h)" "is_i64 (correctionfield h)" "is_i16 (sequenceId h)"
  shows "packed_header c (msgPackDelayResp c buf h ts)"
    "msgUnpackHeader (msgPackDelayResp c buf h ts) = port_header c (peek_list buf 6 2) DELAY_RESP DELAY_RESP_LENGTH
      (correctionfield h) (sequenceId h) CTRL_DELAY_RESP (i8 (logMinDelayReqInterval (portDS c)))"
  using assms
  by (simp_all add: msgPackDelayResp_def header_defs buf_simps wf_PortIdentity_def correction_halves)

lemma header_msgPackPDelayReq:
  assumes "packed_header c buf" "wf_port_header c"
  shows "packed_header c (msgPackPDelayReq c buf ts)"
    "msgUnpackHeader (msgPackPDelayReq c buf ts) = port_header c (peek_list buf 6 2) PDELAY_REQ PDELAY_REQ_LENGTH
      0 (i16 (sentPDelayReqSequenceId c)) CTRL_OTHER 0x7F"
  using assms
  by (simp_all add: msgPackPDelayReq_def header_defs buf_simps)

lemma header_msgPackPDelayResp:
  assumes "packed_header c buf" "wf_port_header c"
    "wf_PortIdentity (sourcePortIdentity h)" "is_i64 (correctionfield h)" "is_i16 (sequenceId h)"
  shows "packed_header c (msgPackPDelayResp buf h ts)"
    "msgUnpackHeader (msgPackPDelayResp buf h ts) = port_header c (peek_list buf 6 2) PDELAY_RESP PDELAY_RESP_LENGTH
      0 (sequenceId h) CTRL_OTHER 0x7F"
  using assms
  by (simp_all add: msgPackPDelayResp_def header_defs buf_simps wf_PortIdentity_def correction_halves)

lemma header_msgPackPDelayRespFollowUp:
  assumes "packed_header c buf" "wf_port_header c"
    "wf_PortIdentity (sourcePortIdentity h)" "is_i64 (correctionfield h)" "is_i16 (sequenceId h)"
  shows "packed_header c (msgPackPDelayRespFollowUp buf h ts)"
    "msgUnpackHeader (msgPackPDelayRespFollowUp buf h ts) = port_header c (peek_list buf 6 2) PDELAY_RESP_FOLLOW_UP PDELAY_RESP_FOLLOW_UP_LENGTH
      (correctionfield h) (sequenceId h) CTRL_OTHER 0x7F"
  using assms
  by (simp_all add: msgPackPDelayRespFollowUp_def header_defs buf_simps wf_PortIdentity_def correction_halves)

lemma header_msgPackAnnounce:
  assumes "packed_header c buf" "wf_port_header c"
    "length (p_grandmasterIdentity (parentDS c)) = CLOCK_IDENTITY_LENGTH"
  shows "packed_header c (msgPackAnnounce c buf)"
    "msgUnpackHeader (msgPackAnnounce c buf) = port_header c (peek_list buf 6 2) ANNOUNCE ANNOUNCE_LENGTH
      (correctionfield (msgUnpackHeader buf)) (i16 (sentAnnounceSequenceId c)) CTRL_OTHER (i8 (logAnnounceInterval (portDS c)))"
  using assms
  by (simp_all add: msgPackAnnounce_def header_defs buf_simps)

text \<open>What a receiver reads from the body of each message.\<close>

lemma body_msgPack_simple:
  assumes "length buf = PACKET_SIZE" "wf_Timestamp ts"
  shows "msgUnpackSync (msgPackSync c buf ts) = \<lparr>sync_originTimestamp = ts\<rparr>"
    "msgUnpackFollowUp (msgPackFollowUp c buf ts) = \<lparr>preciseOriginTimestamp = ts\<rparr>"
    "msgUnpackDelayReq (msgPackDelayReq c buf ts) = \<lparr>delayReq_originTimestamp = ts\<rparr>"
    "msgUnpackPDelayReq (msgPackPDelayReq c buf ts) = \<lparr>pdelayReq_originTimestamp = ts\<rparr>"
  using assms
  by (simp_all add: pack_defs msgUnpackSync_def msgUnpackFollowUp_def msgUnpackDelayReq_def
      msgUnpackPDelayReq_def Let_def buf_simps unpack_packTimestamp PACKET_SIZE_def)

lemma body_msgPack_response:
  assumes "length buf = PACKET_SIZE" "wf_Timestamp ts" "wf_PortIdentity (sourcePortIdentity h)"
  shows "msgUnpackDelayResp (msgPackDelayResp c buf h ts) =
      \<lparr>receiveTimestamp = ts, resp_requestingPortIdentity = sourcePortIdentity h\<rparr>"
    "msgUnpackPDelayResp (msgPackPDelayResp buf h ts) =
      \<lparr>requestReceiptTimestamp = ts, presp_requestingPortIdentity = sourcePortIdentity h\<rparr>"
    "msgUnpackPDelayRespFollowUp (msgPackPDelayRespFollowUp buf h ts) =
      \<lparr>responseOriginTimestamp = ts, prespfollow_requestingPortIdentity = sourcePortIdentity h\<rparr>"
  using assms
  by (simp_all add: pack_defs msgUnpackDelayResp_def msgUnpackPDelayResp_def wf_PortIdentity_def
      msgUnpackPDelayRespFollowUp_def Let_def buf_simps unpack_packTimestamp
      unpack_packRequestingPort PACKET_SIZE_def)

definition wf_announced :: "PtpClock \<Rightarrow> bool" where
  "wf_announced c \<longleftrightarrow> is_i16 (t_currentUtcOffset (timePropertiesDS c)) \<and>
     is_u8 (p_grandmasterPriority1 (parentDS c)) \<and> is_u8 (p_grandmasterPriority2 (parentDS c)) \<and>
     is_u8 (clockClass (d_clockQuality (defaultDS c))) \<and>
     is_u8 (clockAccuracy (d_clockQuality (defaultDS c))) \<and>
     is_i16 (offsetScaledLogVariance (d_clockQuality (defaultDS c))) \<and>
     length (p_grandmasterIdentity (parentDS c)) = CLOCK_IDENTITY_LENGTH \<and>
     is_i16 (c_stepsRemoved (currentDS c)) \<and> is_u8 (t_timeSource (timePropertiesDS c))"

lemma body_msgPackAnnounce:
  assumes "length buf = PACKET_SIZE" "wf_announced c"
  shows "msgUnpackAnnounce (msgPackAnnounce c buf) = \<lparr>
    a_originTimestamp = \<lparr>secondsField = \<lparr>u48_lsb = 0, u48_msb = 0\<rparr>, nanosecondsField = 0\<rparr>,
    a_currentUtcOffset = t_currentUtcOffset (timePropertiesDS c),
    a_grandmasterPriority1 = p_grandmasterPriority1 (parentDS c),
    a_grandmasterClockQuality = d_clockQuality (defaultDS c),
    a_grandmasterPriority2 = p_grandmasterPriority2 (parentDS c),
    a_grandmasterIdentity = p_grandmasterIdentity (parentDS c),
    a_stepsRemoved = c_stepsRemoved (currentDS c),
    a_timeSource = t_timeSource (timePropertiesDS c)\<rparr>"
  using assms
  by (simp add: msgUnpackAnnounce_def msgPackAnnounce_def wf_announced_def unpackTimestamp_def
      Let_def buf_simps length_defs)

section \<open>Properties\<close>

text \<open>A concrete port and output buffer for the witnesses.\<close>

definition sample_port :: PtpClock where
  "sample_port = zero_clock\<lparr>
     defaultDS := \<lparr>twoStepFlag = True, d_clockIdentity = [0,1,2,255,254,3,4,5], numberPorts = 1,
       d_clockQuality = \<lparr>clockClass = 248, clockAccuracy = 254, offsetScaledLogVariance = 5000\<rparr>,
       d_priority1 = 128, d_priority2 = 128, d_domainNumber = 0, d_slaveOnly = False,
       d_transportSpecific = False\<rparr>,
     currentDS := \<lparr>c_stepsRemoved = 0, offsetFromMaster = \<lparr>seconds = 0, nanoseconds = 0\<rparr>,
       meanPathDelay = \<lparr>seconds = 0, nanoseconds = 0\<rparr>\<rparr>,
     parentDS := \<lparr>parentPortIdentity = \<lparr>clockIdentity = [0,1,2,255,254,3,4,5], portNumber = 0\<rparr>,
       parentStats = False, observedParentOffsetScaledLogVariance = 0,
       observedParentClockPhaseChangeRate = 0, p_grandmasterIdentity = [0,1,2,255,254,3,4,5],
       p_grandmasterClockQuality = \<lparr>clockClass = 248, clockAccuracy = 254, offsetScaledLogVariance = 5000\<rparr>,
       p_grandmasterPriority1 = 128, p_grandmasterPriority2 = 128\<rparr>,
     timePropertiesDS := \<lparr>t_currentUtcOffset = 37, currentUtcOffsetValid = False, leap59 = False,
       leap61 = False, timeTraceable = False, frequencyTraceable = False, ptpTimescale = False,
       t_timeSource = 160\<rparr>,
     portDS := \<lparr>portIdentity = \<lparr>clockIdentity = [0,1,2,255,254,3,4,5], portNumber = 1\<rparr>,
       portState = PTP_MASTER, logMinDelayReqInterval = 0,
       peerMeanPathDelay = \<lparr>seconds = 0, nanoseconds = 0\<rparr>, logAnnounceInterval = 2,
       announceReceiptTimeout = 6, logSyncInterval = -3, delayMechanism = E2E,
       logMinPdelayReqInterval = 1, versionNumber = 2\<rparr>,
     sentSyncSequenceId := 7, sentAnnounceSequenceId := -2\<rparr>"

definition sample_header :: MsgHeader where
  "sample_header = \<lparr>h_transportSpecific = 0, messageType = 1, versionPTP = 2, messageLength = 44,
     h_domainNumber = 0, flagField = [0, 0], correctionfield = -65537,
     sourcePortIdentity = \<lparr>clockIdentity = [9,8,7,255,254,6,5,4], portNumber = 3\<rparr>,
     sequenceId = -5, controlField = 1, logMessageInterval = 127\<rparr>"

definition sample_time :: Timestamp where
  "sample_time = \<lparr>secondsField = \<lparr>u48_lsb = 4000000000, u48_msb = 65535\<rparr>, nanosecondsField = 999999999\<rparr>"

lemma sample_ok [simp]:
  "wf_port_header sample_port" "wf_announced sample_port" "wf_Timestamp sample_time"
  "wf_PortIdentity (sourcePortIdentity sample_header)" "is_i64 (correctionfield sample_header)"
  "is_i16 (sequenceId sample_header)" "twoStepFlag (defaultDS sample_port)"
  "length (p_grandmasterIdentity (parentDS sample_port)) = CLOCK_IDENTITY_LENGTH"
  by (simp_all add: wf_port_header_def wf_announced_def wf_Timestamp_def wf_PortIdentity_def
      sample_port_def sample_header_def sample_time_def length_defs c_range)

lemma packed_sample [simp]:
  "packed_header sample_port (msgPackHeader sample_port (replicate PACKET_SIZE 0))"
  by (rule packed_msgPackHeader) simp_all

text \<open>
  \<open>msgPackHeader\<close> and \<open>msgPackSync\<close> on any output buffer: a receiver that
  unpacks the packet reads a Sync of this port (its identity, domain, version), of the right
  length, with the port's sequence number, a zero correction and the time stamp packed.
\<close>

theorem sync_roundtrip:
  assumes "packed_header c buf" "wf_port_header c" "wf_Timestamp ts"
  shows "msgUnpackHeader (msgPackSync c buf ts) = port_header c (peek_list buf 6 2) SYNC SYNC_LENGTH
      0 (i16 (sentSyncSequenceId c)) CTRL_SYNC (i8 (logSyncInterval (portDS c))) \<and>
    msgUnpackSync (msgPackSync c buf ts) = \<lparr>sync_originTimestamp = ts\<rparr> \<and>
    packed_header c (msgPackSync c buf ts)"
  using header_msgPackSync [OF assms(1,2), of ts] body_msgPack_simple(1) [OF _ assms(3), of buf c] assms(1)
  by (simp add: packed_header_def)

theorem sync_roundtrip_witness:
  "sequenceId (msgUnpackHeader (msgPackSync sample_port
      (msgPackHeader sample_port (replicate PACKET_SIZE 0)) sample_time)) = 7 \<and>
   messageType (msgUnpackHeader (msgPackSync sample_port
      (msgPackHeader sample_port (replicate PACKET_SIZE 0)) sample_time)) = SYNC"
  using sync_roundtrip [OF packed_sample sample_ok(1,3)]
  by (simp add: port_header_def) (simp add: sample_port_def)

text \<open>
  The Follow_Up that \<open>issueSync\<close> packs after it has advanced the Sync counter
  carries the sequence number of the Sync it follows, also when the 16-bit counter wraps, and
  the precise time stamp.
\<close>

theorem followup_matches_sync:
  assumes "packed_header c buf" "wf_port_header c" "wf_Timestamp ts" "wf_Timestamp ts'"
    "c' = c\<lparr>sentSyncSequenceId := i16 (sentSyncSequenceId c + 1)\<rparr>"
  shows "sequenceId (msgUnpackHeader (msgPackFollowUp c' (msgPackSync c buf ts) ts')) =
      sequenceId (msgUnpackHeader (msgPackSync c buf ts)) \<and>
    sourcePortIdentity (msgUnpackHeader (msgPackFollowUp c' (msgPackSync c buf ts) ts')) =
      sourcePortIdentity (msgUnpackHeader (msgPackSync c buf ts)) \<and>
    messageType (msgUnpackHeader (msgPackFollowUp c' (msgPackSync c buf ts) ts')) = FOLLOW_UP \<and>
    correctionfield (msgUnpackHeader (msgPackFollowUp c' (msgPackSync c buf ts) ts')) = 0 \<and>
    msgUnpackFollowUp (msgPackFollowUp c' (msgPackSync c buf ts) ts') = \<lparr>preciseOriginTimestamp = ts'\<rparr>"
proof -
  note s = header_msgPackSync [OF assms(1,2), of ts]
  have c': "packed_header c' (msgPackSync c buf ts)" "wf_port_header c'"
    using s(1) assms(2) by (simp_all add: assms(5) packed_header_def wf_port_header_def)
  have l: "length (msgPackSync c buf ts) = PACKET_SIZE" using s(1) by (simp add: packed_header_def)
  have wrap: "i16 (i16 (x + 1) - 1) = i16 x" for x :: int
    by (simp add: c_conv mod_diff_left_eq algebra_simps)
  have seq: "i16 (sentSyncSequenceId c' - 1) = i16 (sentSyncSequenceId c)" and "portDS c' = portDS c"
    by (simp_all add: assms(5) wrap)
  then show ?thesis
    unfolding header_msgPackFollowUp(2) [OF c', of ts'] s(2) port_header_def
      body_msgPack_simple(2) [OF l assms(4), of c'] by simp
qed

theorem followup_matches_sync_witness:
  "sequenceId (msgUnpackHeader (msgPackFollowUp
      (sample_port\<lparr>sentSyncSequenceId := -32768\<rparr>)
      (msgPackSync (sample_port\<lparr>sentSyncSequenceId := 32767\<rparr>)
        (msgPackHeader sample_port (replicate PACKET_SIZE 0)) sample_time) sample_time)) =
   sequenceId (msgUnpackHeader (msgPackSync (sample_port\<lparr>sentSyncSequenceId := 32767\<rparr>)
        (msgPackHeader sample_port (replicate PACKET_SIZE 0)) sample_time))"
proof -
  let ?c = "sample_port\<lparr>sentSyncSequenceId := 32767\<rparr>"
  have "packed_header ?c (msgPackHeader sample_port (replicate PACKET_SIZE 0))" "wf_port_header ?c"
    using packed_sample sample_ok(1)
    by (simp_all add: packed_header_def wf_port_header_def)
  from followup_matches_sync [OF this sample_ok(3,3) refl] show ?thesis by simp
qed

text \<open>
  A Delay_Resp carries back to the requester the sequence number, the correction
  field and the port identity of its request, the receive time stamp, and the interval the
  master allows.
\<close>

theorem delay_resp_roundtrip:
  assumes "packed_header c buf" "wf_port_header c" "wf_Timestamp ts"
    "wf_PortIdentity (sourcePortIdentity h)" "is_i64 (correctionfield h)" "is_i16 (sequenceId h)"
  shows "msgUnpackHeader (msgPackDelayResp c buf h ts) = port_header c (peek_list buf 6 2) DELAY_RESP
      DELAY_RESP_LENGTH (correctionfield h) (sequenceId h) CTRL_DELAY_RESP
      (i8 (logMinDelayReqInterval (portDS c))) \<and>
    msgUnpackDelayResp (msgPackDelayResp c buf h ts) =
      \<lparr>receiveTimestamp = ts, resp_requestingPortIdentity = sourcePortIdentity h\<rparr>"
  using header_msgPackDelayResp(2) [OF assms(1,2,4,5,6), of ts]
    body_msgPack_response(1) [OF _ assms(3,4), of buf c] assms(1)
  by (simp add: packed_header_def)

theorem delay_resp_roundtrip_witness:
  "correctionfield (msgUnpackHeader (msgPackDelayResp sample_port
      (msgPackHeader sample_port (replicate PACKET_SIZE 0)) sample_header sample_time)) = -65537 \<and>
   portNumber (resp_requestingPortIdentity (msgUnpackDelayResp (msgPackDelayResp sample_port
      (msgPackHeader sample_port (replicate PACKET_SIZE 0)) sample_header sample_time))) = 3"
  using delay_resp_roundtrip [OF packed_sample sample_ok(1,3,4,5,6)]
  by (simp add: port_header_def) (simp add: sample_header_def)

text \<open>
  The peer delay messages: a request carries the port's own sequence number; the
  response and its follow-up carry the requester's sequence number and identity, the follow-up
  also the correction field, each its time stamp.
\<close>

theorem peer_delay_roundtrip:
  assumes "packed_header c buf" "wf_port_header c" "wf_Timestamp ts"
    "wf_PortIdentity (sourcePortIdentity h)" "is_i64 (correctionfield h)" "is_i16 (sequenceId h)"
  shows "msgUnpackHeader (msgPackPDelayReq c buf ts) = port_header c (peek_list buf 6 2) PDELAY_REQ
      PDELAY_REQ_LENGTH 0 (i16 (sentPDelayReqSequenceId c)) CTRL_OTHER 0x7F \<and>
    msgUnpackPDelayReq (msgPackPDelayReq c buf ts) = \<lparr>pdelayReq_originTimestamp = ts\<rparr> \<and>
    msgUnpackHeader (msgPackPDelayResp buf h ts) = port_header c (peek_list buf 6 2) PDELAY_RESP
      PDELAY_RESP_LENGTH 0 (sequenceId h) CTRL_OTHER 0x7F \<and>
    msgUnpackPDelayResp (msgPackPDelayResp buf h ts) =
      \<lparr>requestReceiptTimestamp = ts, presp_requestingPortIdentity = sourcePortIdentity h\<rparr> \<and>
    msgUnpackHeader (msgPackPDelayRespFollowUp buf h ts) = port_header c (peek_list buf 6 2)
      PDELAY_RESP_FOLLOW_UP PDELAY_RESP_FOLLOW_UP_LENGTH (correctionfield h) (sequenceId h) CTRL_OTHER 0x7F \<and>
    msgUnpackPDelayRespFollowUp (msgPackPDelayRespFollowUp buf h ts) =
      \<lparr>responseOriginTimestamp = ts, prespfollow_requestingPortIdentity = sourcePortIdentity h\<rparr>"
proof -
  have l: "length buf = PACKET_SIZE" using assms(1) by (simp add: packed_header_def)
  show ?thesis
    using header_msgPackPDelayReq(2) [OF assms(1,2), of ts]
      header_msgPackPDelayResp(2) [OF assms(1,2,4,5,6), of ts]
      header_msgPackPDelayRespFollowUp(2) [OF assms(1,2,4,5,6), of ts]
      body_msgPack_simple(4) [OF l assms(3), of c] body_msgPack_response(2,3) [OF l assms(3,4)]
    by simp
qed

theorem peer_delay_roundtrip_witness:
  "sequenceId (msgUnpackHeader (msgPackPDelayResp
      (msgPackHeader sample_port (replicate PACKET_SIZE 0)) sample_header sample_time)) = -5 \<and>
   messageType (msgUnpackHeader (msgPackPDelayRespFollowUp
      (msgPackHeader sample_port (replicate PACKET_SIZE 0)) sample_header sample_time)) =
      PDELAY_RESP_FOLLOW_UP"
  using peer_delay_roundtrip [OF packed_sample sample_ok(1,3,4,5,6)]
  by (simp add: port_header_def) (simp add: sample_header_def)

text \<open>
  C21 (roundtrip).  An Announce tells its receivers the grandmaster identity and priorities of the
  parent data set, the port's own clock quality, the steps removed, the UTC offset and the time
  source, and the port's Announce counter.  Its correction field is whatever the last packet in
  the output buffer carried: \<open>msgPackAnnounce\<close> does not clear it.
\<close>

theorem announce_roundtrip:
  assumes "packed_header c buf" "wf_port_header c" "wf_announced c"
  shows "msgUnpackHeader (msgPackAnnounce c buf) = port_header c (peek_list buf 6 2) ANNOUNCE
      ANNOUNCE_LENGTH (correctionfield (msgUnpackHeader buf)) (i16 (sentAnnounceSequenceId c)) CTRL_OTHER
      (i8 (logAnnounceInterval (portDS c))) \<and>
    msgUnpackAnnounce (msgPackAnnounce c buf) = \<lparr>
      a_originTimestamp = \<lparr>secondsField = \<lparr>u48_lsb = 0, u48_msb = 0\<rparr>, nanosecondsField = 0\<rparr>,
      a_currentUtcOffset = t_currentUtcOffset (timePropertiesDS c),
      a_grandmasterPriority1 = p_grandmasterPriority1 (parentDS c),
      a_grandmasterClockQuality = d_clockQuality (defaultDS c),
      a_grandmasterPriority2 = p_grandmasterPriority2 (parentDS c),
      a_grandmasterIdentity = p_grandmasterIdentity (parentDS c),
      a_stepsRemoved = c_stepsRemoved (currentDS c),
      a_timeSource = t_timeSource (timePropertiesDS c)\<rparr>"
proof -
  have "length (p_grandmasterIdentity (parentDS c)) = CLOCK_IDENTITY_LENGTH" "length buf = PACKET_SIZE"
    using assms by (simp_all add: wf_announced_def packed_header_def)
  then show ?thesis
    using header_msgPackAnnounce(2) [OF assms(1,2)] body_msgPackAnnounce [OF _ assms(3)] by blast
qed

theorem announce_roundtrip_witness:
  "a_currentUtcOffset (msgUnpackAnnounce (msgPackAnnounce sample_port
      (msgPackHeader sample_port (replicate PACKET_SIZE 0)))) = 37 \<and>
   sequenceId (msgUnpackHeader (msgPackAnnounce sample_port
      (msgPackHeader sample_port (replicate PACKET_SIZE 0)))) = -2"
  using announce_roundtrip [OF packed_sample sample_ok(1,2)]
  by (simp add: port_header_def) (simp add: sample_port_def)

text \<open>
  A Delay_Resp packed into the output buffer leaves its correction field behind in
  the Announce packed next: the announce on the wire carries the correction of an earlier delay
  request.
\<close>

theorem announce_keeps_stale_correction:
  assumes "packed_header c buf" "wf_port_header c" "wf_announced c"
    "wf_PortIdentity (sourcePortIdentity h)" "is_i64 (correctionfield h)" "is_i16 (sequenceId h)"
  shows "correctionfield (msgUnpackHeader (msgPackAnnounce c (msgPackDelayResp c buf h ts))) =
    correctionfield h"
proof -
  have "length (p_grandmasterIdentity (parentDS c)) = CLOCK_IDENTITY_LENGTH"
    using assms(3) by (simp add: wf_announced_def)
  with header_msgPackAnnounce(2) [OF header_msgPackDelayResp(1) [OF assms(1,2,4,5,6)] assms(2)]
    header_msgPackDelayResp(2) [OF assms(1,2,4,5,6), of ts]
  show ?thesis by (simp add: port_header_def)
qed

theorem announce_keeps_stale_correction_witness:
  "correctionfield (msgUnpackHeader (msgPackAnnounce sample_port (msgPackDelayResp
     sample_port (msgPackHeader sample_port (replicate PACKET_SIZE 0))
     sample_header sample_time))) = -65537"
  using announce_keeps_stale_correction [OF packed_sample sample_ok(1,2,4,5,6), of sample_time]
  by (simp add: sample_header_def)

end
