(* ===== verification/Bmc.thy ===== *)
theory Bmc
  imports Servo Timer Msg "HOL-Library.Product_Lexorder" "HOL-Library.List_Lexorder"
begin

text \<open>
  \<open>bmc.c\<close>: initialisation of the data sets, the foreign master table, the data set comparison
  and the state decision of the best master clock algorithm.
\<close>

section \<open>Initialisation\<close>

definition EUI48toEUI64 :: "octet list \<Rightarrow> octet list" where
  "EUI48toEUI64 eui48 =
     [eui48 ! 0, eui48 ! 1, eui48 ! 2, 0xff, 0xfe, eui48 ! 3, eui48 ! 4, eui48 ! 5]"

definition initData :: "PtpClock \<Rightarrow> PtpClock" where
  "initData c =
     (let r = rtOpts c;
          uid = EUI48toEUI64 (portUuidField c)
      in c\<lparr>
        defaultDS := \<lparr>twoStepFlag = True, d_clockIdentity = uid, numberPorts = NUMBER_PORTS,
          d_clockQuality = r_clockQuality r, d_priority1 = r_priority1 r,
          d_priority2 = r_priority2 r, d_domainNumber = r_domainNumber r,
          d_slaveOnly = r_slaveOnly r, d_transportSpecific = False\<rparr>,
        portDS := (portDS c)\<lparr>
          portIdentity := \<lparr>clockIdentity = uid, portNumber = NUMBER_PORTS\<rparr>,
          logMinDelayReqInterval := DEFAULT_DELAYREQ_INTERVAL,
          peerMeanPathDelay := \<lparr>seconds = 0, nanoseconds = 0\<rparr>,
          logAnnounceInterval := r_announceInterval r,
          announceReceiptTimeout := DEFAULT_ANNOUNCE_RECEIPT_TIMEOUT,
          logSyncInterval := r_syncInterval r,
          delayMechanism := r_delayMechanism r,
          logMinPdelayReqInterval := DEFAULT_PDELAYREQ_INTERVAL,
          versionNumber := VERSION_PTP\<rparr>,
        foreignMasterDS := (foreignMasterDS c)\<lparr>fm_count := 0, fm_capacity := r_maxForeignRecords r\<rparr>,
        inboundLatency := r_inboundLatency r,
        outboundLatency := r_outboundLatency r,
        servo := r_servo r,
        stats := r_stats r\<rparr>)"

section \<open>The foreign master table\<close>

definition isSamePortIdentity :: "PortIdentity \<Rightarrow> PortIdentity \<Rightarrow> bool" where
  "isSamePortIdentity A B \<longleftrightarrow>
     memcmp (take CLOCK_IDENTITY_LENGTH (clockIdentity A)) (take CLOCK_IDENTITY_LENGTH (clockIdentity B)) = 0 \<and>
     portNumber A = portNumber B"

text \<open>
  The search loop of \<open>addForeign\<close>: \<open>n\<close> records are still to be examined, the next one is \<open>j\<close>.
\<close>

fun find_foreign :: "ForeignMasterDS \<Rightarrow> MsgHeader \<Rightarrow> nat \<Rightarrow> int \<Rightarrow> int option" where
  "find_foreign fm header 0 j = None"
| "find_foreign fm header (Suc n) j =
     (if isSamePortIdentity (sourcePortIdentity header)
           (foreignMasterPortIdentity (fm_records fm ! nat j))
      then Some j else find_foreign fm header n ((j + 1) smod fm_count fm))"

definition addForeign :: "MsgHeader \<Rightarrow> MsgAnnounce \<Rightarrow> PtpClock \<Rightarrow> PtpClock" where
  "addForeign header announce c =
     (let fm = foreignMasterDS c
      in case find_foreign fm header (nat (fm_count fm)) (fm_best fm) of
        Some j \<Rightarrow>
          (let r = fm_records fm ! nat j;
               r = r\<lparr>foreignMasterAnnounceMessages := i16 (foreignMasterAnnounceMessages r + 1),
                    f_header := header, f_announce := announce\<rparr>
           in c\<lparr>foreignMasterDS := fm\<lparr>fm_records := (fm_records fm)[nat j := r]\<rparr>\<rparr>)
      | None \<Rightarrow>
          (let fm = (if fm_count fm < fm_capacity fm then fm\<lparr>fm_count := i16 (fm_count fm + 1)\<rparr> else fm);
               j = fm_i fm;
               r = \<lparr>foreignMasterPortIdentity = sourcePortIdentity header,
                    foreignMasterAnnounceMessages = 0, f_announce = announce, f_header = header\<rparr>;
               fm = fm\<lparr>fm_records := (fm_records fm)[nat j := r]\<rparr>;
               fm = fm\<lparr>fm_i := (fm_i fm + 1) smod fm_capacity fm\<rparr>
           in c\<lparr>foreignMasterDS := fm\<rparr>))"

section \<open>Updates of the data sets\<close>

definition m1 :: "PtpClock \<Rightarrow> PtpClock" where
  "m1 c = c\<lparr>
     currentDS := \<lparr>c_stepsRemoved = 0, offsetFromMaster = \<lparr>seconds = 0, nanoseconds = 0\<rparr>,
       meanPathDelay = \<lparr>seconds = 0, nanoseconds = 0\<rparr>\<rparr>,
     parentDS := (parentDS c)\<lparr>
       parentPortIdentity := \<lparr>clockIdentity = d_clockIdentity (defaultDS c), portNumber = 0\<rparr>,
       p_grandmasterIdentity := d_clockIdentity (defaultDS c),
       p_grandmasterClockQuality := d_clockQuality (defaultDS c),
       p_grandmasterPriority1 := d_priority1 (defaultDS c),
       p_grandmasterPriority2 := d_priority2 (defaultDS c)\<rparr>,
     timePropertiesDS := \<lparr>t_currentUtcOffset = r_currentUtcOffset (rtOpts c),
       currentUtcOffsetValid = False, leap59 = False, leap61 = False, timeTraceable = False,
       frequencyTraceable = False, ptpTimescale = False, t_timeSource = DEFAULT_TIME_SOURCE\<rparr>\<rparr>"

definition p1 :: "PtpClock \<Rightarrow> PtpClock" where "p1 c = c"

definition s1 :: "MsgHeader \<Rightarrow> MsgAnnounce \<Rightarrow> PtpClock \<Rightarrow> PtpClock" where
  "s1 header announce c =
     (let c = c\<lparr>currentDS := (currentDS c)\<lparr>c_stepsRemoved := i16 (a_stepsRemoved announce + 1)\<rparr>\<rparr>;
          isFromCurrentParent =
            isSamePortIdentity (parentPortIdentity (parentDS c)) (sourcePortIdentity header);
          c = (if \<not> isFromCurrentParent then raise_event MASTER_CLOCK_CHANGED c else c);
          flags = uint (flagField header ! 1)
      in c\<lparr>
        parentDS := (parentDS c)\<lparr>
          parentPortIdentity := sourcePortIdentity header,
          p_grandmasterIdentity := a_grandmasterIdentity announce,
          p_grandmasterClockQuality := a_grandmasterClockQuality announce,
          p_grandmasterPriority1 := a_grandmasterPriority1 announce,
          p_grandmasterPriority2 := a_grandmasterPriority2 announce\<rparr>,
        timePropertiesDS := \<lparr>t_currentUtcOffset = a_currentUtcOffset announce,
          currentUtcOffsetValid = getFlag flags FLAG1_UTC_OFFSET_VALID,
          leap59 = getFlag flags FLAG1_LEAP59, leap61 = getFlag flags FLAG1_LEAP61,
          timeTraceable = getFlag flags FLAG1_TIME_TRACEABLE,
          frequencyTraceable = getFlag flags FLAG1_FREQUENCY_TRACEABLE,
          ptpTimescale = getFlag flags FLAG1_PTP_TIMESCALE,
          t_timeSource = a_timeSource announce\<rparr>\<rparr>)"

text \<open>\<open>copyD0\<close> on the header and the announce message it is given.\<close>

definition copyD0_header :: "PtpClock \<Rightarrow> MsgHeader \<Rightarrow> MsgHeader" where
  "copyD0_header c header = header\<lparr>sourcePortIdentity :=
     (sourcePortIdentity header)\<lparr>clockIdentity := d_clockIdentity (defaultDS c)\<rparr>\<rparr>"

definition copyD0_announce :: "PtpClock \<Rightarrow> MsgAnnounce \<Rightarrow> MsgAnnounce" where
  "copyD0_announce c announce = announce\<lparr>
     a_grandmasterPriority1 := d_priority1 (defaultDS c),
     a_grandmasterIdentity := d_clockIdentity (defaultDS c),
     a_grandmasterClockQuality := d_clockQuality (defaultDS c),
     a_grandmasterPriority2 := d_priority2 (defaultDS c),
     a_stepsRemoved := 0\<rparr>"

section \<open>Comparison and decision\<close>

definition A_better_then_B :: int where "A_better_then_B = 1"
definition B_better_then_A :: int where "B_better_then_A = -1"
definition A_better_by_topology_then_B :: int where "A_better_by_topology_then_B = 1"
definition B_better_by_topology_then_A :: int where "B_better_by_topology_then_A = -1"
definition ERROR_1 :: int where "ERROR_1 = 0"
definition ERROR_2 :: int where "ERROR_2 = 0"

lemmas cmp_result_defs = A_better_then_B_def B_better_then_A_def A_better_by_topology_then_B_def
  B_better_by_topology_then_A_def ERROR_1_def ERROR_2_def

text \<open>The macro \<open>COMPARE_AB_RETURN_BETTER\<close>: return early or go on.\<close>

definition compare_AB :: "(MsgAnnounce \<Rightarrow> int) \<Rightarrow> MsgAnnounce \<Rightarrow> MsgAnnounce \<Rightarrow> int \<Rightarrow> int" where
  "compare_AB cond announceA announceB rest =
     (if cond announceA > cond announceB then B_better_then_A
      else if cond announceB > cond announceA then A_better_then_B else rest)"

text \<open>Figure 28: the two messages describe the same grandmaster.\<close>

definition compare_topology ::
    "MsgHeader \<Rightarrow> MsgAnnounce \<Rightarrow> MsgHeader \<Rightarrow> MsgAnnounce \<Rightarrow> PtpClock \<Rightarrow> int" where
  "compare_topology headerA announceA headerB announceB c =
     (let idA = clockIdentity (sourcePortIdentity headerA);
          idB = clockIdentity (sourcePortIdentity headerB);
          own = clockIdentity (portIdentity (portDS c))
      in if a_stepsRemoved announceA > a_stepsRemoved announceB + 1 then B_better_then_A
         else if a_stepsRemoved announceB > a_stepsRemoved announceA + 1 then A_better_then_B
         else if a_stepsRemoved announceA > a_stepsRemoved announceB then
           (let comp = i16 (memcmp idA own)
            in if comp > 0 then B_better_then_A
               else if comp < 0 then B_better_by_topology_then_A else ERROR_1)
         else if a_stepsRemoved announceA < a_stepsRemoved announceB then
           (let comp = i16 (memcmp idB own)
            in if comp > 0 then A_better_then_B
               else if comp < 0 then A_better_by_topology_then_B else ERROR_1)
         else
           (let comp = i16 (memcmp idA idB)
            in if comp > 0 then B_better_by_topology_then_A
               else if comp < 0 then A_better_by_topology_then_B else ERROR_2))"

definition bmcDataSetComparison ::
    "MsgHeader \<Rightarrow> MsgAnnounce \<Rightarrow> MsgHeader \<Rightarrow> MsgAnnounce \<Rightarrow> PtpClock \<Rightarrow> int" where
  "bmcDataSetComparison headerA announceA headerB announceB c =
     (let grandmasterIdentityComp = memcmp (a_grandmasterIdentity announceA) (a_grandmasterIdentity announceB)
      in if grandmasterIdentityComp \<noteq> 0 then
           compare_AB a_grandmasterPriority1 announceA announceB
          (compare_AB (\<lambda>a. clockClass (a_grandmasterClockQuality a)) announceA announceB
          (compare_AB (\<lambda>a. clockAccuracy (a_grandmasterClockQuality a)) announceA announceB
          (compare_AB (\<lambda>a. offsetScaledLogVariance (a_grandmasterClockQuality a)) announceA announceB
          (compare_AB a_grandmasterPriority2 announceA announceB
          (if grandmasterIdentityComp > 0 then B_better_then_A else A_better_then_B)))))
         else compare_topology headerA announceA headerB announceB c)"

definition bmcStateDecision ::
    "MsgAnnounce \<Rightarrow> MsgHeader \<Rightarrow> MsgAnnounce \<Rightarrow> PtpClock \<Rightarrow> ptp_state \<times> PtpClock" where
  "bmcStateDecision junk header announce c =
     (if fm_count (foreignMasterDS c) = 0 \<and> portState (portDS c) = PTP_LISTENING
      then (PTP_LISTENING, c)
      else
      let c = c\<lparr>msgTmpHeader := copyD0_header c (msgTmpHeader c),
                msgTmp := TmpAnnounce (copyD0_announce c (tmp_announce junk (msgTmp c)))\<rparr>;
          comp = bmcDataSetComparison (msgTmpHeader c) (tmp_announce junk (msgTmp c)) header announce c
      in if clockClass (d_clockQuality (defaultDS c)) < 128 then
           (if comp = A_better_then_B then (PTP_MASTER, m1 c) else (PTP_PASSIVE, p1 c))
         else
           (if comp = A_better_then_B then (PTP_MASTER, m1 c) else (PTP_SLAVE, s1 header announce c)))"

definition bmc_best :: "PtpClock \<Rightarrow> int" where
  "bmc_best c =
     fold (\<lambda>i best.
       if bmcDataSetComparison (f_header (fm_records (foreignMasterDS c) ! nat i))
            (f_announce (fm_records (foreignMasterDS c) ! nat i))
            (f_header (fm_records (foreignMasterDS c) ! nat best))
            (f_announce (fm_records (foreignMasterDS c) ! nat best)) c < 0
       then i else best) [1..fm_count (foreignMasterDS c) - 1] 0"

definition bmc :: "world \<Rightarrow> ptp_state \<times> world" where
  "bmc w =
     (let best = bmc_best (ptp w);
          w = on_clock (\<lambda>c. c\<lparr>foreignMasterDS := (foreignMasterDS c)\<lparr>fm_best := best\<rparr>\<rparr>) w;
          (junk, w) = ask e_announce w;
          r = fm_records (foreignMasterDS (ptp w)) ! nat best;
          (s, c) = bmcStateDecision junk (f_header r) (f_announce r) (ptp w)
      in (s, w\<lparr>ptp := c\<rparr>))"

section \<open>Lemmas\<close>

subsection \<open>The comparison\<close>

lemma memcmp_bound: "\<bar>memcmp as bs\<bar> \<le> 255"
proof (induction as bs rule: memcmp.induct)
  case (1 a as b bs)
  have "0 \<le> uint a" "uint a \<le> 255" "0 \<le> uint b" "uint b \<le> 255"
    using uint_lt2p [of a] uint_lt2p [of b] by auto
  then have "\<bar>uint a - uint b\<bar> \<le> 255" by linarith
  then show ?case using 1 by simp
qed simp_all

lemma i16_memcmp [simp]: "i16 (memcmp as bs) = memcmp as bs"
  using memcmp_bound [of as bs] by (simp add: is_i16_def abs_le_iff)

lemma memcmp_lex: "length as = length bs \<Longrightarrow> memcmp as bs < 0 \<longleftrightarrow> map uint as < map uint bs"
  by (induction as bs rule: memcmp.induct) (auto simp: word_uint_eq_iff)

lemma compare_AB_antisym:
  "r = - r' \<Longrightarrow> compare_AB f aA aB r = - compare_AB f aB aA r'"
  by (simp add: compare_AB_def cmp_result_defs)

lemma compare_topology_antisym:
  "compare_topology hA aA hB aB c = - compare_topology hB aB hA aA c"
  using memcmp_swap [of "clockIdentity (sourcePortIdentity hA)" "clockIdentity (sourcePortIdentity hB)"]
  by (cases "a_stepsRemoved aA" "a_stepsRemoved aB" rule: linorder_cases)
    (simp_all add: compare_topology_def cmp_result_defs Let_def)

lemma comparison_antisym:
  "bmcDataSetComparison hA aA hB aB c = - bmcDataSetComparison hB aB hA aA c"
proof (cases "memcmp (a_grandmasterIdentity aA) (a_grandmasterIdentity aB) = 0")
  case True
  then show ?thesis
    using memcmp_swap [of "a_grandmasterIdentity aA" "a_grandmasterIdentity aB"]
      compare_topology_antisym [of hA aA hB aB c]
    by (simp add: bmcDataSetComparison_def)
next
  case False
  then have n: "memcmp (a_grandmasterIdentity aB) (a_grandmasterIdentity aA) \<noteq> 0"
    using memcmp_swap [of "a_grandmasterIdentity aA" "a_grandmasterIdentity aB"] by simp
  have "(if memcmp (a_grandmasterIdentity aA) (a_grandmasterIdentity aB) > 0
      then B_better_then_A else A_better_then_B) =
      - (if memcmp (a_grandmasterIdentity aB) (a_grandmasterIdentity aA) > 0
      then B_better_then_A else A_better_then_B)"
    using memcmp_swap [of "a_grandmasterIdentity aA" "a_grandmasterIdentity aB"] False
    by (simp add: cmp_result_defs)
  then show ?thesis
    using False n by (simp only: bmcDataSetComparison_def Let_def not_False_eq_True if_True)
      (intro compare_AB_antisym, rule refl)
qed

text \<open>
  The order of Figure 27 of the standard: lexicographic in the attributes of the grandmaster, lower
  is better.
\<close>

datatype gm_rank =
  Rank (rank_priority1: int) (rank_class: int) (rank_accuracy: int) (rank_variance: int)
    (rank_priority2: int) (rank_identity: "int list")

definition attributes :: "gm_rank \<Rightarrow> int \<times> int \<times> int \<times> int \<times> int \<times> int list" where
  "attributes r = (rank_priority1 r, rank_class r, rank_accuracy r, rank_variance r,
     rank_priority2 r, rank_identity r)"

instantiation gm_rank :: linorder
begin

definition less_eq_gm_rank :: "gm_rank \<Rightarrow> gm_rank \<Rightarrow> bool" where
  "less_eq_gm_rank r s \<longleftrightarrow> attributes r \<le> attributes s"

definition less_gm_rank :: "gm_rank \<Rightarrow> gm_rank \<Rightarrow> bool" where
  "less_gm_rank r s \<longleftrightarrow> attributes r < attributes s"

instance
proof
  fix r s t :: gm_rank
  show "r < s \<longleftrightarrow> r \<le> s \<and> \<not> s \<le> r" by (auto simp: less_gm_rank_def less_eq_gm_rank_def)
  show "r \<le> r" by (simp add: less_eq_gm_rank_def)
  show "r \<le> t" if "r \<le> s" "s \<le> t" using that by (auto simp: less_eq_gm_rank_def)
  show "r = s" if "r \<le> s" "s \<le> r"
  proof -
    have "attributes r = attributes s" using that by (simp add: less_eq_gm_rank_def)
    then show ?thesis by (cases r; cases s) (simp add: attributes_def)
  qed
  show "r \<le> s \<or> s \<le> r" by (auto simp: less_eq_gm_rank_def)
qed

end

lemma rank_less [simp]:
  "Rank p c a v q i < Rank p' c' a' v' q' i' \<longleftrightarrow> (p, c, a, v, q, i) < (p', c', a', v', q', i')"
  by (simp add: less_gm_rank_def attributes_def)

definition gm_key :: "MsgAnnounce \<Rightarrow> gm_rank" where
  "gm_key a = Rank (a_grandmasterPriority1 a) (clockClass (a_grandmasterClockQuality a))
     (clockAccuracy (a_grandmasterClockQuality a))
     (offsetScaledLogVariance (a_grandmasterClockQuality a)) (a_grandmasterPriority2 a)
     (map uint (a_grandmasterIdentity a))"

definition gm_id_ok :: "MsgAnnounce \<Rightarrow> bool" where
  "gm_id_ok a \<longleftrightarrow> length (a_grandmasterIdentity a) = CLOCK_IDENTITY_LENGTH"

lemma comparison_key:
  assumes "gm_id_ok aA" "gm_id_ok aB" "a_grandmasterIdentity aA \<noteq> a_grandmasterIdentity aB"
  shows "bmcDataSetComparison hA aA hB aB c = (if gm_key aA < gm_key aB then 1 else -1)"
proof -
  have l: "length (a_grandmasterIdentity aA) = length (a_grandmasterIdentity aB)"
    using assms by (simp add: gm_id_ok_def)
  have m: "memcmp (a_grandmasterIdentity aA) (a_grandmasterIdentity aB) \<noteq> 0"
    "memcmp (a_grandmasterIdentity aA) (a_grandmasterIdentity aB) < 0 \<longleftrightarrow>
      map uint (a_grandmasterIdentity aA) < map uint (a_grandmasterIdentity aB)"
    using memcmp_zero [OF l] memcmp_lex [OF l] assms(3) by auto
  show ?thesis
    using m by (auto simp: bmcDataSetComparison_def compare_AB_def cmp_result_defs Let_def gm_key_def
        less_prod_simp not_less)
qed

text \<open>The variance of an announce as the unsigned 16-bit number that was sent.\<close>

definition sent_variance :: "MsgAnnounce \<Rightarrow> int" where
  "sent_variance a = offsetScaledLogVariance (a_grandmasterClockQuality a) mod 65536"

lemma large_variance_is_negative:
  assumes "is_i16 (offsetScaledLogVariance (a_grandmasterClockQuality a))"
  shows "0x8000 \<le> sent_variance a \<longleftrightarrow> offsetScaledLogVariance (a_grandmasterClockQuality a) < 0"
proof -
  let ?v = "offsetScaledLogVariance (a_grandmasterClockQuality a)"
  have b: "-32768 \<le> ?v" "?v < 32768" using assms by (simp_all add: is_i16_def)
  have "sent_variance a = (if ?v < 0 then ?v + 65536 else ?v)"
  proof (cases "?v < 0")
    case True
    have "?v mod 65536 = (?v + 65536) mod 65536" by simp
    also have "\<dots> = ?v + 65536" using True b by (intro mod_pos_pos_trivial) auto
    finally show ?thesis using True by (simp add: sent_variance_def)
  qed (use b in \<open>simp add: sent_variance_def\<close>)
  then show ?thesis using b by auto
qed

lemma gm_key_distinct: "a_grandmasterIdentity aA \<noteq> a_grandmasterIdentity aB \<Longrightarrow> gm_key aA \<noteq> gm_key aB"
  by (auto simp: gm_key_def dest!: map_injective [rotated])

text \<open>What the comparison reads: only what \<open>copyD0\<close> sets.\<close>

lemma comparison_copyD0:
  "bmcDataSetComparison (copyD0_header c h) (copyD0_announce c a) hB aB c' =
   bmcDataSetComparison (copyD0_header c h') (copyD0_announce c a') hB aB c'"
  by (simp add: bmcDataSetComparison_def compare_AB_def compare_topology_def copyD0_header_def
      copyD0_announce_def Let_def)

subsection \<open>The record that \<open>bmc\<close> selects\<close>

definition fm_ann :: "PtpClock \<Rightarrow> nat \<Rightarrow> MsgAnnounce" where
  "fm_ann c i = f_announce (fm_records (foreignMasterDS c) ! i)"

definition fm_hdr :: "PtpClock \<Rightarrow> nat \<Rightarrow> MsgHeader" where
  "fm_hdr c i = f_header (fm_records (foreignMasterDS c) ! i)"

fun best_upto :: "PtpClock \<Rightarrow> nat \<Rightarrow> nat" where
  "best_upto c 0 = 0"
| "best_upto c (Suc n) =
     (if n = 0 then 0
      else if bmcDataSetComparison (fm_hdr c n) (fm_ann c n) (fm_hdr c (best_upto c n))
             (fm_ann c (best_upto c n)) c < 0
      then n else best_upto c n)"

lemma bmc_best_upto: "0 \<le> fm_count (foreignMasterDS c) \<Longrightarrow>
    bmc_best c = int (best_upto c (nat (fm_count (foreignMasterDS c))))"
proof -
  define f where "f = (\<lambda>i best. if bmcDataSetComparison (fm_hdr c (nat i)) (fm_ann c (nat i))
      (fm_hdr c (nat best)) (fm_ann c (nat best)) c < 0 then i else best)"
  have step: "fold f [1..int n - 1] 0 = int (best_upto c n)" for n
  proof (induction n)
    case (Suc n)
    show ?case
    proof (cases "n = 0")
      case False
      then have "[1..int (Suc n) - 1] = [1..int n - 1] @ [int n]" using upto_rec2 [of 1 "int n"] by simp
      then have "fold f [1..int (Suc n) - 1] 0 = f (int n) (int (best_upto c n))" using Suc by simp
      then show ?thesis using False by (simp add: f_def)
    qed simp
  qed simp
  have "bmc_best c = fold f [1..fm_count (foreignMasterDS c) - 1] 0"
    unfolding bmc_best_def f_def fm_hdr_def fm_ann_def ..
  moreover assume "0 \<le> fm_count (foreignMasterDS c)"
  ultimately show ?thesis using step [of "nat (fm_count (foreignMasterDS c))"] by simp
qed

lemma best_upto_range: "0 < n \<Longrightarrow> best_upto c n < n"
  by (induction n) (auto split: if_splits)

definition distinct_masters :: "PtpClock \<Rightarrow> nat \<Rightarrow> bool" where
  "distinct_masters c n \<longleftrightarrow> (\<forall>i < n. gm_id_ok (fm_ann c i) \<and>
     (\<forall>j < i. a_grandmasterIdentity (fm_ann c i) \<noteq> a_grandmasterIdentity (fm_ann c j)))"

lemma best_upto_worst:
  "distinct_masters c n \<Longrightarrow> i < n \<Longrightarrow> gm_key (fm_ann c i) \<le> gm_key (fm_ann c (best_upto c n))"
proof (induction n arbitrary: i)
  case (Suc n)
  show ?case
  proof (cases "n = 0")
    case False
    define b where "b = best_upto c n"
    have b: "b < n" using False best_upto_range b_def by simp
    have dm: "distinct_masters c n" using Suc.prems(1) by (simp add: distinct_masters_def)
    have cmp: "bmcDataSetComparison (fm_hdr c n) (fm_ann c n) (fm_hdr c b) (fm_ann c b) c =
        (if gm_key (fm_ann c n) < gm_key (fm_ann c b) then 1 else -1)"
      using Suc.prems(1) b by (intro comparison_key) (auto simp: distinct_masters_def)
    show ?thesis
    proof (cases "i = n")
      case True
      then show ?thesis using cmp False by (auto simp: b_def [symmetric])
    next
      case i: False
      then have "gm_key (fm_ann c i) \<le> gm_key (fm_ann c b)"
        using Suc.IH [OF dm] Suc.prems(2) b_def by auto
      then show ?thesis using cmp False by (auto simp: b_def [symmetric] split: if_splits)
    qed
  qed (use Suc.prems in simp)
qed simp

subsection \<open>The foreign master table\<close>

text \<open>Indices in range, and the first \<open>fm_count\<close> records are the ones written.\<close>

definition fm_ok :: "ForeignMasterDS \<Rightarrow> bool" where
  "fm_ok fm \<longleftrightarrow> length (fm_records fm) = nat (fm_capacity fm) \<and> 0 < fm_capacity fm \<and>
     fm_capacity fm \<le> 32767 \<and> 0 \<le> fm_count fm \<and> fm_count fm \<le> fm_capacity fm \<and>
     0 \<le> fm_i fm \<and> fm_i fm < fm_capacity fm \<and> 0 \<le> fm_best fm \<and> fm_best fm < fm_capacity fm"

definition fm_dense :: "ForeignMasterDS \<Rightarrow> bool" where
  "fm_dense fm \<longleftrightarrow> (fm_count fm < fm_capacity fm \<longrightarrow> fm_i fm = fm_count fm)"

text \<open>No two records of the same port.\<close>

definition fm_distinct :: "ForeignMasterDS \<Rightarrow> bool" where
  "fm_distinct fm \<longleftrightarrow> (\<forall>i < nat (fm_count fm). \<forall>j < i.
     foreignMasterPortIdentity (fm_records fm ! i) \<noteq> foreignMasterPortIdentity (fm_records fm ! j))"

definition fm_ids_ok :: "ForeignMasterDS \<Rightarrow> bool" where
  "fm_ids_ok fm \<longleftrightarrow> (\<forall>i < nat (fm_count fm). wf_PortIdentity (foreignMasterPortIdentity (fm_records fm ! i)))"

lemma isSame_iff:
  assumes "wf_PortIdentity p" "wf_PortIdentity q"
  shows "isSamePortIdentity p q \<longleftrightarrow> p = q"
  using assms by (cases p; cases q)
    (auto simp: isSamePortIdentity_def wf_PortIdentity_def memcmp_zero)

lemma find_foreign_range:
  assumes "find_foreign fm h n j = Some k" "0 \<le> j" "j < N" "fm_count fm \<le> N" "n \<le> nat (fm_count fm)"
  shows "0 \<le> k \<and> k < N \<and> isSamePortIdentity (sourcePortIdentity h) (foreignMasterPortIdentity (fm_records fm ! nat k))"
  using assms
proof (induction fm h n j rule: find_foreign.induct)
  case (2 fm h n j)
  show ?case
  proof (cases "isSamePortIdentity (sourcePortIdentity h) (foreignMasterPortIdentity (fm_records fm ! nat j))")
    case True
    then show ?thesis using 2 by simp
  next
    case False
    have c: "0 < fm_count fm" using 2(6) by simp
    have "0 \<le> (j + 1) smod fm_count fm \<and> (j + 1) smod fm_count fm < N"
      using order_less_le_trans [OF pos_mod_bound [OF c] 2(5), of "j + 1"] 2(3) c by (simp add: smod_pos)
    then show ?thesis using 2 False by simp
  qed
qed simp

text \<open>The search visits every record once, from \<open>fm_best\<close> on.\<close>

lemma find_foreign_none:
  assumes "find_foreign fm h n j = None" "0 \<le> j" "j < fm_count fm"
    "nat ((i - j) mod fm_count fm) < n" "0 \<le> i" "i < fm_count fm"
  shows "\<not> isSamePortIdentity (sourcePortIdentity h) (foreignMasterPortIdentity (fm_records fm ! nat i))"
  using assms
proof (induction fm h n j rule: find_foreign.induct)
  case (2 fm h n j)
  let ?c = "fm_count fm"
  show ?case
  proof (cases "i = j")
    case True
    then show ?thesis using 2(2) by (auto split: if_splits)
  next
    case False
    have c: "0 < ?c" using 2(3,4) by simp
    define j' where "j' = (j + 1) smod ?c"
    have j': "j' = (j + 1) mod ?c" using 2(3) c by (simp add: j'_def smod_pos)
    have m: "(i - j) mod ?c \<noteq> 0"
    proof
      assume "(i - j) mod ?c = 0"
      then have "i mod ?c = j mod ?c" by (simp add: mod_eq_dvd_iff mod_eq_0_iff_dvd)
      then show False using False 2(3,4,6,7) by simp
    qed
    have "(i - j') mod ?c = (i - j - 1) mod ?c" unfolding j' by (simp add: mod_diff_right_eq algebra_simps)
    also have "\<dots> = ((i - j) mod ?c - 1) mod ?c" by (simp add: mod_diff_left_eq)
    also have "\<dots> = (i - j) mod ?c - 1"
      using m c pos_mod_sign [OF c, of "i - j"] pos_mod_bound [OF c, of "i - j"]
      by (intro mod_pos_pos_trivial) linarith+
    finally have "nat ((i - j') mod ?c) < n"
      using 2(5) m pos_mod_sign [OF c, of "i - j"] by linarith
    moreover have "0 \<le> j'" "j' < ?c" using c by (simp_all add: j')
    ultimately show ?thesis
      using 2 by (auto simp: j'_def split: if_splits)
  qed
qed simp

lemma addForeign_cases:
  obtains (known) j where "find_foreign (foreignMasterDS c) h (nat (fm_count (foreignMasterDS c)))
        (fm_best (foreignMasterDS c)) = Some j"
      "foreignMasterDS (addForeign h a c) = (foreignMasterDS c)\<lparr>fm_records :=
        (fm_records (foreignMasterDS c))[nat j := (fm_records (foreignMasterDS c) ! nat j)
          \<lparr>foreignMasterAnnounceMessages := i16 (foreignMasterAnnounceMessages
              (fm_records (foreignMasterDS c) ! nat j) + 1), f_header := h, f_announce := a\<rparr>]\<rparr>"
  | (new) "find_foreign (foreignMasterDS c) h (nat (fm_count (foreignMasterDS c)))
        (fm_best (foreignMasterDS c)) = None"
      "foreignMasterDS (addForeign h a c) = (foreignMasterDS c)\<lparr>
        fm_records := (fm_records (foreignMasterDS c))[nat (fm_i (foreignMasterDS c)) :=
          \<lparr>foreignMasterPortIdentity = sourcePortIdentity h, foreignMasterAnnounceMessages = 0,
           f_announce = a, f_header = h\<rparr>],
        fm_count := (if fm_count (foreignMasterDS c) < fm_capacity (foreignMasterDS c)
          then i16 (fm_count (foreignMasterDS c) + 1) else fm_count (foreignMasterDS c)),
        fm_i := (fm_i (foreignMasterDS c) + 1) smod fm_capacity (foreignMasterDS c)\<rparr>"
proof (cases "find_foreign (foreignMasterDS c) h (nat (fm_count (foreignMasterDS c)))
    (fm_best (foreignMasterDS c))")
  case None
  then show ?thesis by (intro new) (simp_all add: addForeign_def Let_def)
next
  case (Some j)
  then show ?thesis by (intro known [of j]) (simp_all add: addForeign_def Let_def)
qed

lemma addForeign_ok:
  assumes "fm_ok (foreignMasterDS c)"
  shows "fm_ok (foreignMasterDS (addForeign h a c))"
proof (cases rule: addForeign_cases [where c = c and h = h and a = a, case_names known new])
  case (known j)
  then show ?thesis using assms by (simp add: fm_ok_def)
next
  case new
  have "0 \<le> (fm_i (foreignMasterDS c) + 1) mod fm_capacity (foreignMasterDS c)"
    "(fm_i (foreignMasterDS c) + 1) mod fm_capacity (foreignMasterDS c) < fm_capacity (foreignMasterDS c)"
    using assms by (simp_all add: fm_ok_def)
  then show ?thesis using assms new by (auto simp: fm_ok_def smod_pos is_i16_def)
qed

lemma addForeign_dense:
  assumes "fm_ok (foreignMasterDS c)" "fm_dense (foreignMasterDS c)"
  shows "fm_dense (foreignMasterDS (addForeign h a c))"
proof (cases rule: addForeign_cases [where c = c and h = h and a = a, case_names known new])
  case (known j)
  then show ?thesis using assms by (simp add: fm_dense_def)
next
  case new
  then show ?thesis using assms
    by (auto simp: fm_ok_def fm_dense_def smod_pos is_i16_def)
qed

text \<open>The announced master is in the table afterwards, with the data it announced.\<close>

lemma addForeign_stored:
  assumes "fm_ok (foreignMasterDS c)" "fm_dense (foreignMasterDS c)"
    "fm_best (foreignMasterDS c) < max 1 (fm_count (foreignMasterDS c))"
  shows "\<exists>j < nat (fm_count (foreignMasterDS (addForeign h a c))).
     f_header (fm_records (foreignMasterDS (addForeign h a c)) ! j) = h \<and>
     f_announce (fm_records (foreignMasterDS (addForeign h a c)) ! j) = a"
proof (cases rule: addForeign_cases [where c = c and h = h and a = a, case_names known new])
  case (known j)
  have "0 < fm_count (foreignMasterDS c)" using known(1) assms(1)
    by (cases "nat (fm_count (foreignMasterDS c))") (auto simp: fm_ok_def)
  then have "0 \<le> j \<and> j < fm_count (foreignMasterDS c)"
    using find_foreign_range [OF known(1), of "fm_count (foreignMasterDS c)"] assms
    by (auto simp: fm_ok_def)
  then show ?thesis
    using known assms(1) by (intro exI [of _ "nat j"]) (auto simp: fm_ok_def nat_less_iff)
next
  case new
  then show ?thesis
    using assms(1,2) by (intro exI [of _ "nat (fm_i (foreignMasterDS c))"])
      (auto simp: fm_ok_def fm_dense_def is_i16_def)
qed


text \<open>No port gets a second record.\<close>

lemma addForeign_distinct:
  assumes ok: "fm_ok (foreignMasterDS c)" "fm_dense (foreignMasterDS c)"
    and best: "fm_best (foreignMasterDS c) < max 1 (fm_count (foreignMasterDS c))"
    and d: "fm_distinct (foreignMasterDS c)" "fm_ids_ok (foreignMasterDS c)"
    and h: "wf_PortIdentity (sourcePortIdentity h)"
  shows "fm_distinct (foreignMasterDS (addForeign h a c))" "fm_ids_ok (foreignMasterDS (addForeign h a c))"
proof -
  let ?fm = "foreignMasterDS c"
  have "fm_distinct (foreignMasterDS (addForeign h a c)) \<and> fm_ids_ok (foreignMasterDS (addForeign h a c))"
  proof (cases rule: addForeign_cases [where c = c and h = h and a = a, case_names known new])
    case (known j)
    have same: "foreignMasterPortIdentity (fm_records (foreignMasterDS (addForeign h a c)) ! i) =
        foreignMasterPortIdentity (fm_records ?fm ! i)" for i
      using known(2) by (cases "nat j < length (fm_records ?fm)")
        (auto simp: nth_list_update list_update_beyond)
    then show ?thesis using d known(2) by (simp add: fm_distinct_def fm_ids_ok_def)
  next
    case new
    have fresh: "foreignMasterPortIdentity (fm_records ?fm ! k) \<noteq> sourcePortIdentity h"
      if "k < nat (fm_count ?fm)" for k
    proof -
      have "\<not> isSamePortIdentity (sourcePortIdentity h) (foreignMasterPortIdentity (fm_records ?fm ! nat (int k)))"
        using that ok best new(1)
        by (intro find_foreign_none [OF new(1)]) (auto simp: fm_ok_def nat_less_iff)
      then show ?thesis using isSame_iff [OF h] d(2) that by (simp add: fm_ids_ok_def)
    qed
    define n where "n = nat (fm_i ?fm)"
    have n: "n < length (fm_records ?fm)" "nat (fm_count ?fm) \<le> length (fm_records ?fm)"
      "fm_count ?fm < fm_capacity ?fm \<Longrightarrow> n = nat (fm_count ?fm)"
      "fm_count ?fm < fm_capacity ?fm \<Longrightarrow> i16 (fm_count ?fm + 1) = fm_count ?fm + 1"
      using ok by (auto simp: fm_ok_def fm_dense_def n_def is_i16_def)
    define N where "N = nat (fm_count (foreignMasterDS (addForeign h a c)))"
    have N: "N \<le> Suc (nat (fm_count ?fm))" "k < N \<Longrightarrow> k \<noteq> n \<Longrightarrow> k < nat (fm_count ?fm)" for k
    proof -
      have "N = (if fm_count ?fm < fm_capacity ?fm then Suc n else nat (fm_count ?fm))"
        using n(3,4) ok by (simp add: N_def new(2) fm_ok_def nat_add_distrib)
      then show "N \<le> Suc (nat (fm_count ?fm))" "k < N \<Longrightarrow> k \<noteq> n \<Longrightarrow> k < nat (fm_count ?fm)"
        using n(3) by (auto split: if_splits)
    qed
    have id: "foreignMasterPortIdentity (fm_records (foreignMasterDS (addForeign h a c)) ! k) =
        (if k = n then sourcePortIdentity h else foreignMasterPortIdentity (fm_records ?fm ! k))" for k
      using n(1) by (simp add: new(2) n_def [symmetric] nth_list_update)
    have "fm_distinct (foreignMasterDS (addForeign h a c))"
      unfolding fm_distinct_def id N_def [symmetric]
    proof (intro allI impI)
      fix i j
      assume ij: "i < N" "j < i"
      then have "i \<noteq> n \<Longrightarrow> i < nat (fm_count ?fm)" "j \<noteq> n \<Longrightarrow> j < nat (fm_count ?fm)"
        using N(2) by simp_all
      then show "(if i = n then sourcePortIdentity h else foreignMasterPortIdentity (fm_records ?fm ! i)) \<noteq>
          (if j = n then sourcePortIdentity h else foreignMasterPortIdentity (fm_records ?fm ! j))"
        using ij(2) fresh [of i] fresh [of j] d(1) by (auto simp: fm_distinct_def)
    qed
    moreover have "fm_ids_ok (foreignMasterDS (addForeign h a c))"
      using N(2) d(2) h by (simp add: fm_ids_ok_def id N_def [symmetric])
    ultimately show ?thesis ..
  qed
  then show "fm_distinct (foreignMasterDS (addForeign h a c))" "fm_ids_ok (foreignMasterDS (addForeign h a c))"
    by simp_all
qed

subsection \<open>The decision\<close>

lemma bmc_frame [simp]:
  "portDS (m1 c) = portDS c" "defaultDS (m1 c) = defaultDS c"
  "recommendedState (m1 c) = recommendedState c" "foreignMasterDS (m1 c) = foreignMasterDS c"
  "msgObuf (m1 c) = msgObuf c" "netPath (m1 c) = netPath c" "servo (m1 c) = servo c"
  "rtOpts (m1 c) = rtOpts c" "observedDrift (m1 c) = observedDrift c" "events (m1 c) = events c"
  "messageActivity (m1 c) = messageActivity c"
  "portDS (s1 h a c) = portDS c" "defaultDS (s1 h a c) = defaultDS c"
  "recommendedState (s1 h a c) = recommendedState c" "foreignMasterDS (s1 h a c) = foreignMasterDS c"
  "msgObuf (s1 h a c) = msgObuf c" "netPath (s1 h a c) = netPath c" "servo (s1 h a c) = servo c"
  "rtOpts (s1 h a c) = rtOpts c" "observedDrift (s1 h a c) = observedDrift c"
  "messageActivity (s1 h a c) = messageActivity c"
  unfolding m1_def s1_def Let_def by (simp_all add: raise_event_def)

lemma addForeign_frame [simp]:
  "portDS (addForeign h a c) = portDS c" "defaultDS (addForeign h a c) = defaultDS c"
  "recommendedState (addForeign h a c) = recommendedState c" "msgObuf (addForeign h a c) = msgObuf c"
  "netPath (addForeign h a c) = netPath c" "servo (addForeign h a c) = servo c"
  "rtOpts (addForeign h a c) = rtOpts c" "observedDrift (addForeign h a c) = observedDrift c"
  "events (addForeign h a c) = events c" "messageActivity (addForeign h a c) = messageActivity c"
  by (simp_all add: addForeign_def Let_def split: option.splits)

text \<open>Own data set against a foreign one: the comparison of the decision.\<close>

definition own_better :: "PtpClock \<Rightarrow> MsgHeader \<Rightarrow> MsgAnnounce \<Rightarrow> bool" where
  "own_better c h a \<longleftrightarrow> bmcDataSetComparison (copyD0_header c (msgTmpHeader c))
     (copyD0_announce c a) h a c = A_better_then_B"

lemma comparison_clock:
  "portDS c = portDS c' \<Longrightarrow> bmcDataSetComparison hA aA hB aB c = bmcDataSetComparison hA aA hB aB c'"
proof -
  assume "portDS c = portDS c'"
  then have "compare_topology hA aA hB aB c = compare_topology hA aA hB aB c'"
    by (simp add: compare_topology_def)
  then show ?thesis by (simp add: bmcDataSetComparison_def Let_def)
qed

lemma bmcStateDecision_unfold:
  "bmcStateDecision junk h a c =
     (if fm_count (foreignMasterDS c) = 0 \<and> portState (portDS c) = PTP_LISTENING then (PTP_LISTENING, c)
      else let c' = c\<lparr>msgTmpHeader := copyD0_header c (msgTmpHeader c),
                msgTmp := TmpAnnounce (copyD0_announce c (tmp_announce junk (msgTmp c)))\<rparr>
           in if own_better c h a then (PTP_MASTER, m1 c')
              else if clockClass (d_clockQuality (defaultDS c)) < 128 then (PTP_PASSIVE, p1 c')
              else (PTP_SLAVE, s1 h a c'))"
proof -
  have "bmcDataSetComparison (copyD0_header c (msgTmpHeader c))
      (copyD0_announce c (tmp_announce junk (msgTmp c))) h a
      (c\<lparr>msgTmpHeader := copyD0_header c (msgTmpHeader c),
         msgTmp := TmpAnnounce (copyD0_announce c (tmp_announce junk (msgTmp c)))\<rparr>) =
    bmcDataSetComparison (copyD0_header c (msgTmpHeader c)) (copyD0_announce c a) h a c"
    using comparison_copyD0 [of c "msgTmpHeader c" "tmp_announce junk (msgTmp c)" h a c "msgTmpHeader c" a]
    by (subst comparison_clock [where c' = c]) simp_all
  then show ?thesis by (simp add: bmcStateDecision_def own_better_def Let_def)
qed

lemma bmcStateDecision_result:
  "fst (bmcStateDecision junk h a c) \<in> {PTP_LISTENING, PTP_MASTER, PTP_PASSIVE, PTP_SLAVE}"
  "fst (bmcStateDecision junk h a c) = PTP_LISTENING \<Longrightarrow> portState (portDS c) = PTP_LISTENING"
  "fst (bmcStateDecision junk h a c) = PTP_PASSIVE \<Longrightarrow> clockClass (d_clockQuality (defaultDS c)) < 128"
  "fst (bmcStateDecision junk h a c) = PTP_SLAVE \<Longrightarrow> \<not> clockClass (d_clockQuality (defaultDS c)) < 128"
  by (auto simp: bmcStateDecision_unfold Let_def split: if_splits)

lemma bmcStateDecision_frame [simp]:
  "portDS (snd (bmcStateDecision junk h a c)) = portDS c"
  "defaultDS (snd (bmcStateDecision junk h a c)) = defaultDS c"
  "recommendedState (snd (bmcStateDecision junk h a c)) = recommendedState c"
  "foreignMasterDS (snd (bmcStateDecision junk h a c)) = foreignMasterDS c"
  "msgObuf (snd (bmcStateDecision junk h a c)) = msgObuf c"
  "netPath (snd (bmcStateDecision junk h a c)) = netPath c"
  "servo (snd (bmcStateDecision junk h a c)) = servo c"
  "rtOpts (snd (bmcStateDecision junk h a c)) = rtOpts c"
  "observedDrift (snd (bmcStateDecision junk h a c)) = observedDrift c"
  by (simp_all add: bmcStateDecision_unfold Let_def p1_def)

lemma bmc_best_range:
  assumes "fm_ok (foreignMasterDS c)"
  shows "0 \<le> bmc_best c" "bmc_best c < max 1 (fm_count (foreignMasterDS c))"
    "bmc_best c < fm_capacity (foreignMasterDS c)"
proof -
  have n: "0 \<le> fm_count (foreignMasterDS c)" "fm_count (foreignMasterDS c) \<le> fm_capacity (foreignMasterDS c)"
    "0 < fm_capacity (foreignMasterDS c)" using assms by (simp_all add: fm_ok_def)
  show "0 \<le> bmc_best c" using bmc_best_upto [OF n(1)] by simp
  show lt: "bmc_best c < max 1 (fm_count (foreignMasterDS c))"
  proof (cases "fm_count (foreignMasterDS c) = 0")
    case True
    then show ?thesis using bmc_best_upto [OF n(1)] by simp
  next
    case False
    then show ?thesis
      using best_upto_range [of "nat (fm_count (foreignMasterDS c))" c] bmc_best_upto [OF n(1)] n(1)
      by (simp add: less_max_iff_disj nat_less_iff flip: zless_nat_eq_int_zless)
  qed
  then show "bmc_best c < fm_capacity (foreignMasterDS c)" using n by linarith
qed

lemma bmc_world [simp]:
  "timers (snd (bmc w)) = timers w" "env (snd (bmc w)) = env w" "sent (snd (bmc w)) = sent w"
  "freed (snd (bmc w)) = freed w" "pcbs (snd (bmc w)) = pcbs w" "next_pcb (snd (bmc w)) = next_pcb w"
  "clock_cmds (snd (bmc w)) = clock_cmds w"
  "portDS (ptp (snd (bmc w))) = portDS (ptp w)" "defaultDS (ptp (snd (bmc w))) = defaultDS (ptp w)"
  "recommendedState (ptp (snd (bmc w))) = recommendedState (ptp w)"
  "msgObuf (ptp (snd (bmc w))) = msgObuf (ptp w)" "netPath (ptp (snd (bmc w))) = netPath (ptp w)"
  "servo (ptp (snd (bmc w))) = servo (ptp w)" "rtOpts (ptp (snd (bmc w))) = rtOpts (ptp w)"
  "observedDrift (ptp (snd (bmc w))) = observedDrift (ptp w)"
  "foreignMasterDS (ptp (snd (bmc w))) = (foreignMasterDS (ptp w))\<lparr>fm_best := bmc_best (ptp w)\<rparr>"
  by (simp_all add: bmc_def Let_def split_beta)

lemma bmc_result:
  "fst (bmc w) \<in> {PTP_LISTENING, PTP_MASTER, PTP_PASSIVE, PTP_SLAVE}"
  "fst (bmc w) = PTP_LISTENING \<Longrightarrow> port_state w = PTP_LISTENING"
  "fst (bmc w) = PTP_PASSIVE \<Longrightarrow> clockClass (d_clockQuality (defaultDS (ptp w))) < 128"
  "fst (bmc w) = PTP_SLAVE \<Longrightarrow> \<not> clockClass (d_clockQuality (defaultDS (ptp w))) < 128"
  using bmcStateDecision_result(1)
  by (auto simp: bmc_def Let_def split_beta port_state_def dest: bmcStateDecision_result(2-4))

section \<open>Properties\<close>

text \<open>A concrete table of two masters, the first with the better (smaller) first priority.\<close>

definition sample_ann :: "int \<Rightarrow> octet \<Rightarrow> MsgAnnounce" where
  "sample_ann prio b = zero_announce\<lparr>a_grandmasterPriority1 := prio, a_grandmasterIdentity := [b, 0, 0, 0, 0, 0, 0, 0]\<rparr>"

definition sample_hdr :: "octet \<Rightarrow> MsgHeader" where
  "sample_hdr b = zero_header\<lparr>sourcePortIdentity := \<lparr>clockIdentity = [b, 0, 0, 0, 0, 0, 0, 0], portNumber = 1\<rparr>\<rparr>"

definition sample_master :: "int \<Rightarrow> octet \<Rightarrow> ForeignMasterRecord" where
  "sample_master prio b = \<lparr>foreignMasterPortIdentity = sourcePortIdentity (sample_hdr b),
     foreignMasterAnnounceMessages = 0, f_announce = sample_ann prio b, f_header = sample_hdr b\<rparr>"

definition with_variance :: "int \<Rightarrow> MsgAnnounce \<Rightarrow> MsgAnnounce" where
  "with_variance v a = a\<lparr>a_grandmasterClockQuality := (a_grandmasterClockQuality a)\<lparr>offsetScaledLogVariance := v\<rparr>\<rparr>"

definition two_masters :: PtpClock where
  "two_masters = zero_clock\<lparr>foreignMasterDS := \<lparr>fm_records = [sample_master 100 1, sample_master 200 2,
     zero_record], fm_count = 2, fm_capacity = 3, fm_i = 2, fm_best = 0\<rparr>\<rparr>"

lemmas sample_master_defs = sample_ann_def sample_hdr_def sample_master_def zero_record_def
  zero_announce_def zero_header_def zero_port_def two_masters_def

lemma two_masters_fm:
  "fm_ok (foreignMasterDS two_masters)" "fm_dense (foreignMasterDS two_masters)"
  "fm_best (foreignMasterDS two_masters) < max 1 (fm_count (foreignMasterDS two_masters))"
  "fm_distinct (foreignMasterDS two_masters)" "fm_ids_ok (foreignMasterDS two_masters)"
  "distinct_masters two_masters 2"
  by (simp_all add: sample_master_defs fm_ok_def fm_dense_def fm_distinct_def fm_ids_ok_def
      distinct_masters_def fm_ann_def gm_id_ok_def wf_PortIdentity_def CLOCK_IDENTITY_LENGTH_def
      is_i16_def All_less_Suc2 eval_nat_numeral)

text \<open>
  C18 (equivalence).  For announces of different grandmasters, \<open>bmcDataSetComparison\<close> is the
  lexicographic comparison of (priority1, class, accuracy, variance, priority2, identity): 1 when A is strictly
  smaller, that is better, and -1 otherwise.  The attributes are compared as the numbers of their C types: priorities,
  class and accuracy are unsigned octets, identities unsigned byte strings, but the variance is the signed
  \<open>int16_t\<close> of \<open>ClockQuality\<close>.  So, with the attributes before it equal, a grandmaster that sends a variance of
  0x8000 or more (0xFFFF means unknown) wins over every one that sends less, although its number is the larger.
\<close>

theorem comparison_is_lexicographic:
  assumes "gm_id_ok aA" "gm_id_ok aB" "a_grandmasterIdentity aA \<noteq> a_grandmasterIdentity aB"
  shows "bmcDataSetComparison hA aA hB aB c =
      (if gm_key aA < gm_key aB then A_better_then_B else B_better_then_A) \<and>
    (a_grandmasterPriority1 aA = a_grandmasterPriority1 aB \<and>
     clockClass (a_grandmasterClockQuality aA) = clockClass (a_grandmasterClockQuality aB) \<and>
     clockAccuracy (a_grandmasterClockQuality aA) = clockAccuracy (a_grandmasterClockQuality aB) \<and>
     is_i16 (offsetScaledLogVariance (a_grandmasterClockQuality aA)) \<and>
     is_i16 (offsetScaledLogVariance (a_grandmasterClockQuality aB)) \<and>
     0x8000 \<le> sent_variance aA \<and> sent_variance aB < 0x8000 \<longrightarrow>
     bmcDataSetComparison hA aA hB aB c = A_better_then_B)"
  using comparison_key [OF assms] large_variance_is_negative [of aA] large_variance_is_negative [of aB]
  by (auto simp: cmp_result_defs gm_key_def less_prod_simp)

theorem comparison_is_lexicographic_witness:
  "bmcDataSetComparison (sample_hdr 1) (sample_ann 100 2) (sample_hdr 2) (sample_ann 100 1) zero_clock = -1 \<and>
   bmcDataSetComparison (sample_hdr 2) (with_variance (-1) (sample_ann 100 2)) (sample_hdr 1)
     (with_variance 5000 (sample_ann 100 1)) zero_clock = 1"
  using comparison_is_lexicographic [of "sample_ann 100 2" "sample_ann 100 1" "sample_hdr 1" "sample_hdr 2" zero_clock]
    comparison_is_lexicographic [of "with_variance (-1) (sample_ann 100 2)" "with_variance 5000 (sample_ann 100 1)"
      "sample_hdr 2" "sample_hdr 1" zero_clock]
  by (simp add: sample_master_defs gm_id_ok_def CLOCK_IDENTITY_LENGTH_def gm_key_def cmp_result_defs
      less_list_code with_variance_def sent_variance_def is_i16_def)

text \<open>
  The data set comparison is antisymmetric, ties and comparisons by topology
  included: exchanging the two sides negates the result.
\<close>

theorem comparison_antisymmetric:
  "bmcDataSetComparison hA aA hB aB c = - bmcDataSetComparison hB aB hA aA c"
  by (rule comparison_antisym)

text \<open>
  C19 (safety).  The loop of \<open>bmc\<close> replaces its candidate when the comparison with it is negative.
  Negative means that the candidate is better, so on a table of announces of different
  grandmasters the loop selects the worst foreign master: every other record has a smaller
  (better) key.
\<close>

theorem bmc_selects_worst_master:
  assumes "distinct_masters c (nat (fm_count (foreignMasterDS c)))" "0 \<le> fm_count (foreignMasterDS c)"
    and "i < nat (fm_count (foreignMasterDS c))"
  shows "gm_key (fm_ann c i) \<le> gm_key (fm_ann c (nat (bmc_best c)))"
  using best_upto_worst [OF assms(1,3)] bmc_best_upto [OF assms(2)] by simp

theorem bmc_selects_worst_master_witness:
  "gm_key (fm_ann two_masters 0) \<le> gm_key (fm_ann two_masters (nat (bmc_best two_masters)))"
  by (rule bmc_selects_worst_master) (use two_masters_fm(6) in \<open>simp_all add: two_masters_def\<close>)

text \<open>
  \<open>addForeign\<close> keeps the table of foreign masters well formed: counters in range,
  filled from the start, one record per source port; and the announce is in the table afterwards.
\<close>

theorem addForeign_keeps_table:
  assumes "fm_ok (foreignMasterDS c)" "fm_dense (foreignMasterDS c)"
    and "fm_best (foreignMasterDS c) < max 1 (fm_count (foreignMasterDS c))"
    and "fm_distinct (foreignMasterDS c)" "fm_ids_ok (foreignMasterDS c)"
    and "wf_PortIdentity (sourcePortIdentity h)"
  shows "fm_ok (foreignMasterDS (addForeign h a c)) \<and> fm_dense (foreignMasterDS (addForeign h a c)) \<and>
    fm_distinct (foreignMasterDS (addForeign h a c)) \<and> fm_ids_ok (foreignMasterDS (addForeign h a c)) \<and>
    (\<exists>j < nat (fm_count (foreignMasterDS (addForeign h a c))).
       fm_hdr (addForeign h a c) j = h \<and> fm_ann (addForeign h a c) j = a)"
  using addForeign_ok [OF assms(1)] addForeign_dense [OF assms(1,2)] addForeign_distinct [OF assms]
    addForeign_stored [OF assms(1-3)] by (simp add: fm_hdr_def fm_ann_def)

theorem addForeign_keeps_table_witness:
  "fm_distinct (foreignMasterDS (addForeign (sample_hdr 2) (sample_ann 50 9) two_masters))"
  using addForeign_keeps_table [OF two_masters_fm(1-5), of "sample_hdr 2" "sample_ann 50 9"]
  by (simp add: sample_hdr_def wf_PortIdentity_def CLOCK_IDENTITY_LENGTH_def is_i16_def)

lemma getFlag_setFlag [simp]: "getFlag (setFlag x m) m"
  unfolding getFlag_def setFlag_def by (rule bit_eqI) (auto simp: bit_and_iff bit_or_iff)

text \<open>
  C23 (functional).  The state decision of Figure 26 as the code takes it: a listening port that
  heard nobody keeps listening; otherwise the port recommends MASTER when its own data set beats
  the selected record, and if not PASSIVE for a clock of class below 128 and SLAVE for any
  other.  With the decision SLAVE the parent data set becomes the selected master's: its port,
  grandmaster and quality, one more step removed; a change of parent raises
  \<open>MASTER_CLOCK_CHANGED\<close>.
\<close>

theorem state_decision:
  "(if fm_count (foreignMasterDS c) = 0 \<and> portState (portDS c) = PTP_LISTENING
    then fst (bmcStateDecision junk h a c) = PTP_LISTENING
    else if own_better c h a then fst (bmcStateDecision junk h a c) = PTP_MASTER
    else if clockClass (d_clockQuality (defaultDS c)) < 128 then fst (bmcStateDecision junk h a c) = PTP_PASSIVE
    else fst (bmcStateDecision junk h a c) = PTP_SLAVE) \<and>
   (fst (bmcStateDecision junk h a c) = PTP_SLAVE \<longrightarrow>
    parentPortIdentity (parentDS (snd (bmcStateDecision junk h a c))) = sourcePortIdentity h \<and>
    p_grandmasterIdentity (parentDS (snd (bmcStateDecision junk h a c))) = a_grandmasterIdentity a \<and>
    p_grandmasterClockQuality (parentDS (snd (bmcStateDecision junk h a c))) = a_grandmasterClockQuality a \<and>
    c_stepsRemoved (currentDS (snd (bmcStateDecision junk h a c))) = i16 (a_stepsRemoved a + 1) \<and>
    (\<not> isSamePortIdentity (parentPortIdentity (parentDS c)) (sourcePortIdentity h) \<longrightarrow>
       getFlag (events (snd (bmcStateDecision junk h a c))) MASTER_CLOCK_CHANGED))"
  unfolding bmcStateDecision_unfold
  by (auto simp: Let_def s1_def raise_event_def split: if_splits)

text \<open>A clock of priority 200 and class 248 that selects a master of priority 100.\<close>

theorem state_decision_witness:
  "parentPortIdentity (parentDS (snd (bmcStateDecision zero_announce (sample_hdr 1) (sample_ann 100 1)
     (two_masters\<lparr>defaultDS := (defaultDS two_masters)\<lparr>d_priority1 := 200, d_clockQuality := \<lparr>clockClass = 248,
       clockAccuracy = 0, offsetScaledLogVariance = 0\<rparr>\<rparr>\<rparr>)))) = sourcePortIdentity (sample_hdr 1)"
proof -
  let ?c = "two_masters\<lparr>defaultDS := (defaultDS two_masters)\<lparr>d_priority1 := 200, d_clockQuality := \<lparr>clockClass = 248,
       clockAccuracy = 0, offsetScaledLogVariance = 0\<rparr>\<rparr>\<rparr>"
  have "fst (bmcStateDecision zero_announce (sample_hdr 1) (sample_ann 100 1) ?c) = PTP_SLAVE" by code_simp
  with state_decision [of ?c zero_announce "sample_hdr 1" "sample_ann 100 1"] show ?thesis by blast
qed

end
