(* ===== verification/Protocol.thy ===== *)
theory Protocol
  imports Bmc
begin

text \<open>
  The protocol engine: \<open>protocol.c\<close> (state changes, message handlers, message issuers, the main
  step \<open>doState\<close>), \<open>dep/startup.c\<close> and the start of the daemon in \<open>ptpd.c\<close>.  Every function
  of the program is a function on \<open>world\<close>; an early \<open>return\<close> is the branch that ends.
\<close>

section \<open>State changes\<close>

definition receipt_interval :: "PtpClock \<Rightarrow> int" where
  "receipt_interval c = i32 (announceReceiptTimeout (portDS c) * pow2ms (logAnnounceInterval (portDS c)))"

text \<open>\<open>timerStart(k, getRand(n))\<close>.\<close>

definition timerStartRand :: "nat \<Rightarrow> int \<Rightarrow> world \<Rightarrow> world" where
  "timerStartRand k n w = (let (r, w) = getRand n w in timerStart k r w)"

text \<open>The two switch statements of \<open>toState\<close>.\<close>

definition leaveSlave :: "ptp_state \<Rightarrow> world \<Rightarrow> world" where
  "leaveSlave state w =
     (if state = PTP_UNCALIBRATED \<or> state = PTP_SLAVE then w
      else
      let w = timerStop ANNOUNCE_RECEIPT_TIMER w;
          w = (case delayMechanism (portDS (ptp w)) of
                 E2E \<Rightarrow> timerStop DELAYREQ_INTERVAL_TIMER w
               | P2P \<Rightarrow> timerStop PDELAYREQ_INTERVAL_TIMER w
               | DELAY_DISABLED \<Rightarrow> w)
      in initClock w)"

definition leaveState :: "ptp_state \<Rightarrow> world \<Rightarrow> world" where
  "leaveState state w =
     (case port_state w of
        PTP_MASTER \<Rightarrow>
          timerStop PDELAYREQ_INTERVAL_TIMER (timerStop ANNOUNCE_INTERVAL_TIMER
            (timerStop SYNC_INTERVAL_TIMER (initClock w)))
      | PTP_UNCALIBRATED \<Rightarrow> leaveSlave state w
      | PTP_SLAVE \<Rightarrow> leaveSlave state w
      | PTP_PASSIVE \<Rightarrow>
          timerStop ANNOUNCE_RECEIPT_TIMER (timerStop PDELAYREQ_INTERVAL_TIMER (initClock w))
      | PTP_LISTENING \<Rightarrow> timerStop ANNOUNCE_RECEIPT_TIMER (initClock w)
      | PTP_PRE_MASTER \<Rightarrow> timerStop QUALIFICATION_TIMEOUT (initClock w)
      | _ \<Rightarrow> w)"

definition set_recommended :: "ptp_state \<Rightarrow> PtpClock \<Rightarrow> PtpClock" where
  "set_recommended s c = c\<lparr>recommendedState := s\<rparr>"

definition enterMaster :: "world \<Rightarrow> world" where
  "enterMaster w =
     (let w = on_clock (\<lambda>c. c\<lparr>portDS := (portDS c)\<lparr>logMinDelayReqInterval := DEFAULT_DELAYREQ_INTERVAL\<rparr>\<rparr>) w;
          w = timerStart SYNC_INTERVAL_TIMER (pow2ms (logSyncInterval (portDS (ptp w)))) w;
          w = timerStart ANNOUNCE_INTERVAL_TIMER (pow2ms (logAnnounceInterval (portDS (ptp w)))) w;
          w = (case delayMechanism (portDS (ptp w)) of
                 P2P \<Rightarrow> timerStartRand PDELAYREQ_INTERVAL_TIMER
                          (pow2ms (logMinPdelayReqInterval (portDS (ptp w))) + 1) w
               | _ \<Rightarrow> w)
      in on_clock (set_portState PTP_MASTER) w)"

definition enterState :: "ptp_state \<Rightarrow> world \<Rightarrow> world" where
  "enterState state w =
     (case state of
        PTP_INITIALIZING \<Rightarrow>
          on_clock (\<lambda>c. set_recommended PTP_INITIALIZING (set_portState PTP_INITIALIZING c)) w
      | PTP_FAULTY \<Rightarrow> on_clock (set_portState PTP_FAULTY) w
      | PTP_DISABLED \<Rightarrow> on_clock (set_portState PTP_DISABLED) w
      | PTP_LISTENING \<Rightarrow>
          on_clock (\<lambda>c. set_recommended PTP_LISTENING (set_portState PTP_LISTENING c))
            (timerStart ANNOUNCE_RECEIPT_TIMER (receipt_interval (ptp w)) w)
      | PTP_PRE_MASTER \<Rightarrow> enterMaster w
      | PTP_MASTER \<Rightarrow> enterMaster w
      | PTP_PASSIVE \<Rightarrow>
          (let w = timerStart ANNOUNCE_RECEIPT_TIMER (receipt_interval (ptp w)) w;
               w = (if delayMechanism (portDS (ptp w)) = P2P
                    then timerStartRand PDELAYREQ_INTERVAL_TIMER
                           (pow2ms (logMinPdelayReqInterval (portDS (ptp w)) + 1)) w
                    else w)
           in on_clock (set_portState PTP_PASSIVE) w)
      | PTP_UNCALIBRATED \<Rightarrow>
          (let w = timerStart ANNOUNCE_RECEIPT_TIMER (receipt_interval (ptp w)) w;
               w = (case delayMechanism (portDS (ptp w)) of
                      E2E \<Rightarrow> timerStartRand DELAYREQ_INTERVAL_TIMER
                               (pow2ms (logMinDelayReqInterval (portDS (ptp w)) + 1)) w
                    | P2P \<Rightarrow> timerStartRand PDELAYREQ_INTERVAL_TIMER
                               (pow2ms (logMinPdelayReqInterval (portDS (ptp w)) + 1)) w
                    | DELAY_DISABLED \<Rightarrow> w)
           in on_clock (set_portState PTP_UNCALIBRATED) w)
      | PTP_SLAVE \<Rightarrow> on_clock (set_portState PTP_SLAVE) w)"

definition toState :: "ptp_state \<Rightarrow> world \<Rightarrow> world" where
  "toState state w =
     enterState state (leaveState state (on_clock (\<lambda>c. c\<lparr>messageActivity := True\<rparr>) w))"

definition doInit :: "world \<Rightarrow> bool \<times> world" where
  "doInit w =
     (let (ok, w) = netInit w
      in if \<not> ok then (False, w)
         else
      let w = on_clock initData w;
          w = initTimer w;
          w = initClock w;
          w = on_clock m1 w;
          w = on_clock (\<lambda>c. c\<lparr>msgObuf := msgPackHeader c (msgObuf c)\<rparr>) w
      in (True, w))"

section \<open>Issuing messages\<close>

definition set_obuf :: "(PtpClock \<Rightarrow> octet list \<Rightarrow> octet list) \<Rightarrow> world \<Rightarrow> world" where
  "set_obuf pack = on_clock (\<lambda>c. c\<lparr>msgObuf := pack c (msgObuf c)\<rparr>)"

definition issueAnnounce :: "world \<Rightarrow> world" where
  "issueAnnounce w =
     (let w = set_obuf msgPackAnnounce w;
          ((n, _), w) = netSendGeneral (msgObuf (ptp w)) ANNOUNCE_LENGTH zero_time w
      in if n = 0 then toState PTP_FAULTY w
         else on_clock (\<lambda>c. c\<lparr>sentAnnounceSequenceId := i16 (sentAnnounceSequenceId c + 1)\<rparr>) w)"

definition issueFollowup :: "TimeInternal \<Rightarrow> world \<Rightarrow> world" where
  "issueFollowup time w =
     (let (junk, w) = ask e_timestamp w;
          ts = fromInternalTime time junk;
          w = set_obuf (\<lambda>c buf. msgPackFollowUp c buf ts) w;
          ((n, _), w) = netSendGeneral (msgObuf (ptp w)) FOLLOW_UP_LENGTH zero_time w
      in if n = 0 then toState PTP_FAULTY w else w)"

definition issueSync :: "world \<Rightarrow> world" where
  "issueSync w =
     (let (internalTime, w) = getTime w;
          (junk, w) = ask e_timestamp w;
          ts = fromInternalTime internalTime junk;
          w = set_obuf (\<lambda>c buf. msgPackSync c buf ts) w;
          ((n, internalTime), w) = netSendEvent (msgObuf (ptp w)) SYNC_LENGTH True internalTime w
      in if n = 0 then toState PTP_FAULTY w
         else
      let w = on_clock (\<lambda>c. c\<lparr>sentSyncSequenceId := i16 (sentSyncSequenceId c + 1)\<rparr>) w
      in if seconds internalTime \<noteq> 0 \<and> twoStepFlag (defaultDS (ptp w))
         then issueFollowup (addTime internalTime (outboundLatency (ptp w))) w
         else w)"

definition issueDelayReq :: "world \<Rightarrow> world" where
  "issueDelayReq w =
     (let (internalTime, w) = getTime w;
          (junk, w) = ask e_timestamp w;
          ts = fromInternalTime internalTime junk;
          w = set_obuf (\<lambda>c buf. msgPackDelayReq c buf ts) w;
          ((n, internalTime), w) = netSendEvent (msgObuf (ptp w)) DELAY_REQ_LENGTH True internalTime w
      in if n = 0 then toState PTP_FAULTY w
         else
      let w = on_clock (\<lambda>c. c\<lparr>sentDelayReqSequenceId := i16 (sentDelayReqSequenceId c + 1)\<rparr>) w
      in if seconds internalTime \<noteq> 0
         then on_clock (\<lambda>c. c\<lparr>timestamp_delayReqSend := addTime internalTime (outboundLatency c)\<rparr>) w
         else w)"

definition issuePDelayReq :: "world \<Rightarrow> world" where
  "issuePDelayReq w =
     (let (internalTime, w) = getTime w;
          (junk, w) = ask e_timestamp w;
          ts = fromInternalTime internalTime junk;
          w = set_obuf (\<lambda>c buf. msgPackPDelayReq c buf ts) w;
          ((n, internalTime), w) = netSendPeerEvent (msgObuf (ptp w)) PDELAY_REQ_LENGTH True internalTime w
      in if n = 0 then toState PTP_FAULTY w
         else
      let w = on_clock (\<lambda>c. c\<lparr>sentPDelayReqSequenceId := i16 (sentPDelayReqSequenceId c + 1)\<rparr>) w
      in if seconds internalTime \<noteq> 0
         then on_clock (\<lambda>c. c\<lparr>pdelay_t1 := addTime internalTime (outboundLatency c)\<rparr>) w
         else w)"

text \<open>The caller's \<open>time\<close> is updated in place, so it is returned.\<close>

definition issuePDelayResp :: "TimeInternal \<Rightarrow> MsgHeader \<Rightarrow> world \<Rightarrow> TimeInternal \<times> world" where
  "issuePDelayResp time pDelayReqHeader w =
     (let (junk, w) = ask e_timestamp w;
          ts = fromInternalTime time junk;
          w = set_obuf (\<lambda>c buf. msgPackPDelayResp buf pDelayReqHeader ts) w;
          ((n, time), w) = netSendPeerEvent (msgObuf (ptp w)) PDELAY_RESP_LENGTH True time w
      in if n = 0 then (time, toState PTP_FAULTY w)
         else if seconds time \<noteq> 0 then (addTime time (outboundLatency (ptp w)), w)
         else (time, w))"

definition issueDelayResp :: "TimeInternal \<Rightarrow> MsgHeader \<Rightarrow> world \<Rightarrow> world" where
  "issueDelayResp time delayReqHeader w =
     (let (junk, w) = ask e_timestamp w;
          ts = fromInternalTime time junk;
          w = set_obuf (\<lambda>c buf. msgPackDelayResp c buf delayReqHeader ts) w;
          ((n, _), w) = netSendGeneral (msgObuf (ptp w)) PDELAY_RESP_LENGTH zero_time w
      in if n = 0 then toState PTP_FAULTY w else w)"

definition issuePDelayRespFollowUp :: "TimeInternal \<Rightarrow> MsgHeader \<Rightarrow> world \<Rightarrow> world" where
  "issuePDelayRespFollowUp time pDelayReqHeader w =
     (let (junk, w) = ask e_timestamp w;
          ts = fromInternalTime time junk;
          w = set_obuf (\<lambda>c buf. msgPackPDelayRespFollowUp buf pDelayReqHeader ts) w;
          ((n, _), w) = netSendPeerGeneral (msgObuf (ptp w)) PDELAY_RESP_FOLLOW_UP_LENGTH zero_time w
      in if n = 0 then toState PTP_FAULTY w else w)"

definition issueDelayReqTimerExpired :: "world \<Rightarrow> world" where
  "issueDelayReqTimerExpired w =
     (case delayMechanism (portDS (ptp w)) of
        E2E \<Rightarrow>
          if port_state w \<noteq> PTP_SLAVE then w
          else
          (let (ex, w) = timerExpired DELAYREQ_INTERVAL_TIMER w
           in if ex then
                issueDelayReq (timerStartRand DELAYREQ_INTERVAL_TIMER
                  (pow2ms (logMinDelayReqInterval (portDS (ptp w)) + 1)) w)
              else w)
      | P2P \<Rightarrow>
          (let (ex, w) = timerExpired PDELAYREQ_INTERVAL_TIMER w
           in if ex then
                issuePDelayReq (timerStartRand PDELAYREQ_INTERVAL_TIMER
                  (pow2ms (logMinPdelayReqInterval (portDS (ptp w)) + 1)) w)
              else w)
      | DELAY_DISABLED \<Rightarrow> w)"

section \<open>Handling messages\<close>

text \<open>The message under way and the tests the handlers share.\<close>

definition hdr :: "world \<Rightarrow> MsgHeader" where "hdr w = msgTmpHeader (ptp w)"

definition from_parent :: "world \<Rightarrow> bool" where
  "from_parent w = isSamePortIdentity (parentPortIdentity (parentDS (ptp w))) (sourcePortIdentity (hdr w))"

definition two_step_msg :: "world \<Rightarrow> bool" where
  "two_step_msg w = getFlag (uint (flagField (hdr w) ! 0)) FLAG0_TWO_STEP"

definition restart_receipt :: "world \<Rightarrow> world" where
  "restart_receipt w = timerStart ANNOUNCE_RECEIPT_TIMER (receipt_interval (ptp w)) w"

definition handleAnnounce_slave :: "world \<Rightarrow> world" where
  "handleAnnounce_slave w =
     (let w = on_clock (raise_event STATE_DECISION_EVENT) w;
          isFromCurrentParent = from_parent w;
          a = msgUnpackAnnounce (msgIbuf (ptp w));
          w = on_clock (\<lambda>c. c\<lparr>msgTmp := TmpAnnounce a\<rparr>) w
      in if isFromCurrentParent then restart_receipt (on_clock (s1 (hdr w) a) w)
         else on_clock (addForeign (hdr w) a) w)"

definition handleAnnounce :: "bool \<Rightarrow> world \<Rightarrow> world" where
  "handleAnnounce isFromSelf w =
     (if msgIbufLength (ptp w) < int ANNOUNCE_LENGTH then toState PTP_FAULTY w
      else if isFromSelf then w
      else
      let add = (\<lambda>w. (let a = msgUnpackAnnounce (msgIbuf (ptp w));
                         w = on_clock (\<lambda>c. c\<lparr>msgTmp := TmpAnnounce a\<rparr>) w;
                         w = on_clock (raise_event STATE_DECISION_EVENT) w
                     in on_clock (addForeign (hdr w) a) w))
      in case port_state w of
        PTP_INITIALIZING \<Rightarrow> w | PTP_FAULTY \<Rightarrow> w | PTP_DISABLED \<Rightarrow> w
      | PTP_UNCALIBRATED \<Rightarrow> handleAnnounce_slave w
      | PTP_SLAVE \<Rightarrow> handleAnnounce_slave w
      | PTP_PASSIVE \<Rightarrow> add (restart_receipt w)
      | _ \<Rightarrow> add w)"

definition handleSync_slave :: "TimeInternal \<Rightarrow> bool \<Rightarrow> world \<Rightarrow> world" where
  "handleSync_slave time isFromSelf w =
     (if isFromSelf then w
      else if \<not> from_parent w then w
      else
      let w = on_clock (\<lambda>c. c\<lparr>timestamp_syncRecieve := time\<rparr>) w;
          corr = scaledNanosecondsToInternalTime (correctionfield (hdr w))
      in if two_step_msg w then
           on_clock (\<lambda>c. c\<lparr>waitingForFollowUp := True, recvSyncSequenceId := sequenceId (msgTmpHeader c),
             correctionField_sync := corr\<rparr>) w
         else
           (let sync = msgUnpackSync (msgIbuf (ptp w));
                w = on_clock (\<lambda>c. c\<lparr>msgTmp := TmpSync sync, waitingForFollowUp := False\<rparr>) w;
                (junk, w) = ask e_time w;
                origin = toInternalTime junk (sync_originTimestamp sync);
                w = on_clock (\<lambda>c. updateOffset (timestamp_syncRecieve c) origin corr c) w;
                w = updateClock w
            in issueDelayReqTimerExpired w))"

definition handleSync :: "TimeInternal \<Rightarrow> bool \<Rightarrow> world \<Rightarrow> world" where
  "handleSync time isFromSelf w =
     (if msgIbufLength (ptp w) < int SYNC_LENGTH then toState PTP_FAULTY w
      else case port_state w of
        PTP_UNCALIBRATED \<Rightarrow> handleSync_slave time isFromSelf w
      | PTP_SLAVE \<Rightarrow> handleSync_slave time isFromSelf w
      | PTP_PASSIVE \<Rightarrow> issueDelayReqTimerExpired w
      | _ \<Rightarrow> w)"

definition handleFollowUp_slave :: "world \<Rightarrow> world" where
  "handleFollowUp_slave w =
     (if \<not> waitingForFollowUp (ptp w) then w
      else if \<not> from_parent w then w
      else if recvSyncSequenceId (ptp w) \<noteq> sequenceId (hdr w) then w
      else
      let follow = msgUnpackFollowUp (msgIbuf (ptp w));
          w = on_clock (\<lambda>c. c\<lparr>msgTmp := TmpFollow follow, waitingForFollowUp := False\<rparr>) w;
          (junk, w) = ask e_time w;
          precise = toInternalTime junk (preciseOriginTimestamp follow);
          corr = addTime (scaledNanosecondsToInternalTime (correctionfield (hdr w)))
                   (correctionField_sync (ptp w));
          w = on_clock (\<lambda>c. updateOffset (timestamp_syncRecieve c) precise corr c) w;
          w = updateClock w
      in issueDelayReqTimerExpired w)"

definition handleFollowUp :: "bool \<Rightarrow> world \<Rightarrow> world" where
  "handleFollowUp isFromSelf w =
     (if msgIbufLength (ptp w) < int FOLLOW_UP_LENGTH then toState PTP_FAULTY w
      else if isFromSelf then w
      else case port_state w of
        PTP_UNCALIBRATED \<Rightarrow> handleFollowUp_slave w
      | PTP_SLAVE \<Rightarrow> handleFollowUp_slave w
      | PTP_PASSIVE \<Rightarrow> issueDelayReqTimerExpired w
      | _ \<Rightarrow> w)"

definition handleDelayReq :: "TimeInternal \<Rightarrow> bool \<Rightarrow> world \<Rightarrow> world" where
  "handleDelayReq time isFromSelf w =
     (case delayMechanism (portDS (ptp w)) of
        E2E \<Rightarrow>
          if msgIbufLength (ptp w) < int DELAY_REQ_LENGTH then toState PTP_FAULTY w
          else (case port_state w of
                  PTP_MASTER \<Rightarrow> issueDelayResp time (hdr w) w
                | _ \<Rightarrow> w)
      | _ \<Rightarrow> w)"

text \<open>The test of the sequence number is in \<open>int\<close>: it does not wrap as the counter does.\<close>

definition handleDelayResp :: "bool \<Rightarrow> world \<Rightarrow> world" where
  "handleDelayResp isFromSelf w =
     (case delayMechanism (portDS (ptp w)) of
        E2E \<Rightarrow>
          if msgIbufLength (ptp w) < int DELAY_RESP_LENGTH then toState PTP_FAULTY w
          else if port_state w = PTP_UNCALIBRATED \<or> port_state w = PTP_SLAVE then
            (let resp = msgUnpackDelayResp (msgIbuf (ptp w));
                 w = on_clock (\<lambda>c. c\<lparr>msgTmp := TmpResp resp\<rparr>) w;
                 isCurrentRequest = isSamePortIdentity (portIdentity (portDS (ptp w)))
                   (resp_requestingPortIdentity resp)
             in if sentDelayReqSequenceId (ptp w) - 1 = sequenceId (hdr w) \<and> isCurrentRequest \<and>
                   from_parent w then
                  (let w = on_clock (\<lambda>c. c\<lparr>timestamp_delayReqRecieve :=
                             toInternalTime (timestamp_delayReqRecieve c) (receiveTimestamp resp)\<rparr>) w;
                       corr = scaledNanosecondsToInternalTime (correctionfield (hdr w));
                       w = on_clock (\<lambda>c. updateDelay (timestamp_delayReqSend c)
                             (timestamp_delayReqRecieve c) corr c) w
                   in on_clock (\<lambda>c. c\<lparr>portDS := (portDS c)
                        \<lparr>logMinDelayReqInterval := logMessageInterval (msgTmpHeader c)\<rparr>\<rparr>) w)
                else w)
          else w
      | _ \<Rightarrow> w)"

definition handlePDelayReq :: "TimeInternal \<Rightarrow> bool \<Rightarrow> world \<Rightarrow> world" where
  "handlePDelayReq time isFromSelf w =
     (case delayMechanism (portDS (ptp w)) of
        P2P \<Rightarrow>
          if msgIbufLength (ptp w) < int PDELAY_REQ_LENGTH then toState PTP_FAULTY w
          else if port_state w \<in> {PTP_PASSIVE, PTP_SLAVE, PTP_MASTER} then
            (if isFromSelf then w
             else
             let (time, w) = issuePDelayResp time (hdr w) w
             in if seconds time \<noteq> 0 \<and> two_step_msg w
                then issuePDelayRespFollowUp time (hdr w) w else w)
          else w
      | _ \<Rightarrow> w)"

definition handlePDelayResp :: "TimeInternal \<Rightarrow> bool \<Rightarrow> world \<Rightarrow> world" where
  "handlePDelayResp time isFromSelf w =
     (case delayMechanism (portDS (ptp w)) of
        P2P \<Rightarrow>
          if msgIbufLength (ptp w) < int PDELAY_RESP_LENGTH then toState PTP_FAULTY w
          else if port_state w = PTP_MASTER \<or> port_state w = PTP_SLAVE then
            (if isFromSelf then w
             else
             let presp = msgUnpackPDelayResp (msgIbuf (ptp w));
                 w = on_clock (\<lambda>c. c\<lparr>msgTmp := TmpPResp presp\<rparr>) w;
                 isCurrentRequest = isSamePortIdentity (portIdentity (portDS (ptp w)))
                   (presp_requestingPortIdentity presp);
                 corr = scaledNanosecondsToInternalTime (correctionfield (hdr w))
             in if sentPDelayReqSequenceId (ptp w) - 1 = sequenceId (hdr w) \<and> isCurrentRequest then
                  (if two_step_msg w then
                     (let (junk, w) = ask e_time w
                      in on_clock (\<lambda>c. c\<lparr>waitingForPDelayRespFollowUp := True, pdelay_t4 := time,
                           pdelay_t2 := toInternalTime junk (requestReceiptTimestamp presp),
                           correctionField_pDelayResp := corr\<rparr>) w)
                   else
                     on_clock (\<lambda>c. updatePeerDelay corr False
                       (c\<lparr>waitingForPDelayRespFollowUp := False, pdelay_t4 := time\<rparr>)) w)
                else w)
          else w
      | _ \<Rightarrow> w)"

definition handlePDelayRespFollowUp :: "bool \<Rightarrow> world \<Rightarrow> world" where
  "handlePDelayRespFollowUp isFromSelf w =
     (case delayMechanism (portDS (ptp w)) of
        P2P \<Rightarrow>
          if msgIbufLength (ptp w) < int PDELAY_RESP_FOLLOW_UP_LENGTH then toState PTP_FAULTY w
          else if port_state w = PTP_SLAVE \<or> port_state w = PTP_MASTER then
            (if \<not> waitingForPDelayRespFollowUp (ptp w) then w
             else if sequenceId (hdr w) = sentPDelayReqSequenceId (ptp w) - 1 then
               (let f = msgUnpackPDelayRespFollowUp (msgIbuf (ptp w));
                    (junk, w) = ask e_time w;
                    corr = addTime (scaledNanosecondsToInternalTime (correctionfield (hdr w)))
                             (correctionField_pDelayResp (ptp w));
                    w = on_clock (\<lambda>c. c\<lparr>msgTmp := TmpPRespFollow f,
                          pdelay_t3 := toInternalTime junk (responseOriginTimestamp f)\<rparr>) w;
                    w = on_clock (updatePeerDelay corr True) w
                in on_clock (\<lambda>c. c\<lparr>waitingForPDelayRespFollowUp := False\<rparr>) w)
             else w)
          else w
      | _ \<Rightarrow> w)"

definition handleManagement :: "bool \<Rightarrow> world \<Rightarrow> world" where "handleManagement isFromSelf w = w"
definition handleSignaling :: "bool \<Rightarrow> world \<Rightarrow> world" where "handleSignaling isFromSelf w = w"

text \<open>The dispatch at the end of \<open>handle\<close>.\<close>

definition dispatch :: "TimeInternal \<Rightarrow> world \<Rightarrow> world" where
  "dispatch time w =
     (let isFromSelf = isSamePortIdentity (portIdentity (portDS (ptp w))) (sourcePortIdentity (hdr w));
          time = (if \<not> isFromSelf \<and> seconds time > 0 then subTime time (inboundLatency (ptp w)) else time);
          t = messageType (hdr w)
      in if t = ANNOUNCE then handleAnnounce isFromSelf w
         else if t = SYNC then handleSync time isFromSelf w
         else if t = FOLLOW_UP then handleFollowUp isFromSelf w
         else if t = DELAY_REQ then handleDelayReq time isFromSelf w
         else if t = PDELAY_REQ then handlePDelayReq time isFromSelf w
         else if t = DELAY_RESP then handleDelayResp isFromSelf w
         else if t = PDELAY_RESP then handlePDelayResp time isFromSelf w
         else if t = PDELAY_RESP_FOLLOW_UP then handlePDelayRespFollowUp isFromSelf w
         else if t = MANAGEMENT then handleManagement isFromSelf w
         else if t = SIGNALING then handleSignaling isFromSelf w
         else w)"

text \<open>\<open>handle\<close> from the point where a message of \<open>msgIbufLength\<close> bytes is in \<open>msgIbuf\<close>.\<close>

definition handle_message :: "TimeInternal \<Rightarrow> world \<Rightarrow> world" where
  "handle_message time w =
     (let w = on_clock (\<lambda>c. c\<lparr>messageActivity := True\<rparr>) w
      in if msgIbufLength (ptp w) < int HEADER_LENGTH then toState PTP_FAULTY w
         else
      let w = on_clock (\<lambda>c. c\<lparr>msgTmpHeader := msgUnpackHeader (msgIbuf c)\<rparr>) w
      in if versionPTP (hdr w) \<noteq> versionNumber (portDS (ptp w)) then w
         else if h_domainNumber (hdr w) \<noteq> d_domainNumber (defaultDS (ptp w)) then w
         else dispatch time w)"

definition store_rx :: "int \<Rightarrow> octet list \<Rightarrow> PtpClock \<Rightarrow> PtpClock" where
  "store_rx n buf c = c\<lparr>msgIbuf := buf, msgIbufLength := n\<rparr>"

definition handle_poll :: "world \<Rightarrow> world" where
  "handle_poll w =
     (let ((n, buf, time), w) = netRecvEvent (msgIbuf (ptp w)) True zero_time w;
          w = on_clock (store_rx n buf) w
      in if n < 0 then toState PTP_FAULTY w
         else if n = 0 then
           (let ((n, buf, time), w) = netRecvGeneral (msgIbuf (ptp w)) True time w;
                w = on_clock (store_rx n buf) w
            in if n < 0 then toState PTP_FAULTY w
               else if n = 0 then w
               else handle_message time w)
         else handle_message time w)"

definition handle :: "world \<Rightarrow> world" where
  "handle w =
     (if \<not> messageActivity (ptp w) then
        (let ret = netSelect w
         in if ret < 0 then toState PTP_FAULTY w
            else if ret = 0 then w
            else handle_poll w)
      else handle_poll w)"

section \<open>The main step\<close>

definition slave_only :: "world \<Rightarrow> bool" where
  "slave_only w \<longleftrightarrow> d_slaveOnly (defaultDS (ptp w)) \<or> clockClass (d_clockQuality (defaultDS (ptp w))) = 255"

text \<open>The three switch statements of \<open>doState\<close>.\<close>

definition active_states :: "ptp_state set" where
  "active_states = {PTP_LISTENING, PTP_UNCALIBRATED, PTP_SLAVE, PTP_PRE_MASTER, PTP_MASTER, PTP_PASSIVE}"

definition doState_decide :: "world \<Rightarrow> world" where
  "doState_decide w =
     (if port_state w \<in> active_states \<and> getFlag (events (ptp w)) STATE_DECISION_EVENT then
        (let w = on_clock (clear_event STATE_DECISION_EVENT) w;
             (s, w) = bmc w;
             w = on_clock (set_recommended s) w
         in if (s = PTP_MASTER \<or> s = PTP_PASSIVE) \<and> slave_only w
            then on_clock (set_recommended PTP_LISTENING) w else w)
      else w)"

definition doState_recommended :: "world \<Rightarrow> world" where
  "doState_recommended w =
     (case recommendedState (ptp w) of
        PTP_MASTER \<Rightarrow>
          (case port_state w of
             PTP_PRE_MASTER \<Rightarrow>
               (let (ex, w) = timerExpired QUALIFICATION_TIMEOUT w
                in if ex then toState PTP_MASTER w else w)
           | PTP_MASTER \<Rightarrow> w
           | _ \<Rightarrow> toState PTP_PRE_MASTER w)
      | PTP_PASSIVE \<Rightarrow> if port_state w \<noteq> PTP_PASSIVE then toState PTP_PASSIVE w else w
      | PTP_SLAVE \<Rightarrow>
          (case port_state w of
             PTP_UNCALIBRATED \<Rightarrow>
               (let w = (if getFlag (events (ptp w)) MASTER_CLOCK_SELECTED
                         then toState PTP_SLAVE (on_clock (clear_event MASTER_CLOCK_SELECTED) w)
                         else w)
                in if getFlag (events (ptp w)) MASTER_CLOCK_CHANGED
                   then on_clock (clear_event MASTER_CLOCK_CHANGED) w else w)
           | PTP_SLAVE \<Rightarrow>
               (let w = (if getFlag (events (ptp w)) SYNCHRONIZATION_FAULT
                         then toState PTP_UNCALIBRATED (on_clock (clear_event SYNCHRONIZATION_FAULT) w)
                         else w)
                in if getFlag (events (ptp w)) MASTER_CLOCK_CHANGED
                   then toState PTP_UNCALIBRATED (on_clock (clear_event MASTER_CLOCK_CHANGED) w)
                   else w)
           | _ \<Rightarrow> toState PTP_UNCALIBRATED w)
      | PTP_LISTENING \<Rightarrow> if port_state w \<noteq> PTP_LISTENING then toState PTP_LISTENING w else w
      | _ \<Rightarrow> w)"

definition doState_passive :: "world \<Rightarrow> world" where
  "doState_passive w =
     (let (ex, w) = timerExpired ANNOUNCE_RECEIPT_TIMER w
      in if ex then
           (let w = on_clock (\<lambda>c. c\<lparr>foreignMasterDS := (foreignMasterDS c)\<lparr>fm_count := 0, fm_i := 0\<rparr>\<rparr>) w
            in if \<not> slave_only w then
                 toState PTP_MASTER (on_clock (set_recommended PTP_MASTER) (on_clock m1 w))
               else if port_state w \<noteq> PTP_LISTENING then toState PTP_LISTENING w
               else w)
         else handle w)"

definition doState_master :: "world \<Rightarrow> world" where
  "doState_master w =
     (let (ex, w) = timerExpired SYNC_INTERVAL_TIMER w;
          w = (if ex then issueSync w else w);
          (ex, w) = timerExpired ANNOUNCE_INTERVAL_TIMER w;
          w = (if ex then issueAnnounce w else w);
          w = handle w
      in issueDelayReqTimerExpired w)"

definition doState_act :: "world \<Rightarrow> world" where
  "doState_act w =
     (case port_state w of
        PTP_INITIALIZING \<Rightarrow>
          (let (ok, w) = doInit w
           in if ok then toState PTP_LISTENING w else toState PTP_FAULTY w)
      | PTP_FAULTY \<Rightarrow> toState PTP_INITIALIZING w
      | PTP_DISABLED \<Rightarrow> handle w
      | PTP_LISTENING \<Rightarrow> doState_passive w
      | PTP_UNCALIBRATED \<Rightarrow> doState_passive w
      | PTP_SLAVE \<Rightarrow> doState_passive w
      | PTP_PASSIVE \<Rightarrow> doState_passive w
      | PTP_MASTER \<Rightarrow> doState_master w
      | PTP_PRE_MASTER \<Rightarrow> w)"

definition doState :: "world \<Rightarrow> world" where
  "doState w =
     doState_act (doState_recommended (doState_decide
       (on_clock (\<lambda>c. c\<lparr>messageActivity := False\<rparr>) w)))"

section \<open>Start-up\<close>

definition ptpdShutdown :: "world \<Rightarrow> world" where
  "ptpdShutdown w = snd (netShutdown w)"

definition ptpdStartup :: "RunTimeOpts \<Rightarrow> ForeignMasterRecord list \<Rightarrow> world \<Rightarrow> int \<times> world" where
  "ptpdStartup opts foreign w =
     (let opts = (if r_slaveOnly opts
                  then opts\<lparr>r_clockQuality := (r_clockQuality opts)\<lparr>clockClass := DEFAULT_CLOCK_CLASS_SLAVE_ONLY\<rparr>\<rparr>
                  else opts);
          opts = (if servo_ap (r_servo opts) < 1 then opts\<lparr>r_servo := (r_servo opts)\<lparr>servo_ap := 1\<rparr>\<rparr> else opts);
          opts = (if servo_ai (r_servo opts) < 1 then opts\<lparr>r_servo := (r_servo opts)\<lparr>servo_ai := 1\<rparr>\<rparr> else opts);
          w = on_clock (\<lambda>c. c\<lparr>rtOpts := opts,
                foreignMasterDS := (foreignMasterDS c)\<lparr>fm_records := foreign\<rparr>\<rparr>) w
      in (0, toState PTP_INITIALIZING w))"

text \<open>The defaults that \<open>ptpd_thread\<close> stores; \<open>0.5f\<close> and \<open>0.08f\<close> as the floats they are.\<close>

definition default_opts :: RunTimeOpts where
  "default_opts = \<lparr>
     r_announceInterval = DEFAULT_ANNOUNCE_INTERVAL,
     r_syncInterval = DEFAULT_SYNC_INTERVAL,
     r_clockQuality = \<lparr>clockClass = DEFAULT_CLOCK_CLASS, clockAccuracy = DEFAULT_CLOCK_ACCURACY,
       offsetScaledLogVariance = DEFAULT_CLOCK_VARIANCE\<rparr>,
     r_priority1 = DEFAULT_PRIORITY1, r_priority2 = DEFAULT_PRIORITY2,
     r_domainNumber = DEFAULT_DOMAIN_NUMBER, r_slaveOnly = False,
     r_currentUtcOffset = DEFAULT_UTC_OFFSET, r_stats = 1,
     r_inboundLatency = \<lparr>seconds = 0, nanoseconds = 0\<rparr>,
     r_outboundLatency = \<lparr>seconds = 0, nanoseconds = 0\<rparr>,
     r_maxForeignRecords = DEFAULT_MAX_FOREIGN_RECORDS,
     r_delayMechanism = E2E,
     r_servo = \<lparr>noResetClock = False, noAdjust = False, servo_ap = f32 (1 / 2),
       servo_ai = f32 (8 / 100), sDelay = of_int DEFAULT_DELAY_S, sOffset = DEFAULT_OFFSET_S\<rparr>\<rparr>"

text \<open>
  The inner loop of \<open>ptpd_thread\<close>: \<open>doState\<close> until no packet is queued.  It may run as long
  as packets keep arriving; \<open>n\<close> bounds the number of rounds.
\<close>

fun ptpd_rounds :: "nat \<Rightarrow> world \<Rightarrow> world option" where
  "ptpd_rounds 0 w = None"
| "ptpd_rounds (Suc n) w =
     (let w = doState w in if netSelect w > 0 then ptpd_rounds n w else Some w)"

end
