(* ===== verification/PortMachine.thy ===== *)
theory PortMachine
  imports Datatypes
begin

text \<open>
  The abstract specification of the port: the state machine of \<open>toState\<close> and \<open>doState\<close> on
  what matters for it, with every message, packet and data set forgotten.  \<open>port_step\<close> lists
  the moves a port may make; theory \<open>ProtocolInv\<close> shows that the detailed definitions make
  no other.
\<close>

section \<open>Abstract ports\<close>

text \<open>
  The port's state, the recommended state, whether the clock may only be a slave, whether its
  class is below 128, its delay mechanism, the same three as configured in the run-time
  options (they take effect at initialisation), the running timers and those with a pending
  expiry.
\<close>

record port_abs =
  st :: ptp_state
  rcm :: ptp_state
  so :: bool
  hi :: bool
  mech :: delay_mechanism
  o_so :: bool
  o_hi :: bool
  o_mech :: delay_mechanism
  run :: "nat set"
  pend :: "nat set"

definition mech_timer :: "delay_mechanism \<Rightarrow> nat set" where
  "mech_timer m = (case m of E2E \<Rightarrow> {DELAYREQ_INTERVAL_TIMER} | P2P \<Rightarrow> {PDELAYREQ_INTERVAL_TIMER}
     | DELAY_DISABLED \<Rightarrow> {})"

definition peer_timer :: "delay_mechanism \<Rightarrow> nat set" where
  "peer_timer m = (if m = P2P then {PDELAYREQ_INTERVAL_TIMER} else {})"

definition stops :: "ptp_state \<Rightarrow> ptp_state \<Rightarrow> delay_mechanism \<Rightarrow> nat set" where
  "stops s s' m =
     (case s of
        PTP_MASTER \<Rightarrow> {SYNC_INTERVAL_TIMER, ANNOUNCE_INTERVAL_TIMER, PDELAYREQ_INTERVAL_TIMER}
      | PTP_UNCALIBRATED \<Rightarrow>
          if s' = PTP_UNCALIBRATED \<or> s' = PTP_SLAVE then {} else insert ANNOUNCE_RECEIPT_TIMER (mech_timer m)
      | PTP_SLAVE \<Rightarrow>
          if s' = PTP_UNCALIBRATED \<or> s' = PTP_SLAVE then {} else insert ANNOUNCE_RECEIPT_TIMER (mech_timer m)
      | PTP_PASSIVE \<Rightarrow> {PDELAYREQ_INTERVAL_TIMER, ANNOUNCE_RECEIPT_TIMER}
      | PTP_LISTENING \<Rightarrow> {ANNOUNCE_RECEIPT_TIMER}
      | PTP_PRE_MASTER \<Rightarrow> {QUALIFICATION_TIMEOUT}
      | _ \<Rightarrow> {})"

definition starts :: "ptp_state \<Rightarrow> delay_mechanism \<Rightarrow> nat set" where
  "starts s m =
     (case s of
        PTP_LISTENING \<Rightarrow> {ANNOUNCE_RECEIPT_TIMER}
      | PTP_PRE_MASTER \<Rightarrow> {SYNC_INTERVAL_TIMER, ANNOUNCE_INTERVAL_TIMER} \<union> peer_timer m
      | PTP_MASTER \<Rightarrow> {SYNC_INTERVAL_TIMER, ANNOUNCE_INTERVAL_TIMER} \<union> peer_timer m
      | PTP_PASSIVE \<Rightarrow> {ANNOUNCE_RECEIPT_TIMER} \<union> peer_timer m
      | PTP_UNCALIBRATED \<Rightarrow> {ANNOUNCE_RECEIPT_TIMER} \<union> mech_timer m
      | _ \<Rightarrow> {})"

definition a_to :: "ptp_state \<Rightarrow> port_abs \<Rightarrow> port_abs" where
  "a_to s a = a\<lparr>st := (if s = PTP_PRE_MASTER then PTP_MASTER else s),
     rcm := (if s = PTP_INITIALIZING \<or> s = PTP_LISTENING then s else rcm a),
     run := (run a - stops (st a) s (mech a)) \<union> starts s (mech a),
     pend := pend a - stops (st a) s (mech a) - starts s (mech a)\<rparr>"

text \<open>Initialisation puts the configured values in force and creates the timers anew.\<close>

definition a_init :: "port_abs \<Rightarrow> port_abs" where
  "a_init a = a\<lparr>so := o_so a, hi := o_hi a, mech := o_mech a, run := {}, pend := {}\<rparr>"

text \<open>What the state decision may recommend, after the correction for slave-only clocks.\<close>

definition decisions :: "port_abs \<Rightarrow> ptp_state set" where
  "decisions a =
     (let raw = (if st a = PTP_LISTENING then {PTP_LISTENING} else {}) \<union> {PTP_MASTER} \<union>
        (if hi a then {PTP_PASSIVE} else {PTP_SLAVE})
      in if so a then (\<lambda>s. if s = PTP_MASTER \<or> s = PTP_PASSIVE then PTP_LISTENING else s) ` raw else raw)"

section \<open>The moves\<close>

inductive port_step :: "port_abs \<Rightarrow> port_abs \<Rightarrow> bool" where
  decide: "st a \<in> {PTP_LISTENING, PTP_UNCALIBRATED, PTP_SLAVE, PTP_PRE_MASTER, PTP_MASTER, PTP_PASSIVE} \<Longrightarrow>
     r \<in> decisions a \<Longrightarrow> port_step a (a\<lparr>rcm := r\<rparr>)"
| become_master: "rcm a = PTP_MASTER \<Longrightarrow> st a \<noteq> PTP_MASTER \<Longrightarrow> port_step a (a_to PTP_PRE_MASTER a)"
| qualify: "rcm a = PTP_MASTER \<Longrightarrow> st a = PTP_PRE_MASTER \<Longrightarrow> port_step a (a_to PTP_MASTER a)"
| become_passive: "rcm a = PTP_PASSIVE \<Longrightarrow> st a \<noteq> PTP_PASSIVE \<Longrightarrow> port_step a (a_to PTP_PASSIVE a)"
| calibrate: "rcm a = PTP_SLAVE \<Longrightarrow> port_step a (a_to PTP_UNCALIBRATED a)"
| calibrated: "rcm a = PTP_SLAVE \<Longrightarrow> st a = PTP_UNCALIBRATED \<Longrightarrow> port_step a (a_to PTP_SLAVE a)"
| become_listening: "rcm a = PTP_LISTENING \<Longrightarrow> st a \<noteq> PTP_LISTENING \<Longrightarrow> port_step a (a_to PTP_LISTENING a)"
| initialized: "st a = PTP_INITIALIZING \<Longrightarrow> port_step a (a_to PTP_LISTENING (a_init a))"
| init_failed: "st a = PTP_INITIALIZING \<Longrightarrow> port_step a (a_to PTP_FAULTY a)"
| fault_cleared: "st a = PTP_FAULTY \<Longrightarrow> port_step a (a_to PTP_INITIALIZING a)"
| fault: "st a \<noteq> PTP_INITIALIZING \<Longrightarrow> port_step a (a_to PTP_FAULTY a)"
| timeout_master: "st a \<in> {PTP_LISTENING, PTP_UNCALIBRATED, PTP_SLAVE, PTP_PASSIVE} \<Longrightarrow> \<not> so a \<Longrightarrow>
     port_step a (a_to PTP_MASTER (a\<lparr>rcm := PTP_MASTER\<rparr>))"
| timeout_listening: "st a \<in> {PTP_UNCALIBRATED, PTP_SLAVE, PTP_PASSIVE} \<Longrightarrow> so a \<Longrightarrow>
     port_step a (a_to PTP_LISTENING a)"
| restart: "st a \<in> {PTP_UNCALIBRATED, PTP_SLAVE, PTP_PASSIVE} \<Longrightarrow>
     port_step a (a\<lparr>run := insert ANNOUNCE_RECEIPT_TIMER (run a), pend := pend a - {ANNOUNCE_RECEIPT_TIMER}\<rparr>)"
| rearm: "k \<in> pend a \<Longrightarrow> port_step a (a\<lparr>run := insert k (run a), pend := pend a - {k}\<rparr>)"
| consume: "port_step a (a\<lparr>pend := pend a - {k}\<rparr>)"
| fire: "k \<in> run a \<Longrightarrow> port_step a (a\<lparr>pend := insert k (pend a)\<rparr>)"

section \<open>The invariant\<close>

definition timers_of :: "ptp_state \<Rightarrow> delay_mechanism \<Rightarrow> nat set" where
  "timers_of s m = (if s = PTP_SLAVE then starts PTP_UNCALIBRATED m else starts s m)"

definition port_inv :: "port_abs \<Rightarrow> bool" where
  "port_inv a \<longleftrightarrow>
     st a \<notin> {PTP_PRE_MASTER, PTP_DISABLED} \<and>
     (rcm a \<in> {PTP_INITIALIZING, PTP_LISTENING, PTP_MASTER, PTP_PASSIVE, PTP_SLAVE}) \<and>
     (st a = PTP_INITIALIZING \<longrightarrow> rcm a = PTP_INITIALIZING) \<and>
     (so a \<longrightarrow> st a \<notin> {PTP_MASTER, PTP_PASSIVE} \<and> rcm a \<notin> {PTP_MASTER, PTP_PASSIVE}) \<and>
     (hi a \<longrightarrow> st a \<notin> {PTP_UNCALIBRATED, PTP_SLAVE} \<and> rcm a \<noteq> PTP_SLAVE) \<and>
     (\<not> hi a \<longrightarrow> st a \<noteq> PTP_PASSIVE \<and> rcm a \<noteq> PTP_PASSIVE) \<and>
     run a = timers_of (st a) (mech a) \<and> pend a \<subseteq> run a"

definition same_opts :: "port_abs \<Rightarrow> port_abs \<Rightarrow> bool" where
  "same_opts a b \<longleftrightarrow> o_so b = o_so a \<and> o_hi b = o_hi a \<and> o_mech b = o_mech a"

lemmas port_defs = port_inv_def timers_of_def starts_def stops_def mech_timer_def peer_timer_def a_to_def

lemma port_inv_step: "port_step a b \<Longrightarrow> port_inv a \<Longrightarrow> port_inv b"
proof (induction rule: port_step.induct)
  case (decide a r)
  then show ?case by (auto simp: port_inv_def decisions_def Let_def split: if_splits)
next
  case (become_master a)
  then show ?case
    by (cases "st a"; cases "mech a") (auto simp: port_defs timer_ix_defs)
next
  case (become_passive a)
  then show ?case
    by (cases "st a"; cases "mech a") (auto simp: port_defs timer_ix_defs)
next
  case (calibrate a)
  then show ?case
    by (cases "st a"; cases "mech a") (auto simp: port_defs timer_ix_defs)
next
  case (become_listening a)
  then show ?case
    by (cases "st a"; cases "mech a") (auto simp: port_defs timer_ix_defs)
next
  case (fault a)
  then show ?case
    by (cases "st a"; cases "mech a") (auto simp: port_defs timer_ix_defs)
next
  case (timeout_master a)
  then show ?case
    by (cases "st a"; cases "mech a") (auto simp: port_defs timer_ix_defs)
next
  case (timeout_listening a)
  then show ?case
    by (cases "st a"; cases "mech a") (auto simp: port_defs timer_ix_defs)
next
  case (restart a)
  then show ?case
    by (cases "st a"; cases "mech a") (auto simp: port_defs timer_ix_defs)
qed (auto simp: port_defs a_init_def)

lemma port_inv_steps: "port_step\<^sup>*\<^sup>* a b \<Longrightarrow> port_inv a \<Longrightarrow> port_inv b"
  by (induction rule: rtranclp_induct) (auto intro: port_inv_step)

end
