(* ===== verification/ProtocolInv.thy ===== *)
theory ProtocolInv
  imports Protocol PortMachine
begin

text \<open>
  The detailed port implements the abstract one: every function of \<open>protocol.c\<close> moves the
  abstraction \<open>abs_of\<close> of the world only by moves of \<open>port_step\<close>.  Together with the
  invariant of the abstract machine this gives the invariants of all reachable worlds.
\<close>

section \<open>The abstraction\<close>

definition low_class :: "ClockQuality \<Rightarrow> bool" where "low_class q \<longleftrightarrow> clockClass q < 128"

definition abs_of :: "world \<Rightarrow> port_abs" where
  "abs_of w = \<lparr>
     st = port_state w, rcm = recommendedState (ptp w),
     so = slave_only w, hi = low_class (d_clockQuality (defaultDS (ptp w))),
     mech = delayMechanism (portDS (ptp w)),
     o_so = (r_slaveOnly (rtOpts (ptp w)) \<or> clockClass (r_clockQuality (rtOpts (ptp w))) = 255),
     o_hi = low_class (r_clockQuality (rtOpts (ptp w))),
     o_mech = r_delayMechanism (rtOpts (ptp w)),
     run = {k. k < TIMER_ARRAY_SIZE \<and> running k w},
     pend = {k. k < TIMER_ARRAY_SIZE \<and> expired k w}\<rparr>"

text \<open>A function on the clock that keeps the fields the abstraction reads.\<close>

definition view :: "PtpClock \<Rightarrow> ptp_state \<times> ptp_state \<times> DefaultDS \<times> delay_mechanism \<times> RunTimeOpts" where
  "view c = (portState (portDS c), recommendedState c, defaultDS c, delayMechanism (portDS c), rtOpts c)"

lemma abs_of_eq:
  assumes "view (ptp w) = view (ptp w')" "timers w = timers w'"
  shows "abs_of w = abs_of w'"
  using assms by (auto simp: abs_of_def view_def port_state_def slave_only_def running_def expired_def)

definition moves :: "world \<Rightarrow> world \<Rightarrow> bool" where
  "moves w w' \<longleftrightarrow> (timers_good w \<longrightarrow> timers_good w' \<and> port_step\<^sup>*\<^sup>* (abs_of w) (abs_of w'))"

definition quiet :: "world \<Rightarrow> world \<Rightarrow> bool" where
  "quiet w w' \<longleftrightarrow> view (ptp w') = view (ptp w) \<and> timers w' = timers w"

lemma quiet_refl [simp, intro]: "quiet w w" by (simp add: quiet_def)

lemma quiet_trans: "quiet w w' \<Longrightarrow> quiet w' w'' \<Longrightarrow> quiet w w''" by (simp add: quiet_def)

lemma quiet_abs: "quiet w w' \<Longrightarrow> abs_of w' = abs_of w \<and> timers_good w' = timers_good w"
  using abs_of_eq [of w' w] by (simp add: quiet_def timers_good_def)

lemma quiet_moves: "quiet w w' \<Longrightarrow> moves w w'"
  using quiet_abs [of w w'] by (simp add: moves_def)

lemma moves_refl [simp, intro]: "moves w w" by (simp add: moves_def)

lemma moves_trans: "moves w w' \<Longrightarrow> moves w' w'' \<Longrightarrow> moves w w''"
  by (auto simp: moves_def intro: rtranclp_trans)

lemma moves_step: "timers_good w' = timers_good w \<Longrightarrow> (timers_good w \<Longrightarrow> port_step (abs_of w) (abs_of w')) \<Longrightarrow> moves w w'"
  by (auto simp: moves_def)

text \<open>Operations that are quiet.\<close>

lemma quiet_on_clock: "(\<And>c. view (f c) = view c) \<Longrightarrow> quiet w (on_clock f w)"
  by (simp add: quiet_def)

lemma view_netPath [simp]: "view (c\<lparr>netPath := n\<rparr>) = view c" by (simp add: view_def)

lemma quiet_basic [simp, intro]:
  "quiet w (snd (ask f w))" "quiet w (on_net g w)" "quiet w (initClock w)"
  "quiet w (snd (getTime w))" "quiet w (setTime t w)" "quiet w (snd (adjTime a w))"
  "quiet w (snd (getRand m w))" "quiet w (pbuf_free p w)" "quiet w (ptpd_alert w)"
  "quiet w (set_obuf pk w)" "quiet w (netEmptyEventQ w)"
  by (auto simp: quiet_def view_def on_net_def pbuf_free_def ptpd_alert_def set_obuf_def)

lemma quiet_udp_sendto: "quiet w (snd (udp_sendto k b a p w))"
  unfolding udp_sendto_def Let_def split_beta
  by (cases "local_port k w = 0") (simp_all add: quiet_def set_local_port_def)

lemma quiet_tick [simp]: "quiet w (w'\<lparr>tick := n\<rparr>) = quiet w w'" "quiet w (w'\<lparr>wild_read := b\<rparr>) = quiet w w'"
  by (simp_all add: quiet_def)

lemma quiet_netSend: "quiet w (snd (netSend b l s t a k w))"
proof -
  have u: "quiet w (snd (udp_sendto k' b' a' p' (w\<lparr>tick := n\<rparr>)))" for k' b' a' p' n
    by (rule quiet_trans [OF _ quiet_udp_sendto]) simp
  show ?thesis
    unfolding netSend_def Let_def split_beta
    by (cases k; cases "e_alloc (env w) (tick w)"; cases "e_take (env w) (Suc (tick w))"; simp add: u)
qed

lemma quiet_sends [simp, intro]:
  "quiet w (snd (netSendEvent b l s t w))" "quiet w (snd (netSendGeneral b l t w))"
  "quiet w (snd (netSendPeerEvent b l s t w))" "quiet w (snd (netSendPeerGeneral b l t w))"
  by (simp_all add: netSendEvent_def netSendGeneral_def netSendPeerEvent_def netSendPeerGeneral_def
      quiet_netSend)

lemma quiet_netRecv: "quiet w (snd (netRecv b s t q w))"
  by (auto simp: netRecv_def Let_def split_beta quiet_def pbuf_free_def ask_def split: option.splits)

lemma quiet_recvs [simp, intro]:
  "quiet w (snd (netRecvEvent b s t w))" "quiet w (snd (netRecvGeneral b s t w))"
  unfolding netRecvEvent_def netRecvGeneral_def Let_def split_beta snd_conv
  by (rule quiet_trans [OF quiet_netRecv quiet_basic(2)])+

lemma quiet_updateClock_far: "quiet w (updateClock_far w)"
  unfolding updateClock_far_def Let_def split_beta by (auto intro: quiet_trans [OF _ quiet_basic(3)] simp: quiet_def view_def)

lemma quiet_updateClock_pi: "quiet w (updateClock_pi w)"
  unfolding updateClock_pi_def Let_def by (simp add: DEFAULT_PARENTS_STATS_def quiet_def view_def)

lemma quiet_updateClock [simp, intro]: "quiet w (updateClock w)"
  by (simp add: updateClock_def Let_def quiet_updateClock_far quiet_updateClock_pi)

lemma send_lengths [simp]:
  "fst (fst (netSendEvent b l s t w)) = int l" "fst (fst (netSendGeneral b l t w)) = int l"
  "fst (fst (netSendPeerEvent b l s t w)) = int l" "fst (fst (netSendPeerGeneral b l t w)) = int l"
  by (simp_all add: netSendEvent_def netSendGeneral_def netSendPeerEvent_def netSendPeerGeneral_def
      netSend_length)

section \<open>Timers and state changes\<close>

text \<open>Starting and stopping a set of timers; single operations compose to sets.\<close>

definition a_starts :: "nat set \<Rightarrow> port_abs \<Rightarrow> port_abs" where
  "a_starts K a = a\<lparr>run := run a \<union> K, pend := pend a - K\<rparr>"

definition a_stops :: "nat set \<Rightarrow> port_abs \<Rightarrow> port_abs" where
  "a_stops K a = a\<lparr>run := run a - K, pend := pend a - K\<rparr>"

lemma a_starts_simps [simp]:
  "a_starts K (a_starts L a) = a_starts (K \<union> L) a" "a_stops K (a_stops L a) = a_stops (K \<union> L) a"
  "a_starts {} a = a" "a_stops {} a = a"
  "st (a_starts K a) = st a" "rcm (a_starts K a) = rcm a" "mech (a_starts K a) = mech a"
  "st (a_stops K a) = st a" "rcm (a_stops K a) = rcm a" "mech (a_stops K a) = mech a"
  by (simp_all add: a_starts_def a_stops_def Diff_Un Un_assoc Un_commute Diff_Diff_Int Int_commute Un_left_commute
      set_diff_eq conj_commute conj_left_commute)

lemma a_to_alt: "a_to s a = (a_starts (starts s (mech a)) (a_stops (stops (st a) s (mech a)) a))
    \<lparr>st := (if s = PTP_PRE_MASTER then PTP_MASTER else s),
     rcm := (if s = PTP_INITIALIZING \<or> s = PTP_LISTENING then s else rcm a)\<rparr>"
  by (simp add: a_to_def a_starts_def a_stops_def)

lemma abs_timerStop:
  assumes "timers_good w" "k < TIMER_ARRAY_SIZE"
  shows "abs_of (timerStop k w) = a_stops {k} (abs_of w)"
  using assms by (auto simp: abs_of_def port_state_def slave_only_def timer_effects a_stops_def)

lemma abs_timerStart:
  assumes "timers_good w" "k < TIMER_ARRAY_SIZE"
  shows "abs_of (timerStart k ms w) = a_starts {k} (abs_of w)"
  using assms by (auto simp: abs_of_def port_state_def slave_only_def timer_effects a_starts_def)

lemma abs_timerStartRand:
  assumes "timers_good w" "k < TIMER_ARRAY_SIZE"
  shows "abs_of (timerStartRand k n w) = a_starts {k} (abs_of w)" "timers_good (timerStartRand k n w)"
proof -
  have q: "quiet w (snd (getRand n w))" by simp
  show "abs_of (timerStartRand k n w) = a_starts {k} (abs_of w)" "timers_good (timerStartRand k n w)"
    using quiet_abs [OF q] assms by (simp_all add: timerStartRand_def split_beta abs_timerStart)
qed

lemma abs_timerExpired:
  assumes "timers_good w" "k < TIMER_ARRAY_SIZE"
  shows "abs_of (snd (timerExpired k w)) = (abs_of w)\<lparr>pend := pend (abs_of w) - {k}\<rparr>"
    "fst (timerExpired k w) \<longleftrightarrow> k \<in> pend (abs_of w)"
  using assms by (auto simp: abs_of_def port_state_def slave_only_def timer_effects)

lemma timer_ix_less [simp]:
  "PDELAYREQ_INTERVAL_TIMER < TIMER_ARRAY_SIZE" "DELAYREQ_INTERVAL_TIMER < TIMER_ARRAY_SIZE"
  "SYNC_INTERVAL_TIMER < TIMER_ARRAY_SIZE" "ANNOUNCE_RECEIPT_TIMER < TIMER_ARRAY_SIZE"
  "ANNOUNCE_INTERVAL_TIMER < TIMER_ARRAY_SIZE" "QUALIFICATION_TIMEOUT < TIMER_ARRAY_SIZE"
  by (simp_all add: timer_ix_defs)

lemma abs_set_state [simp]:
  "abs_of (on_clock (set_portState s) w) = (abs_of w)\<lparr>st := s\<rparr>"
  "abs_of (on_clock (\<lambda>c. set_recommended r (set_portState s c)) w) = (abs_of w)\<lparr>st := s, rcm := r\<rparr>"
  "abs_of (on_clock (set_recommended r) w) = (abs_of w)\<lparr>rcm := r\<rparr>"
  by (simp_all add: abs_of_def set_portState_def set_recommended_def port_state_def slave_only_def
      running_def expired_def)

lemma good_on_clock [simp]: "timers_good (on_clock f w) = timers_good w"
  by (simp add: timers_good_def)

lemma good_initClock [simp]: "timers_good (initClock w) = timers_good w"
  by (simp add: timers_good_def)

lemma abs_initClock [simp]: "abs_of (initClock w) = abs_of w"
  using quiet_abs [of w "initClock w"] by simp

lemma abs_fields [simp]:
  "st (abs_of w) = port_state w" "rcm (abs_of w) = recommendedState (ptp w)"
  "mech (abs_of w) = delayMechanism (portDS (ptp w))" "so (abs_of w) = slave_only w"
  by (simp_all add: abs_of_def)

lemma timerStartRand_portDS [simp]:
  "portDS (ptp (timerStartRand k n w)) = portDS (ptp w)" "ptp (timerStartRand k n w) = ptp w"
  by (simp_all add: timerStartRand_def split_beta)

lemma leaveState_good [simp]: "timers_good (leaveState s w) = timers_good w"
  by (simp add: leaveState_def leaveSlave_def Let_def split: ptp_state.split delay_mechanism.split)

lemma abs_leaveSlave:
  assumes "timers_good w"
  shows "abs_of (leaveSlave s w) = a_stops (stops PTP_SLAVE s (delayMechanism (portDS (ptp w)))) (abs_of w)"
  using assms by (cases "delayMechanism (portDS (ptp w))")
    (simp_all add: leaveSlave_def Let_def abs_timerStop stops_def mech_timer_def insert_commute)

lemma abs_leaveState:
  assumes "timers_good w"
  shows "abs_of (leaveState s w) =
    a_stops (stops (port_state w) s (delayMechanism (portDS (ptp w)))) (abs_of w)"
  using assms by (cases "port_state w")
    (simp_all add: leaveState_def abs_timerStop abs_leaveSlave insert_commute, simp_all add: stops_def insert_commute)

lemma leaveState_view: "view (ptp (leaveState s w)) = view (ptp w)"
  by (simp add: leaveState_def leaveSlave_def Let_def view_def split: ptp_state.split delay_mechanism.split)

lemma abs_enterMaster:
  assumes "timers_good w"
  shows "abs_of (enterMaster w) =
      (a_starts (starts PTP_MASTER (delayMechanism (portDS (ptp w)))) (abs_of w))\<lparr>st := PTP_MASTER\<rparr>"
    "timers_good (enterMaster w)"
proof -
  define w0 where "w0 = on_clock (\<lambda>c. c\<lparr>portDS := (portDS c)\<lparr>logMinDelayReqInterval := DEFAULT_DELAYREQ_INTERVAL\<rparr>\<rparr>) w"
  have q: "quiet w w0" unfolding w0_def by (rule quiet_on_clock) (simp add: view_def)
  have m: "delayMechanism (portDS (ptp w0)) = delayMechanism (portDS (ptp w))" by (simp add: w0_def)
  have g: "timers_good w0" "abs_of w0 = abs_of w" using quiet_abs [OF q] assms by simp_all
  show "abs_of (enterMaster w) =
      (a_starts (starts PTP_MASTER (delayMechanism (portDS (ptp w)))) (abs_of w))\<lparr>st := PTP_MASTER\<rparr>"
    "timers_good (enterMaster w)"
    using g m unfolding enterMaster_def Let_def w0_def [symmetric]
    by (cases "delayMechanism (portDS (ptp w))";
        simp add: abs_timerStart abs_timerStartRand starts_def peer_timer_def insert_commute)+
qed

lemma abs_enterState:
  assumes "timers_good w"
  shows "abs_of (enterState s w) = (a_starts (starts s (delayMechanism (portDS (ptp w)))) (abs_of w))
      \<lparr>st := (if s = PTP_PRE_MASTER then PTP_MASTER else s),
       rcm := (if s = PTP_INITIALIZING \<or> s = PTP_LISTENING then s else rcm (abs_of w))\<rparr>"
    "timers_good (enterState s w)"
proof -
  have p: "starts PTP_PRE_MASTER m = starts PTP_MASTER m" for m by (simp add: starts_def)
  show "abs_of (enterState s w) = (a_starts (starts s (delayMechanism (portDS (ptp w)))) (abs_of w))
      \<lparr>st := (if s = PTP_PRE_MASTER then PTP_MASTER else s),
       rcm := (if s = PTP_INITIALIZING \<or> s = PTP_LISTENING then s else rcm (abs_of w))\<rparr>"
    using assms by (cases s; cases "delayMechanism (portDS (ptp w))";
      simp add: enterState_def Let_def abs_timerStart abs_timerStartRand abs_enterMaster p;
      simp add: starts_def peer_timer_def mech_timer_def insert_commute a_starts_def)
  show "timers_good (enterState s w)"
    using assms by (cases s; cases "delayMechanism (portDS (ptp w))")
      (simp_all add: enterState_def Let_def abs_timerStartRand abs_enterMaster)
qed

lemma abs_toState:
  assumes "timers_good w"
  shows "abs_of (toState s w) = a_to s (abs_of w)" "timers_good (toState s w)"
proof -
  define w0 where "w0 = on_clock (\<lambda>c. c\<lparr>messageActivity := True\<rparr>) w"
  have q: "quiet w w0" unfolding w0_def by (rule quiet_on_clock) (simp add: view_def)
  then have w0: "abs_of w0 = abs_of w" "timers_good w0" "port_state w0 = port_state w"
      "delayMechanism (portDS (ptp w0)) = delayMechanism (portDS (ptp w))"
    using quiet_abs [OF q] assms by (simp_all add: w0_def port_state_def)
  have v: "delayMechanism (portDS (ptp (leaveState s w0))) = delayMechanism (portDS (ptp w))"
    using leaveState_view [of s w0] by (simp add: view_def w0_def)
  have g: "timers_good (leaveState s w0)" using w0 by simp
  show "abs_of (toState s w) = a_to s (abs_of w)" "timers_good (toState s w)"
    unfolding toState_def w0_def [symmetric]
    by (simp_all only: abs_enterState [OF g] abs_leaveState [OF w0(2)] w0 v a_to_alt a_starts_simps abs_fields)
qed

section \<open>The functions of the protocol engine\<close>

lemma quiet_port [simp]: "quiet w w' \<Longrightarrow> port_state w' = port_state w"
  by (simp add: quiet_def view_def port_state_def)

lemma quiet_on: "quiet w w' \<Longrightarrow> (\<And>c. view (f c) = view c) \<Longrightarrow> quiet w (on_clock f w')"
  by (rule quiet_trans [OF _ quiet_on_clock])

lemmas quiet_back = quiet_trans [OF _ quiet_basic(1)] quiet_trans [OF _ quiet_basic(2)]
  quiet_trans [OF _ quiet_basic(3)] quiet_trans [OF _ quiet_basic(4)]
  quiet_trans [OF _ quiet_basic(10)] quiet_trans [OF _ quiet_sends(1)]
  quiet_trans [OF _ quiet_sends(2)] quiet_trans [OF _ quiet_sends(3)]
  quiet_trans [OF _ quiet_sends(4)] quiet_trans [OF _ quiet_recvs(1)]
  quiet_trans [OF _ quiet_recvs(2)] quiet_trans [OF _ quiet_updateClock] quiet_on quiet_refl

lemmas issue_defs = issueAnnounce_def issueFollowup_def issueSync_def issueDelayReq_def
  issuePDelayReq_def issuePDelayResp_def issueDelayResp_def issuePDelayRespFollowUp_def

text \<open>The issuers never see a send fail: \<open>netSend\<close> returns the length it was given.\<close>

lemma quiet_issueAnnounce: "quiet w (issueAnnounce w)"
  unfolding issueAnnounce_def Let_def split_beta
  by (simp add: ANNOUNCE_LENGTH_def) (intro quiet_back; simp add: view_def)

lemma quiet_issueFollowup: "quiet w (issueFollowup t w)"
  unfolding issueFollowup_def Let_def split_beta
  by (simp add: FOLLOW_UP_LENGTH_def del: ask_simps) (intro quiet_back)

lemma quiet_issueSync: "quiet w (issueSync w)"
  unfolding issueSync_def Let_def split_beta
  by (simp add: SYNC_LENGTH_def del: ask_simps)
    (intro conjI impI quiet_trans [OF _ quiet_issueFollowup] quiet_back; simp add: view_def)

lemma quiet_issueDelayReq: "quiet w (issueDelayReq w)"
  unfolding issueDelayReq_def Let_def split_beta
  by (simp add: DELAY_REQ_LENGTH_def del: ask_simps) (intro conjI impI quiet_back; simp add: view_def)

lemma quiet_issuePDelayReq: "quiet w (issuePDelayReq w)"
  unfolding issuePDelayReq_def Let_def split_beta
  by (simp add: PDELAY_REQ_LENGTH_def del: ask_simps) (intro conjI impI quiet_back; simp add: view_def)

lemma quiet_issuePDelayResp: "quiet w (snd (issuePDelayResp t h w))"
  unfolding issuePDelayResp_def Let_def split_beta
  by (simp add: PDELAY_RESP_LENGTH_def del: ask_simps) (intro conjI impI quiet_back)

lemma quiet_issueDelayResp: "quiet w (issueDelayResp t h w)"
  unfolding issueDelayResp_def Let_def split_beta
  by (simp add: PDELAY_RESP_LENGTH_def del: ask_simps) (intro conjI impI quiet_back)

lemma quiet_issuePDelayRespFollowUp: "quiet w (issuePDelayRespFollowUp t h w)"
  unfolding issuePDelayRespFollowUp_def Let_def split_beta
  by (simp add: PDELAY_RESP_FOLLOW_UP_LENGTH_def del: ask_simps) (intro conjI impI quiet_back)

lemmas quiet_issues = quiet_issueAnnounce quiet_issueFollowup quiet_issueSync quiet_issueDelayReq
  quiet_issuePDelayReq quiet_issuePDelayResp quiet_issueDelayResp quiet_issuePDelayRespFollowUp

lemma moves_toState:
  assumes "port_step (abs_of w) (a_to s (abs_of w))"
  shows "moves w (toState s w)"
  using assms abs_toState [of w s] by (auto simp: moves_def)

lemma moves_fault: "port_state w \<noteq> PTP_INITIALIZING \<Longrightarrow> moves w (toState PTP_FAULTY w)"
  by (rule moves_toState) (simp add: port_step.fault)

lemma moves_expired:
  assumes "k < TIMER_ARRAY_SIZE"
  shows "moves w (snd (timerExpired k w))"
  using assms port_step.consume [of "abs_of w" k] by (auto simp: moves_def abs_timerExpired)

text \<open>Reading an expired timer and starting it again at once.\<close>

lemma moves_rearm:
  assumes "fst (timerExpired k w)" "k < TIMER_ARRAY_SIZE"
  shows "moves w (timerStartRand k n (snd (timerExpired k w)))"
proof (cases "timers_good w")
  case True
  have "port_step (abs_of w) ((abs_of w)\<lparr>run := insert k (run (abs_of w)), pend := pend (abs_of w) - {k}\<rparr>)"
    using assms True by (intro port_step.rearm) (simp add: abs_timerExpired)
  then show ?thesis
    using True assms by (simp add: moves_def abs_timerStartRand abs_timerExpired a_starts_def r_into_rtranclp)
qed (simp add: moves_def)

lemma moves_issueDelayReqTimerExpired: "moves w (issueDelayReqTimerExpired w)"
proof -
  have "moves w (issueDelayReq (timerStartRand DELAYREQ_INTERVAL_TIMER n (snd (timerExpired DELAYREQ_INTERVAL_TIMER w))))"
    if "fst (timerExpired DELAYREQ_INTERVAL_TIMER w)" for n
    using moves_trans [OF moves_rearm [OF that] quiet_moves [OF quiet_issueDelayReq]] by simp
  moreover have "moves w (issuePDelayReq (timerStartRand PDELAYREQ_INTERVAL_TIMER n (snd (timerExpired PDELAYREQ_INTERVAL_TIMER w))))"
    if "fst (timerExpired PDELAYREQ_INTERVAL_TIMER w)" for n
    using moves_trans [OF moves_rearm [OF that] quiet_moves [OF quiet_issuePDelayReq]] by simp
  ultimately show ?thesis
    by (auto simp: issueDelayReqTimerExpired_def Let_def split_beta moves_expired split: delay_mechanism.split)
qed

lemma moves_restart:
  assumes "port_state w \<in> {PTP_UNCALIBRATED, PTP_SLAVE, PTP_PASSIVE}"
  shows "moves w (restart_receipt w)"
proof (cases "timers_good w")
  case True
  then show ?thesis
    using port_step.restart [of "abs_of w"] assms
    by (simp add: moves_def restart_receipt_def abs_timerStart a_starts_def r_into_rtranclp)
qed (simp add: moves_def)

lemma quiet_then_moves: "quiet w w' \<Longrightarrow> moves w' w'' \<Longrightarrow> moves w w''"
  by (rule moves_trans [OF quiet_moves])

lemma quiet_restart:
  assumes "quiet w w'" "port_state w \<in> {PTP_UNCALIBRATED, PTP_SLAVE, PTP_PASSIVE}"
  shows "moves w (restart_receipt w')"
  using assms quiet_port [OF assms(1)] by (intro quiet_then_moves [OF assms(1) moves_restart]) simp

lemma view_simps [simp]:
  "view (s1 h a c) = view c" "view (m1 c) = view c" "view (addForeign h a c) = view c"
  "view (raise_event e c) = view c" "view (clear_event e c) = view c"
  "view (updateOffset t1 t2 t3 c) = view c" "view (updateDelay t1 t2 t3 c) = view c"
  "view (c\<lparr>msgTmp := m\<rparr>) = view c"
  by (simp_all add: view_def raise_event_def clear_event_def)

lemma view_updatePeerDelay [simp]: "view (updatePeerDelay t b c) = view c"
proof -
  obtain d where "portDS (updatePeerDelay t b c) = (portDS c)\<lparr>peerMeanPathDelay := d\<rparr>"
    using updatePeerDelay_frame(1) by blast
  then show ?thesis by (simp add: view_def)
qed

lemma moves_handleAnnounce_slave:
  assumes "port_state w \<in> {PTP_UNCALIBRATED, PTP_SLAVE}"
  shows "moves w (handleAnnounce_slave w)"
proof -
  have q: "quiet w (on_clock (\<lambda>c. c\<lparr>msgTmp := m\<rparr>) (on_clock (raise_event e) w))" for m e
    by (intro quiet_back) simp_all
  have "quiet w (on_clock (s1 h a) (on_clock (\<lambda>c. c\<lparr>msgTmp := m\<rparr>) (on_clock (raise_event e) w)))" for h a m e
    by (rule quiet_on [OF q]) simp
  then have "moves w (restart_receipt
      (on_clock (s1 h a) (on_clock (\<lambda>c. c\<lparr>msgTmp := m\<rparr>) (on_clock (raise_event e) w))))" for h a m e
    using assms by (intro quiet_restart) auto
  moreover have "moves w (on_clock (addForeign h a)
      (on_clock (\<lambda>c. c\<lparr>msgTmp := m\<rparr>) (on_clock (raise_event e) w)))" for h a m e
    by (intro quiet_moves quiet_on [OF q]) simp
  ultimately show ?thesis by (simp add: handleAnnounce_slave_def Let_def)
qed

lemma moves_handleAnnounce:
  assumes "port_state w \<noteq> PTP_INITIALIZING"
  shows "moves w (handleAnnounce s w)"
proof -
  have q: "quiet w' (on_clock (addForeign h a) (on_clock (raise_event e) (on_clock (\<lambda>c. c\<lparr>msgTmp := m\<rparr>) w')))"
    for w' h a e m by (intro quiet_back) simp_all
  have "moves w (on_clock (addForeign h a) (on_clock (raise_event e) (on_clock (\<lambda>c. c\<lparr>msgTmp := m\<rparr>) (restart_receipt w))))"
    if "port_state w = PTP_PASSIVE" for h a e m
    using that by (intro moves_trans [OF moves_restart quiet_moves [OF q]]) simp
  then show ?thesis
    using assms q moves_fault [OF assms] moves_handleAnnounce_slave [of w]
    by (cases "port_state w") (auto simp: handleAnnounce_def Let_def intro: quiet_moves)
qed

lemma moves_handleSync_slave: "moves w (handleSync_slave t s w)"
  unfolding handleSync_slave_def Let_def split_beta
  by (auto simp del: ask_simps intro!: quiet_moves moves_trans [OF quiet_moves moves_issueDelayReqTimerExpired]
      quiet_back simp: view_def)

lemma moves_handleSync:
  assumes "port_state w \<noteq> PTP_INITIALIZING"
  shows "moves w (handleSync t s w)"
  using assms moves_fault [OF assms] moves_issueDelayReqTimerExpired [of w] moves_handleSync_slave
  by (cases "port_state w") (auto simp: handleSync_def)

lemma moves_handleFollowUp_slave: "moves w (handleFollowUp_slave w)"
  unfolding handleFollowUp_slave_def Let_def split_beta
  by (auto simp del: ask_simps intro!: quiet_moves moves_trans [OF quiet_moves moves_issueDelayReqTimerExpired]
      quiet_back simp: view_def)

lemma moves_handleFollowUp:
  assumes "port_state w \<noteq> PTP_INITIALIZING"
  shows "moves w (handleFollowUp s w)"
  using assms moves_fault [OF assms] moves_issueDelayReqTimerExpired [of w] moves_handleFollowUp_slave
  by (cases "port_state w") (auto simp: handleFollowUp_def)


lemma moves_handleDelayReq:
  assumes "port_state w \<noteq> PTP_INITIALIZING"
  shows "moves w (handleDelayReq t s w)"
  using assms moves_fault [OF assms] quiet_moves [OF quiet_issueDelayResp]
  by (auto simp: handleDelayReq_def split: delay_mechanism.split ptp_state.split)

lemma moves_handleDelayResp:
  assumes "port_state w \<noteq> PTP_INITIALIZING"
  shows "moves w (handleDelayResp s w)"
  unfolding handleDelayResp_def Let_def
  using moves_fault [OF assms]
  by (auto split: delay_mechanism.split intro!: quiet_moves quiet_back simp: view_def)

lemma moves_handlePDelayReq:
  assumes "port_state w \<noteq> PTP_INITIALIZING"
  shows "moves w (handlePDelayReq t s w)"
  unfolding handlePDelayReq_def Let_def split_beta
  using moves_fault [OF assms]
  by (auto split: delay_mechanism.split intro!: quiet_moves quiet_issuePDelayResp
      quiet_trans [OF quiet_issuePDelayResp quiet_issuePDelayRespFollowUp])

lemma moves_handlePDelayResp:
  assumes "port_state w \<noteq> PTP_INITIALIZING"
  shows "moves w (handlePDelayResp t s w)"
proof -
  have v: "view (updatePeerDelay corr False (c\<lparr>waitingForPDelayRespFollowUp := b, pdelay_t4 := t\<rparr>)) = view c"
    for corr c b by (simp add: view_updatePeerDelay) (simp add: view_def)
  show ?thesis
    unfolding handlePDelayResp_def Let_def split_beta
    using moves_fault [OF assms]
    by (auto split: delay_mechanism.split intro!: quiet_moves quiet_back simp: v simp del: ask_simps)
      (simp_all add: view_def)
qed

lemma moves_handlePDelayRespFollowUp:
  assumes "port_state w \<noteq> PTP_INITIALIZING"
  shows "moves w (handlePDelayRespFollowUp s w)"
  unfolding handlePDelayRespFollowUp_def Let_def split_beta
  using moves_fault [OF assms]
  by (auto split: delay_mechanism.split intro!: quiet_moves quiet_back simp del: ask_simps)
    (simp_all add: view_def)

lemma moves_dispatch:
  assumes "port_state w \<noteq> PTP_INITIALIZING"
  shows "moves w (dispatch t w)"
  using assms
  by (simp add: dispatch_def Let_def handleManagement_def handleSignaling_def
      moves_handleAnnounce moves_handleSync moves_handleFollowUp moves_handleDelayReq
      moves_handlePDelayReq moves_handleDelayResp moves_handlePDelayResp
      moves_handlePDelayRespFollowUp)

lemma moves_quiet_dispatch: "quiet w w' \<Longrightarrow> port_state w \<noteq> PTP_INITIALIZING \<Longrightarrow> moves w (dispatch t w')"
  by (rule quiet_then_moves [OF _ moves_dispatch]) simp_all

lemma moves_quiet_fault: "quiet w w' \<Longrightarrow> port_state w \<noteq> PTP_INITIALIZING \<Longrightarrow> moves w (toState PTP_FAULTY w')"
  by (rule quiet_then_moves [OF _ moves_fault]) simp_all

lemma moves_handle_message:
  assumes "port_state w \<noteq> PTP_INITIALIZING"
  shows "moves w (handle_message t w)"
proof -
  have q: "quiet w (on_clock (\<lambda>c. c\<lparr>messageActivity := True\<rparr>) w)"
    "quiet w (on_clock (\<lambda>c. c\<lparr>msgTmpHeader := msgUnpackHeader (msgIbuf c)\<rparr>)
      (on_clock (\<lambda>c. c\<lparr>messageActivity := True\<rparr>) w))"
    by (intro quiet_back; simp add: view_def)+
  show ?thesis
    unfolding handle_message_def Let_def
    using moves_quiet_fault [OF q(1) assms] moves_quiet_dispatch [OF q(2) assms] quiet_moves [OF q(2)]
    by simp
qed

lemma moves_handle_poll:
  assumes "port_state w \<noteq> PTP_INITIALIZING"
  shows "moves w (handle_poll w)"
proof -
  have v: "view (store_rx n b c) = view c" for n b c by (simp add: view_def store_rx_def)
  have q1: "quiet w (on_clock (store_rx n b) (snd (netRecvEvent i st z w)))" for n b i st z
    by (intro quiet_back) (simp add: v)
  have q2: "quiet w (on_clock (store_rx n' b') (snd (netRecvGeneral i' st' z'
      (on_clock (store_rx n b) (snd (netRecvEvent i st z w))))))" for n b i st z n' b' i' st' z'
    by (intro quiet_back) (simp_all add: v)
  have m: "moves w (handle_message t w')" if "quiet w w'" for t w'
    using that assms by (intro quiet_then_moves [OF that moves_handle_message]) simp
  show ?thesis
    unfolding handle_poll_def Let_def split_beta
    using moves_quiet_fault [OF q1 assms] moves_quiet_fault [OF q2 assms] m [OF q1] m [OF q2]
      quiet_moves [OF q2]
    by (simp del: on_clock_simps)
qed

lemma moves_handle:
  assumes "port_state w \<noteq> PTP_INITIALIZING"
  shows "moves w (handle w)"
  using assms moves_handle_poll [OF assms] moves_fault [OF assms] by (simp add: handle_def Let_def)

section \<open>The main step\<close>

lemma quiet_bmc: "quiet w (snd (bmc w))"
  by (simp add: quiet_def view_def)

lemma slave_only_quiet: "quiet w w' \<Longrightarrow> slave_only w' = slave_only w"
  by (simp add: quiet_def view_def slave_only_def)

lemma moves_decide: "moves w (doState_decide w)"
proof (cases "port_state w \<in> active_states \<and> getFlag (events (ptp w)) STATE_DECISION_EVENT")
  case True
  define w1 where "w1 = on_clock (clear_event STATE_DECISION_EVENT) w"
  define s where "s = fst (bmc w1)"
  have q1: "quiet w w1" unfolding w1_def by (intro quiet_on) auto
  have q: "quiet w (snd (bmc w1))" by (rule quiet_trans [OF q1 quiet_bmc])
  have low: "hi (abs_of w) = low_class (d_clockQuality (defaultDS (ptp w1)))"
    by (simp add: abs_of_def w1_def clear_event_def)
  have st1: "port_state w1 = port_state w" using q1 by simp
  have r: "s \<in> {PTP_LISTENING, PTP_MASTER, PTP_PASSIVE, PTP_SLAVE}"
    "s = PTP_LISTENING \<Longrightarrow> port_state w = PTP_LISTENING"
    "s = PTP_PASSIVE \<Longrightarrow> hi (abs_of w)" "s = PTP_SLAVE \<Longrightarrow> \<not> hi (abs_of w)"
    subgoal using bmc_result(1) [of w1] by (simp only: s_def)
    subgoal using bmc_result(2) [of w1] st1 by (simp only: s_def)
    subgoal using bmc_result(3) [of w1] low by (simp only: s_def low_class_def)
    subgoal using bmc_result(4) [of w1] low by (simp only: s_def low_class_def) simp
    done
  define r' where "r' = (if (s = PTP_MASTER \<or> s = PTP_PASSIVE) \<and> slave_only w then PTP_LISTENING else s)"
  have "r' \<in> decisions (abs_of w)" using r by (auto simp: r'_def decisions_def Let_def)
  then have "port_step (abs_of w) ((abs_of w)\<lparr>rcm := r'\<rparr>)"
    using True by (intro port_step.decide) (auto simp: active_states_def)
  moreover have "abs_of (doState_decide w) = (abs_of w)\<lparr>rcm := r'\<rparr>"
    "timers_good (doState_decide w) = timers_good w"
  proof -
    have so: "slave_only (on_clock (set_recommended s) (snd (bmc w1))) = slave_only w"
      using slave_only_quiet [OF q] by (simp add: slave_only_def set_recommended_def)
    have d: "doState_decide w = (if (s = PTP_MASTER \<or> s = PTP_PASSIVE) \<and> slave_only w
        then on_clock (set_recommended PTP_LISTENING) (on_clock (set_recommended s) (snd (bmc w1)))
        else on_clock (set_recommended s) (snd (bmc w1)))"
      using True so by (simp add: doState_decide_def Let_def split_beta w1_def [symmetric] s_def [symmetric])
    show "abs_of (doState_decide w) = (abs_of w)\<lparr>rcm := r'\<rparr>"
      "timers_good (doState_decide w) = timers_good w"
      using quiet_abs [OF q] by (auto simp: d r'_def)
  qed
  ultimately show ?thesis by (intro moves_step) simp_all
next
  case False
  then have "doState_decide w = w" unfolding doState_decide_def by (simp only: if_False)
  then show ?thesis by simp
qed

lemma on_clear: "quiet w (on_clock (clear_event e) w)"
  by (rule quiet_on_clock) simp

lemma quiet_rcm: "quiet w w' \<Longrightarrow> recommendedState (ptp w') = recommendedState (ptp w)"
  by (simp add: quiet_def view_def)

lemma moves_calibrate:
  assumes "quiet w w'" "recommendedState (ptp w) = PTP_SLAVE"
  shows "moves w (toState PTP_UNCALIBRATED w')"
  using assms quiet_rcm [OF assms(1)]
  by (intro quiet_then_moves [OF assms(1) moves_toState] port_step.calibrate) simp

lemma toState_rcm:
  "s \<noteq> PTP_INITIALIZING \<Longrightarrow> s \<noteq> PTP_LISTENING \<Longrightarrow> timers_good w \<Longrightarrow>
    recommendedState (ptp (toState s w)) = recommendedState (ptp w)"
  using arg_cong [OF abs_toState(1) [of w s], of rcm] by (simp add: a_to_def)

lemma clear_event_simps [simp]:
  "recommendedState (clear_event e c) = recommendedState c" "portDS (clear_event e c) = portDS c"
  "port_state (on_clock (clear_event e) w) = port_state w"
  by (simp_all add: clear_event_def port_state_def)

lemma moves_calibrating:
  assumes "port_state w = PTP_UNCALIBRATED" "recommendedState (ptp w) = PTP_SLAVE"
  shows "moves w (toState PTP_SLAVE (on_clock (clear_event e) w))"
  by (intro quiet_then_moves [OF on_clear moves_toState] port_step.calibrated) (use assms on_clear in simp_all)

lemma moves_slave_twice:
  assumes "port_state w = PTP_SLAVE" "recommendedState (ptp w) = PTP_SLAVE"
  shows "moves w (toState PTP_UNCALIBRATED (on_clock (clear_event e')
     (toState PTP_UNCALIBRATED (on_clock (clear_event e) w))))"
proof (cases "timers_good w")
  case True
  let ?w1 = "toState PTP_UNCALIBRATED (on_clock (clear_event e) w)"
  have "recommendedState (ptp ?w1) = PTP_SLAVE"
    using True assms quiet_rcm [OF on_clear] by (subst toState_rcm) simp_all
  then show ?thesis
    by (intro moves_trans [OF moves_calibrate [OF on_clear assms(2)] moves_calibrate [OF on_clear]])
qed (simp add: moves_def)

lemma moves_recommended: "moves w (doState_recommended w)"
proof (cases "recommendedState (ptp w)")
  case PTP_MASTER
  have q: "moves w (toState PTP_MASTER (snd (timerExpired QUALIFICATION_TIMEOUT w)))" if "port_state w = PTP_PRE_MASTER"
  proof (cases "timers_good w")
    case True
    have g: "abs_of (snd (timerExpired QUALIFICATION_TIMEOUT w)) =
        (abs_of w)\<lparr>pend := pend (abs_of w) - {QUALIFICATION_TIMEOUT}\<rparr>"
      using True by (simp add: abs_timerExpired)
    show ?thesis
      using that PTP_MASTER by (intro moves_trans [OF moves_expired moves_toState] port_step.qualify)
        (simp_all add: g)
  qed (simp add: moves_def)
  have "moves w (toState PTP_PRE_MASTER w)" if "port_state w \<noteq> PTP_MASTER"
    using that PTP_MASTER by (intro moves_toState port_step.become_master) simp_all
  then show ?thesis
    using q PTP_MASTER moves_expired [of QUALIFICATION_TIMEOUT w]
    by (cases "port_state w") (simp_all add: doState_recommended_def Let_def split_beta)
next
  case PTP_PASSIVE
  then show ?thesis
    using moves_toState [of w PTP_PASSIVE] port_step.become_passive [of "abs_of w"]
    by (auto simp: doState_recommended_def)
next
  case PTP_LISTENING
  then show ?thesis
    using moves_toState [of w PTP_LISTENING] port_step.become_listening [of "abs_of w"]
    by (auto simp: doState_recommended_def)
next
  case PTP_SLAVE
  have cal: "moves w (toState PTP_UNCALIBRATED (on_clock (clear_event e) w))" "moves w (toState PTP_UNCALIBRATED w)" for e
    using PTP_SLAVE by (auto intro: moves_calibrate [OF on_clear] moves_calibrate [OF quiet_refl])
  consider "port_state w = PTP_UNCALIBRATED" | "port_state w = PTP_SLAVE"
    | "port_state w \<noteq> PTP_UNCALIBRATED" "port_state w \<noteq> PTP_SLAVE" by blast
  then show ?thesis
  proof cases
    case 1
    define w1 where "w1 = (if getFlag (events (ptp w)) MASTER_CLOCK_SELECTED
        then toState PTP_SLAVE (on_clock (clear_event MASTER_CLOCK_SELECTED) w) else w)"
    have "moves w w1" using moves_calibrating [OF 1 PTP_SLAVE] by (simp add: w1_def)
    moreover have "moves w1 (on_clock (clear_event e) w1)" for e by (rule quiet_moves [OF on_clear])
    ultimately show ?thesis
      using 1 PTP_SLAVE by (auto simp: doState_recommended_def Let_def w1_def [symmetric] intro: moves_trans)
  next
    case 2
    then show ?thesis
      using PTP_SLAVE cal moves_slave_twice [OF 2 PTP_SLAVE]
      by (simp add: doState_recommended_def Let_def del: on_clock_simps)
  next
    case 3
    then show ?thesis
      using PTP_SLAVE cal by (cases "port_state w") (simp_all add: doState_recommended_def)
  qed
qed (simp_all add: doState_recommended_def)


lemma abs_m1 [simp]: "abs_of (on_clock m1 w) = abs_of w"
  using quiet_abs [OF quiet_on_clock [of m1 w]] by simp

lemma toState_MASTER_start:
  "abs_of (on_clock (set_recommended PTP_MASTER) (on_clock m1 w)) = (abs_of w)\<lparr>rcm := PTP_MASTER\<rparr>"
  by simp

lemma moves_timeout:
  assumes "port_state w \<in> {PTP_LISTENING, PTP_UNCALIBRATED, PTP_SLAVE, PTP_PASSIVE}"
  shows "\<not> slave_only w \<Longrightarrow> moves w (toState PTP_MASTER (on_clock (set_recommended PTP_MASTER) (on_clock m1 w)))"
    "slave_only w \<Longrightarrow> port_state w \<noteq> PTP_LISTENING \<Longrightarrow> moves w (toState PTP_LISTENING w)"
proof -
  show "moves w (toState PTP_MASTER (on_clock (set_recommended PTP_MASTER) (on_clock m1 w)))" if "\<not> slave_only w"
  proof (cases "timers_good w")
    case True
    then show ?thesis
      using port_step.timeout_master [of "abs_of w"] assms that abs_toState [of "on_clock (set_recommended PTP_MASTER) (on_clock m1 w)" PTP_MASTER]
      by (simp add: moves_def toState_MASTER_start r_into_rtranclp)
  qed (simp add: moves_def)
  show "moves w (toState PTP_LISTENING w)" if "slave_only w" "port_state w \<noteq> PTP_LISTENING"
    using that assms by (intro moves_toState port_step.timeout_listening) auto
qed

lemma timerExpired_port [simp]: "port_state (snd (timerExpired k w)) = port_state w"
  by (simp add: port_state_def)

lemma moves_passive:
  assumes "port_state w \<in> {PTP_LISTENING, PTP_UNCALIBRATED, PTP_SLAVE, PTP_PASSIVE}"
  shows "moves w (doState_passive w)"
proof -
  define w1 where "w1 = snd (timerExpired ANNOUNCE_RECEIPT_TIMER w)"
  define w2 where "w2 = on_clock (\<lambda>c. c\<lparr>foreignMasterDS := (foreignMasterDS c)\<lparr>fm_count := 0, fm_i := 0\<rparr>\<rparr>) w1"
  have m: "moves w w1" unfolding w1_def by (rule moves_expired) simp
  have q: "quiet w1 w2" unfolding w2_def by (rule quiet_on_clock) (simp add: view_def)
  have p: "port_state w1 = port_state w" by (simp add: w1_def)
  have p2: "port_state w2 = port_state w" using p quiet_port [OF q] by simp
  have w2: "moves w2 (if \<not> slave_only w2 then toState PTP_MASTER (on_clock (set_recommended PTP_MASTER) (on_clock m1 w2))
      else if port_state w2 \<noteq> PTP_LISTENING then toState PTP_LISTENING w2 else w2)"
    using moves_timeout [of w2] assms p2 by auto
  have h: "moves w1 (handle w1)" using assms p by (intro moves_handle) auto
  show ?thesis
    using moves_trans [OF m quiet_then_moves [OF q w2]] moves_trans [OF m h]
    unfolding doState_passive_def Let_def split_beta w1_def [symmetric] w2_def [symmetric] by simp
qed

lemma moves_master:
  assumes "port_state w = PTP_MASTER"
  shows "moves w (doState_master w)"
proof -
  define w1 where "w1 = snd (timerExpired SYNC_INTERVAL_TIMER w)"
  define w2 where "w2 = (if fst (timerExpired SYNC_INTERVAL_TIMER w) then issueSync w1 else w1)"
  define w3 where "w3 = snd (timerExpired ANNOUNCE_INTERVAL_TIMER w2)"
  define w4 where "w4 = (if fst (timerExpired ANNOUNCE_INTERVAL_TIMER w2) then issueAnnounce w3 else w3)"
  have m: "moves w w1" "moves w2 w3" by (simp_all add: w1_def w3_def moves_expired)
  have q: "quiet w1 w2" "quiet w3 w4" by (simp_all add: w2_def w4_def quiet_issues)
  have p: "port_state w4 = PTP_MASTER"
    using quiet_port [OF q(1)] quiet_port [OF q(2)] assms by (simp add: w1_def w3_def)
  have "moves w w4"
    using moves_trans [OF m(1) quiet_then_moves [OF q(1) moves_trans [OF m(2) quiet_moves [OF q(2)]]]] .
  then have "moves w (issueDelayReqTimerExpired (handle w4))"
    using p by (intro moves_trans [OF _ moves_issueDelayReqTimerExpired] moves_trans [OF _ moves_handle]) simp_all
  then show ?thesis
    unfolding doState_master_def Let_def split_beta w1_def [symmetric] w2_def [symmetric]
      w3_def [symmetric] w4_def [symmetric] .
qed

lemma quiet_let:
  "quiet w a \<Longrightarrow> (\<And>v. quiet w v \<Longrightarrow> quiet w (snd (f v))) \<Longrightarrow> quiet w (snd (Let a f))"
  "quiet w (snd p) \<Longrightarrow> (\<And>x v. quiet w v \<Longrightarrow> quiet w (snd (g x v))) \<Longrightarrow> quiet w (snd (Let p (case_prod g)))"
  "(c \<Longrightarrow> quiet w (snd t)) \<Longrightarrow> (\<not> c \<Longrightarrow> quiet w (snd e)) \<Longrightarrow> quiet w (snd (if c then t else e))"
  by (simp_all add: Let_def split_beta)

lemma quiet_udp:
  "quiet w (snd (udp_new w))" "quiet w (udp_remove p w)" "quiet w (udp_bind p n w)"
  "quiet w (snd (findIface w))"
  by (auto simp: udp_new_def udp_remove_def udp_bind_def findIface_def set_local_port_def quiet_def view_def
      Let_def ask_def split: option.split)

lemma quiet_netInit: "quiet w (snd (netInit w))"
  unfolding netInit_def
  by (assumption | rule quiet_let(2) | rule quiet_let(1) | rule quiet_let(3) | rule quiet_refl
    | rule quiet_trans [OF _ quiet_basic(2)] | rule quiet_trans [OF _ quiet_udp(1)]
    | rule quiet_trans [OF _ quiet_udp(2)] | rule quiet_trans [OF _ quiet_udp(3)]
    | rule quiet_trans [OF _ quiet_udp(4)] | simp only: snd_conv)+

lemma abs_initData:
  "abs_of (on_clock initData w) = (abs_of w)\<lparr>so := o_so (abs_of w), hi := o_hi (abs_of w), mech := o_mech (abs_of w)\<rparr>"
  by (simp add: abs_of_def initData_def Let_def port_state_def slave_only_def running_def expired_def)

lemma abs_initTimer:
  assumes "timers_good w"
  shows "abs_of (initTimer w) = (abs_of w)\<lparr>run := {}, pend := {}\<rparr>"
  using assms initTimer_effects [OF assms] by (auto simp: abs_of_def port_state_def slave_only_def)

lemma doInit_abs:
  assumes "timers_good w"
  shows "fst (doInit w) \<Longrightarrow> abs_of (snd (doInit w)) = a_init (abs_of w)"
    "\<not> fst (doInit w) \<Longrightarrow> abs_of (snd (doInit w)) = abs_of w" "timers_good (snd (doInit w))"
proof -
  define w1 where "w1 = snd (netInit w)"
  have q: "abs_of w1 = abs_of w" "timers_good w1"
    using quiet_abs [OF quiet_netInit [of w]] assms by (simp_all add: w1_def)
  have "quiet w' (on_clock (\<lambda>c. c\<lparr>msgObuf := msgPackHeader c (msgObuf c)\<rparr>) (on_clock m1 (initClock w')))" for w'
    by (intro quiet_back; simp add: view_def)
  note q2 = quiet_abs [OF this]
  show "fst (doInit w) \<Longrightarrow> abs_of (snd (doInit w)) = a_init (abs_of w)"
    "\<not> fst (doInit w) \<Longrightarrow> abs_of (snd (doInit w)) = abs_of w" "timers_good (snd (doInit w))"
    using q unfolding doInit_def Let_def split_beta w1_def [symmetric]
    by (cases "fst (netInit w)"; simp add: q2 abs_initTimer abs_initData a_init_def)+
qed

lemma moves_act: "moves w (doState_act w)"
proof (cases "port_state w")
  case PTP_INITIALIZING
  have "moves w (if fst (doInit w) then toState PTP_LISTENING (snd (doInit w)) else toState PTP_FAULTY (snd (doInit w)))"
  proof (cases "timers_good w")
    case True
    then show ?thesis
      using doInit_abs [OF True] abs_toState [of "snd (doInit w)"] PTP_INITIALIZING
        port_step.initialized [of "abs_of w"] port_step.init_failed [of "abs_of w"]
      by (simp add: moves_def r_into_rtranclp)
  qed (simp add: moves_def)
  then show ?thesis using PTP_INITIALIZING by (simp add: doState_act_def split_beta)
next
  case PTP_FAULTY
  then show ?thesis
    using port_step.fault_cleared [of "abs_of w"] by (simp add: doState_act_def moves_toState)
next
  case PTP_MASTER
  then show ?thesis by (simp add: doState_act_def moves_master)
next
  case PTP_DISABLED
  then show ?thesis by (simp add: doState_act_def moves_handle)
qed (simp_all add: doState_act_def moves_passive)

text \<open>The simulation: \<open>doState\<close> makes only moves of the abstract port.\<close>

lemma moves_doState: "moves w (doState w)"
proof -
  have "moves w (on_clock (\<lambda>c. c\<lparr>messageActivity := False\<rparr>) w)"
    by (intro quiet_moves quiet_on_clock) (simp add: view_def)
  then show ?thesis
    unfolding doState_def
    using moves_trans [OF moves_trans [OF moves_trans [OF _ moves_decide] moves_recommended] moves_act] by blast
qed

end
