(* ===== verification/System.thy ===== *)
theory System
  imports ProtocolInv
begin

text \<open>
  The running daemon: the world it boots into, the events that interleave with \<open>doState\<close>
  (packets delivered by the TCP/IP thread, timer callbacks), the reachable worlds, and the
  invariants they satisfy by the simulation of theory \<open>ProtocolInv\<close>.
\<close>

section \<open>Boot\<close>

text \<open>The options are stored over the zero-initialised static data (\<open>boot_world\<close>).\<close>

definition boot :: "RunTimeOpts \<Rightarrow> env \<Rightarrow> world" where
  "boot opts e = snd (ptpdStartup opts
     (replicate (nat (r_maxForeignRecords opts)) zero_record) (boot_world e))"

section \<open>Events\<close>

text \<open>
  lwIP delivers a datagram only through a live control block; \<open>netInit\<close> registers the callbacks
  on the two it opens, and removing a block ends its deliveries.
\<close>

definition delivers :: "nat option \<Rightarrow> world \<Rightarrow> bool" where
  "delivers pcb w \<longleftrightarrow> (case pcb of Some k \<Rightarrow> k \<in> fst ` set (pcbs w) | None \<Rightarrow> False)"

inductive ptp_step :: "world \<Rightarrow> world \<Rightarrow> bool" where
  step_state: "ptp_step w (doState w)"
| step_event_packet: "delivers (eventPcb (netPath (ptp w))) w \<Longrightarrow> wf_pbuf p \<Longrightarrow>
     ptp_step w (netRecvEventCallback p w)"
| step_general_packet: "delivers (generalPcb (netPath (ptp w))) w \<Longrightarrow> wf_pbuf p \<Longrightarrow>
     ptp_step w (netRecvGeneralCallback p w)"
| step_timer: "k < TIMER_ARRAY_SIZE \<Longrightarrow> running k w \<Longrightarrow> ptp_step w (timerCallback k w)"

inductive_cases ptp_stepE: "ptp_step w w'"

definition reachable :: "RunTimeOpts \<Rightarrow> env \<Rightarrow> world \<Rightarrow> bool" where
  "reachable opts e w \<longleftrightarrow> ptp_step\<^sup>*\<^sup>* (boot opts e) w"

lemma reachable_induct [consumes 1, case_names boot step]:
  assumes "reachable opts e w" "P (boot opts e)"
    "\<And>w w'. reachable opts e w \<Longrightarrow> P w \<Longrightarrow> ptp_step w w' \<Longrightarrow> P w'"
  shows "P w"
  using assms(1,2) unfolding reachable_def
  by (induction rule: rtranclp_induct) (auto intro: assms(3) simp: reachable_def)

section \<open>The state machine of reachable worlds\<close>

lemma quiet_callbacks:
  "quiet w (netRecvEventCallback p w)" "quiet w (netRecvGeneralCallback p w)"
  by (simp_all add: netRecvEventCallback_def netRecvGeneralCallback_def Let_def split_beta quiet_def
      pbuf_free_def ptpd_alert_def on_net_def)

lemma moves_ptp_step: "ptp_step w w' \<Longrightarrow> moves w w'"
proof (induction rule: ptp_step.induct)
  case (step_timer k w)
  show ?case
  proof (cases "timers_good w")
    case True
    have "abs_of (timerCallback k w) = (abs_of w)\<lparr>pend := insert k (pend (abs_of w))\<rparr>"
      using step_timer True by (auto simp: abs_of_def port_state_def slave_only_def timer_effects)
    moreover have "port_step (abs_of w) ((abs_of w)\<lparr>pend := insert k (pend (abs_of w))\<rparr>)"
      using step_timer by (intro port_step.fire) (simp add: abs_of_def)
    ultimately show ?thesis by (simp add: moves_def r_into_rtranclp)
  qed (simp add: moves_def)
qed (auto intro: moves_doState quiet_moves quiet_callbacks)

definition start_opts :: "RunTimeOpts \<Rightarrow> RunTimeOpts" where
  "start_opts opts = rtOpts (ptp (snd (ptpdStartup opts [] (boot_world undefined))))"

lemma boot_abs:
  "timers_good (boot opts e)" "st (abs_of (boot opts e)) = PTP_INITIALIZING"
  "rcm (abs_of (boot opts e)) = PTP_INITIALIZING" "run (abs_of (boot opts e)) = {}"
  "pend (abs_of (boot opts e)) = {}" "\<not> so (abs_of (boot opts e))"
proof -
  define w0 where "w0 = (\<lambda>opts' foreign. on_clock (\<lambda>c. c\<lparr>rtOpts := opts',
      foreignMasterDS := (foreignMasterDS c)\<lparr>fm_records := foreign\<rparr>\<rparr>) (boot_world e))"
  have g: "timers_good (w0 o' f)" for o' f by (simp add: w0_def timers_good_def boot_world_def)
  have st: "port_state (w0 o' f) = PTP_INITIALIZING" "\<not> slave_only (w0 o' f)" for o' f
    by (simp_all add: w0_def port_state_def slave_only_def boot_world_def zero_clock_def zero_quality_def)
  have rp: "run (abs_of (w0 o' f)) = {}" "pend (abs_of (w0 o' f)) = {}" for o' f
    by (auto simp: abs_of_def w0_def running_def expired_def boot_world_def)
  obtain o' f where b: "boot opts e = toState PTP_INITIALIZING (w0 o' f)"
    by (simp add: boot_def ptpdStartup_def w0_def Let_def)
  show "timers_good (boot opts e)" "st (abs_of (boot opts e)) = PTP_INITIALIZING"
    "rcm (abs_of (boot opts e)) = PTP_INITIALIZING" "run (abs_of (boot opts e)) = {}"
    "pend (abs_of (boot opts e)) = {}" "\<not> so (abs_of (boot opts e))"
    using g st rp by (simp_all add: b abs_toState a_to_def stops_def starts_def del: abs_fields)
      (simp_all add: abs_of_def)
qed

lemma boot_inv: "port_inv (abs_of (boot opts e))"
  using boot_abs [of opts e] by (simp add: port_inv_def timers_of_def starts_def del: abs_fields)

lemma reachable_inv:
  assumes "reachable opts e w"
  shows "port_inv (abs_of w) \<and> timers_good w"
  using assms
proof (induction rule: reachable_induct)
  case boot
  then show ?case by (simp add: boot_inv boot_abs)
next
  case (step w w')
  then show ?case using moves_ptp_step [of w w'] port_inv_steps by (auto simp: moves_def)
qed

text \<open>The same, as facts about worlds.\<close>

lemma reachable_facts:
  assumes "reachable opts e w"
  shows "port_state w \<notin> {PTP_PRE_MASTER, PTP_DISABLED}"
    "slave_only w \<Longrightarrow> port_state w \<notin> {PTP_MASTER, PTP_PASSIVE}"
    "clockClass (d_clockQuality (defaultDS (ptp w))) < 128 \<Longrightarrow> port_state w \<notin> {PTP_UNCALIBRATED, PTP_SLAVE}"
    "\<not> clockClass (d_clockQuality (defaultDS (ptp w))) < 128 \<Longrightarrow> port_state w \<noteq> PTP_PASSIVE"
    "{k. k < TIMER_ARRAY_SIZE \<and> running k w} = timers_of (port_state w) (delayMechanism (portDS (ptp w)))"
    "k < TIMER_ARRAY_SIZE \<Longrightarrow> expired k w \<Longrightarrow> running k w"
  using reachable_inv [OF assms] by (auto simp: port_inv_def abs_of_def low_class_def)

section \<open>Consequences for single operations\<close>

lemma port_state_toState [simp]: "port_state (toState s w) = (if s = PTP_PRE_MASTER then PTP_MASTER else s)"
  unfolding toState_def enterState_def enterMaster_def Let_def port_state_def
  by (cases s) (simp_all add: set_portState_def set_recommended_def)

lemma quiet_issue_facts:
  assumes "quiet w w'"
  shows "port_state w' = port_state w \<and> recommendedState (ptp w') = recommendedState (ptp w) \<and> timers w' = timers w"
  using assms by (simp add: quiet_rcm) (simp add: quiet_def)

lemma reachable_boot [simp, intro]: "reachable opts e (boot opts e)"
  by (simp add: reachable_def)

lemma reachable_step: "reachable opts e w \<Longrightarrow> ptp_step w w' \<Longrightarrow> reachable opts e w'"
  by (simp add: reachable_def)

lemma reachable_doState: "reachable opts e w \<Longrightarrow> reachable opts e (doState w)"
  by (rule reachable_step [OF _ step_state])

text \<open>A port that recommends a working state leaves \<open>PTP_FAULTY\<close> in the second switch of \<open>doState\<close>.\<close>

definition resumed :: "ptp_state \<Rightarrow> ptp_state" where
  "resumed r = (case r of PTP_MASTER \<Rightarrow> PTP_PRE_MASTER | PTP_SLAVE \<Rightarrow> PTP_UNCALIBRATED | _ \<Rightarrow> r)"

lemma doState_faulty:
  assumes "port_state w = PTP_FAULTY"
    "recommendedState (ptp w) \<in> {PTP_LISTENING, PTP_MASTER, PTP_PASSIVE, PTP_SLAVE}"
  shows "doState w = doState_act (toState (resumed (recommendedState (ptp w)))
     (on_clock (\<lambda>c. c\<lparr>messageActivity := False\<rparr>) w))"
proof -
  let ?w = "on_clock (\<lambda>c. c\<lparr>messageActivity := False\<rparr>) w"
  have s: "port_state ?w = PTP_FAULTY" "recommendedState (ptp ?w) = recommendedState (ptp w)"
    using assms(1) by (simp_all add: port_state_def)
  then have "doState_decide ?w = ?w" by (simp add: doState_decide_def active_states_def)
  moreover have "doState_recommended ?w = toState (resumed (recommendedState (ptp w))) ?w"
    using assms(2) s by (auto simp: doState_recommended_def resumed_def)
  ultimately show ?thesis by (simp add: doState_def)
qed

text \<open>The handler each message kind reaches, and what the handlers do with a short message.\<close>

lemma dispatch_kind:
  "messageType (hdr w) = ANNOUNCE \<Longrightarrow> \<exists>s. dispatch t w = handleAnnounce s w"
  "messageType (hdr w) = SYNC \<Longrightarrow> \<exists>t' s. dispatch t w = handleSync t' s w"
  "messageType (hdr w) = FOLLOW_UP \<Longrightarrow> \<exists>s. dispatch t w = handleFollowUp s w"
  "messageType (hdr w) = DELAY_REQ \<Longrightarrow> \<exists>t' s. dispatch t w = handleDelayReq t' s w"
  "messageType (hdr w) = DELAY_RESP \<Longrightarrow> \<exists>s. dispatch t w = handleDelayResp s w"
  "messageType (hdr w) = PDELAY_REQ \<Longrightarrow> \<exists>t' s. dispatch t w = handlePDelayReq t' s w"
  "messageType (hdr w) = PDELAY_RESP \<Longrightarrow> \<exists>t' s. dispatch t w = handlePDelayResp t' s w"
  "messageType (hdr w) = PDELAY_RESP_FOLLOW_UP \<Longrightarrow> \<exists>s. dispatch t w = handlePDelayRespFollowUp s w"
  by (auto simp: dispatch_def Let_def msg_type_defs)

lemma short_handlers [simp]:
  "msgIbufLength (ptp w) < 64 \<Longrightarrow> handleAnnounce s w = toState PTP_FAULTY w"
  "msgIbufLength (ptp w) < 44 \<Longrightarrow> handleSync t s w = toState PTP_FAULTY w"
  "msgIbufLength (ptp w) < 44 \<Longrightarrow> handleFollowUp s w = toState PTP_FAULTY w"
  "msgIbufLength (ptp w) < 44 \<Longrightarrow> delayMechanism (portDS (ptp w)) = E2E \<Longrightarrow>
    handleDelayReq t s w = toState PTP_FAULTY w"
  "msgIbufLength (ptp w) < 54 \<Longrightarrow> delayMechanism (portDS (ptp w)) = E2E \<Longrightarrow>
    handleDelayResp s w = toState PTP_FAULTY w"
  "msgIbufLength (ptp w) < 54 \<Longrightarrow> delayMechanism (portDS (ptp w)) = P2P \<Longrightarrow>
    handlePDelayReq t s w = toState PTP_FAULTY w"
  "msgIbufLength (ptp w) < 54 \<Longrightarrow> delayMechanism (portDS (ptp w)) = P2P \<Longrightarrow>
    handlePDelayResp t s w = toState PTP_FAULTY w"
  "msgIbufLength (ptp w) < 54 \<Longrightarrow> delayMechanism (portDS (ptp w)) = P2P \<Longrightarrow>
    handlePDelayRespFollowUp s w = toState PTP_FAULTY w"
  by (simp_all add: length_defs handleAnnounce_def handleSync_def handleFollowUp_def handleDelayReq_def
      handleDelayResp_def handlePDelayReq_def handlePDelayResp_def handlePDelayRespFollowUp_def)

lemma boot_world_state: "port_state (boot_world e) = PTP_INITIALIZING"
  by (simp add: port_state_def boot_world_def zero_clock_def)

end
