(* ===== verification/Engine.thy ===== *)
theory Engine
  imports System
begin

text \<open>
  What one step of the protocol engine does to the rest of the world, whatever the messages say.
  The code of \<open>protocol.c\<close> touches foreign masters, queues, the servo, timers and outputs only
  through the operations of the other components.  The locale \<open>handler_relation\<close> states that
  interface as a preorder \<open>R\<close> on worlds that every one of these operations respects, and
  concludes that every message handler, every issuer and \<open>handle\<close> respects it; its extension
  \<open>engine_relation\<close> adds the state changes and concludes it for \<open>toState\<close> and the
  three switches of \<open>doState\<close>.  Each interpretation then proves one law of the whole engine from
  the laws of the components.
\<close>

section \<open>The interfaces\<close>

text \<open>What the engine itself does not write except through the operations of the interface.\<close>

definition core :: "PtpClock \<Rightarrow> ForeignMasterDS \<times> NetPath \<times> int \<times> Servo \<times> RunTimeOpts \<times> ptp_state \<times> ptp_state" where
  "core c = (foreignMasterDS c, netPath c, observedDrift c, servo c, rtOpts c, portState (portDS c),
     recommendedState c)"

lemma core_simps [simp]:
  "core (s1 h a c) = core c" "core (m1 c) = core c" "core (raise_event e c) = core c"
  "core (clear_event e c) = core c" "core (updateOffset t1 t2 t3 c) = core c"
  "core (updateDelay t1 t2 t3 c) = core c" "core (c\<lparr>msgTmp := x\<rparr>) = core c"
  "core (c\<lparr>messageActivity := b\<rparr>) = core c" "core (store_rx n buf c) = core c"
  by (simp_all add: core_def s1_def m1_def raise_event_def clear_event_def Let_def store_rx_def)

lemma core_updatePeerDelay [simp]: "core (updatePeerDelay t b c) = core c"
proof -
  obtain t' where "portDS (updatePeerDelay t b c) = (portDS c)\<lparr>peerMeanPathDelay := t'\<rparr>"
    using updatePeerDelay_frame(1) [of t b c] by blast
  then show ?thesis by (simp add: core_def)
qed

locale world_relation =
  fixes R :: "world \<Rightarrow> world \<Rightarrow> bool"
  assumes refl: "R w w"
    and trans: "R w w' \<Longrightarrow> R w' w'' \<Longrightarrow> R w w''"
    and env_read: "R w (w\<lparr>tick := n\<rparr>)"
    and local_data: "(\<And>c. core (f c) = core c) \<Longrightarrow> R w (on_clock f w)"
    and random: "R w (snd (getRand randMax w))"
    and timer_start: "R w (timerStart k ms w)"
    and timer_expired: "R w (snd (timerExpired k w))"
    and send: "pcb \<in> {eventPcb (netPath (ptp w)), generalPcb (netPath (ptp w))} \<Longrightarrow> R w (snd (netSend b l s t a pcb w))"
    and receive: "R w (snd (netRecvEvent b s t w))" "R w (snd (netRecvGeneral b s t w))"
    and servo: "R w (updateClock w)"
    and foreign: "R w (on_clock (addForeign h ann) w)"
begin

lemma local_after: "R w w' \<Longrightarrow> (\<And>c. core (f c) = core c) \<Longrightarrow> R w (on_clock f w')"
  using trans local_data by blast

lemma ask_after: "R w w' \<Longrightarrow> R w (snd (ask f w'))"
  using trans env_read by simp

lemma helpers:
  "R w (snd (getTime w))" "R w (timerStartRand k n w)" "R w (restart_receipt w)" "R w (set_obuf pk w)"
proof -
  show "R w (timerStartRand k n w)"
    unfolding timerStartRand_def split_beta Let_def by (rule trans [OF random timer_start])
qed (simp_all add: getTime_def env_read restart_receipt_def set_obuf_def timer_start local_data core_def)

lemmas after = trans [OF _ random] trans [OF _ timer_start] trans [OF _ timer_expired]
  trans [OF _ receive(1)] trans [OF _ receive(2)] trans [OF _ servo] trans [OF _ foreign]
  trans [OF _ helpers(1)] trans [OF _ helpers(2)] trans [OF _ helpers(3)] trans [OF _ helpers(4)]

lemma sends_after:
  "R w w' \<Longrightarrow> R w (snd (netSendEvent b l s t w'))" "R w w' \<Longrightarrow> R w (snd (netSendGeneral b l t w'))"
  "R w w' \<Longrightarrow> R w (snd (netSendPeerEvent b l s t w'))"
  "R w w' \<Longrightarrow> R w (snd (netSendPeerGeneral b l t w'))"
  by (simp_all add: netSendEvent_def netSendGeneral_def netSendPeerEvent_def netSendPeerGeneral_def
      trans [OF _ send])

lemmas world_steps = after sends_after ask_after local_after refl

end

text \<open>The handlers can also put the port into \<open>PTP_FAULTY\<close>.\<close>

locale handler_relation = world_relation +
  assumes fault: "R w (toState PTP_FAULTY w)"
begin

lemmas handler_steps = world_steps trans [OF _ fault]

lemma issueAnnounce: "R w (issueAnnounce w)"
  unfolding issueAnnounce_def Let_def split_beta
  by (simp add: ANNOUNCE_LENGTH_def del: ask_simps) (intro handler_steps; simp add: core_def)

lemma issueFollowup: "R w (issueFollowup t w)"
  unfolding issueFollowup_def Let_def split_beta
  by (simp add: FOLLOW_UP_LENGTH_def del: ask_simps) (intro handler_steps)

lemma issueSync: "R w (issueSync w)"
  unfolding issueSync_def Let_def split_beta
  by (simp add: SYNC_LENGTH_def del: ask_simps)
    (intro conjI impI trans [OF _ issueFollowup] handler_steps; simp add: core_def)

lemma issueDelayReq: "R w (issueDelayReq w)"
  unfolding issueDelayReq_def Let_def split_beta
  by (simp add: DELAY_REQ_LENGTH_def del: ask_simps) (intro conjI impI handler_steps; simp add: core_def)

lemma issuePDelayReq: "R w (issuePDelayReq w)"
  unfolding issuePDelayReq_def Let_def split_beta
  by (simp add: PDELAY_REQ_LENGTH_def del: ask_simps) (intro conjI impI handler_steps; simp add: core_def)

lemma issuePDelayResp: "R w (snd (issuePDelayResp t h w))"
  unfolding issuePDelayResp_def Let_def split_beta
  by (simp add: PDELAY_RESP_LENGTH_def del: ask_simps) (intro conjI impI handler_steps)

lemma issueDelayResp: "R w (issueDelayResp t h w)"
  unfolding issueDelayResp_def Let_def split_beta
  by (simp add: PDELAY_RESP_LENGTH_def del: ask_simps) (intro handler_steps)

lemma issuePDelayRespFollowUp: "R w (issuePDelayRespFollowUp t h w)"
  unfolding issuePDelayRespFollowUp_def Let_def split_beta
  by (simp add: PDELAY_RESP_FOLLOW_UP_LENGTH_def del: ask_simps) (intro handler_steps)

lemma issueDelayReqTimerExpired: "R w (issueDelayReqTimerExpired w)"
  unfolding issueDelayReqTimerExpired_def Let_def split_beta
  by (auto split: delay_mechanism.split
      intro!: trans [OF _ issueDelayReq] trans [OF _ issuePDelayReq] handler_steps simp del: ask_simps)

lemma handleAnnounce_slave: "R w (handleAnnounce_slave w)"
  unfolding handleAnnounce_slave_def Let_def by (auto intro!: handler_steps)

lemma handleAnnounce: "R w (handleAnnounce s w)"
  unfolding handleAnnounce_def Let_def
  by (auto split: ptp_state.split intro!: handler_steps handleAnnounce_slave)

lemma handleSync: "R w (handleSync t s w)"
  unfolding handleSync_def handleSync_slave_def Let_def split_beta
  by (auto split: ptp_state.split intro!: trans [OF _ issueDelayReqTimerExpired] handler_steps simp del: ask_simps)
    (simp_all add: core_def)

lemma handleFollowUp: "R w (handleFollowUp s w)"
  unfolding handleFollowUp_def handleFollowUp_slave_def Let_def split_beta
  by (auto split: ptp_state.split intro!: trans [OF _ issueDelayReqTimerExpired] handler_steps simp del: ask_simps)
    (simp_all add: core_def)

lemma handleDelayReq: "R w (handleDelayReq t s w)"
  unfolding handleDelayReq_def
  by (auto split: delay_mechanism.split ptp_state.split intro!: trans [OF _ issueDelayResp] handler_steps)

lemma handleDelayResp: "R w (handleDelayResp s w)"
  unfolding handleDelayResp_def Let_def
  by (auto split: delay_mechanism.split intro!: handler_steps) (simp_all add: core_def)

lemma handlePDelayReq: "R w (handlePDelayReq t s w)"
  unfolding handlePDelayReq_def Let_def split_beta
  by (auto split: delay_mechanism.split
      intro!: trans [OF _ issuePDelayRespFollowUp] trans [OF _ issuePDelayResp] handler_steps)

lemma handlePDelayResp: "R w (handlePDelayResp t s w)"
proof -
  have c: "core (updatePeerDelay corr False (c\<lparr>waitingForPDelayRespFollowUp := b, pdelay_t4 := t\<rparr>)) = core c"
    for corr c b by (simp add: core_updatePeerDelay) (simp add: core_def)
  show ?thesis
    unfolding handlePDelayResp_def Let_def split_beta
    by (auto split: delay_mechanism.split intro!: handler_steps simp: c simp del: ask_simps) (simp_all add: core_def)
qed

lemma handlePDelayRespFollowUp: "R w (handlePDelayRespFollowUp s w)"
  unfolding handlePDelayRespFollowUp_def Let_def split_beta
  by (auto split: delay_mechanism.split intro!: handler_steps simp del: ask_simps) (simp_all add: core_def)

lemma dispatch: "R w (dispatch t w)"
  by (simp add: dispatch_def Let_def handleManagement_def handleSignaling_def refl handleAnnounce
      handleSync handleFollowUp handleDelayReq handlePDelayReq handleDelayResp handlePDelayResp
      handlePDelayRespFollowUp)

lemma handle_message: "R w (handle_message t w)"
  unfolding handle_message_def Let_def
  by (auto intro!: trans [OF _ dispatch] handler_steps simp: core_def)

lemma handle: "R w (handle w)"
  unfolding handle_def handle_poll_def Let_def split_beta
  by (auto intro!: trans [OF _ handle_message] handler_steps)

lemma doState_master: "R w (doState_master w)"
  unfolding doState_master_def Let_def split_beta
  by (auto intro!: trans [OF _ issueDelayReqTimerExpired] trans [OF _ handle] trans [OF _ issueAnnounce]
      trans [OF _ issueSync] handler_steps)

end

section \<open>The whole engine\<close>

locale engine_relation = world_relation +
  assumes timer_stop: "R w (timerStop k w)"
    and set_state: "R w (on_clock (set_portState s) w)"
    and recommend: "R w (on_clock (set_recommended s) w)"
    and reset_servo: "R w (initClock w)"
    and forget: "R w (on_clock (\<lambda>c. c\<lparr>foreignMasterDS := (foreignMasterDS c)\<lparr>fm_count := 0, fm_i := 0\<rparr>\<rparr>) w)"
    and elect: "R w (on_clock (\<lambda>c. c\<lparr>foreignMasterDS := (foreignMasterDS c)\<lparr>fm_best := bmc_best (ptp w)\<rparr>\<rparr>) w)"
begin

lemmas engine_steps = world_steps trans [OF _ timer_stop] trans [OF _ set_state] trans [OF _ recommend]
  trans [OF _ reset_servo]

lemma set_both: "R w (on_clock (\<lambda>c. set_recommended r (set_portState s c)) w)"
proof -
  have "on_clock (\<lambda>c. set_recommended r (set_portState s c)) w =
      on_clock (set_recommended r) (on_clock (set_portState s) w)" by (simp add: on_clock_def)
  then show ?thesis by (simp only:) (rule trans [OF set_state recommend])
qed

lemma leaveState: "R w (leaveState s w)"
  unfolding leaveState_def leaveSlave_def Let_def
  by (cases "port_state w"; simp) (auto split: delay_mechanism.split intro!: engine_steps)

lemma enterMaster: "R w (enterMaster w)"
  unfolding enterMaster_def Let_def
  by (auto split: delay_mechanism.split intro!: engine_steps simp: core_def)

lemma enterState: "R w (enterState s w)"
  unfolding enterState_def Let_def
  by (cases s; simp add: enterMaster)
    (auto split: delay_mechanism.split intro!: trans [OF _ set_both] engine_steps)

lemma toState: "R w (toState s w)"
  unfolding toState_def by (intro trans [OF _ enterState] trans [OF _ leaveState] world_steps) simp

end

sublocale engine_relation \<subseteq> handler_relation
  by unfold_locales (rule toState)

context engine_relation
begin

lemma bmc: "R w (snd (bmc w))"
proof -
  let ?w = "on_clock (\<lambda>c. c\<lparr>foreignMasterDS := (foreignMasterDS c)\<lparr>fm_best := bmc_best (ptp w)\<rparr>\<rparr>) w"
  have "\<exists>junk h a. snd (bmc w) = on_clock (\<lambda>c. snd (bmcStateDecision junk h a c)) (?w\<lparr>tick := Suc (tick w)\<rparr>)"
    unfolding bmc_def Let_def split_beta by (auto simp: on_clock_def)
  then obtain junk h a where
    d: "snd (bmc w) = on_clock (\<lambda>c. snd (bmcStateDecision junk h a c)) (?w\<lparr>tick := Suc (tick w)\<rparr>)"
    by blast
  have "R w (?w\<lparr>tick := Suc (tick w)\<rparr>)" by (rule trans, rule elect, rule env_read)
  then show ?thesis unfolding d by (rule local_after) (simp add: core_def)
qed

lemma doState_decide: "R w (doState_decide w)"
  unfolding doState_decide_def Let_def split_beta
  by (auto intro!: trans [OF _ bmc] engine_steps)

lemma doState_recommended: "R w (doState_recommended w)"
  unfolding doState_recommended_def Let_def split_beta
  by (auto split: ptp_state.split intro!: trans [OF _ toState] engine_steps)

lemma doState_passive: "R w (doState_passive w)"
  unfolding doState_passive_def Let_def split_beta
  by (auto intro!: trans [OF _ toState] trans [OF _ handle] trans [OF _ forget] engine_steps)

lemma doState_act:
  assumes "port_state w \<noteq> PTP_INITIALIZING"
  shows "R w (doState_act w)"
  using assms unfolding doState_act_def
  by (auto split: ptp_state.split simp: toState handle doState_passive doState_master refl)

end

end
