(* ===== verification/Invariants.thy ===== *)
theory Invariants
  imports Engine
begin

text \<open>
  The laws of the engine, each an interpretation of \<open>engine_relation\<close> or \<open>handler_relation\<close> on the
  model, and the invariants of the running daemon they give.  A reachable world is in one of two
  phases: booting, while \<open>doInit\<close> has not succeeded yet, or working ever after.
\<close>

section \<open>Laws\<close>

text \<open>A handler leaves the recommendation alone and moves the port at most to \<open>PTP_FAULTY\<close>.\<close>

definition keeps_phase :: "world \<Rightarrow> world \<Rightarrow> bool" where
  "keeps_phase w w' \<longleftrightarrow> recommendedState (ptp w') = recommendedState (ptp w) \<and>
     port_state w' \<in> {port_state w, PTP_FAULTY}"

lemma quiet_phase: "quiet w w' \<Longrightarrow> keeps_phase w w'"
  by (simp add: keeps_phase_def quiet_rcm)

lemma same_ptp_phase: "ptp w' = ptp w \<Longrightarrow> keeps_phase w w'"
  by (simp add: keeps_phase_def port_state_def)

lemma fault_rcm: "recommendedState (ptp (toState PTP_FAULTY w)) = recommendedState (ptp w)"
  using leaveState_view [of PTP_FAULTY "on_clock (\<lambda>c. c\<lparr>messageActivity := True\<rparr>) w"]
  by (simp add: toState_def enterState_def view_def set_portState_def)

interpretation phase: handler_relation keeps_phase
proof unfold_locales
  show "keeps_phase w w''" if "keeps_phase w w'" "keeps_phase w' w''" for w w' w''
    using that by (auto simp: keeps_phase_def)
  show "keeps_phase w (on_clock f w)" if "\<And>c. core (f c) = core c" for f w
    using that [of "ptp w"] by (simp add: keeps_phase_def core_def port_state_def)
  show "keeps_phase w (on_clock (addForeign h ann) w)" for w h ann
    by (simp add: keeps_phase_def port_state_def)
  show "keeps_phase w (toState PTP_FAULTY w)" for w
    by (simp add: keeps_phase_def fault_rcm)
qed (rule same_ptp_phase quiet_phase, simp add: quiet_netSend)+

text \<open>The servo never leaves its bounds.\<close>

definition servo_safe :: "world \<Rightarrow> world \<Rightarrow> bool" where
  "servo_safe w w' \<longleftrightarrow> (cmds_ok w \<and> drift_ok w \<longrightarrow> cmds_ok w' \<and> drift_ok w')"

lemma same_servo: "clock_cmds w' = clock_cmds w \<Longrightarrow> observedDrift (ptp w') = observedDrift (ptp w) \<Longrightarrow> servo_safe w w'"
  by (simp add: servo_safe_def cmds_ok_def drift_ok_def)

lemma netRecv_servo [simp]:
  "clock_cmds (snd (netRecv b s t q w)) = clock_cmds w" "pcbs (snd (netRecv b s t q w)) = pcbs w" "ptp (snd (netRecv b s t q w)) = ptp w"
  unfolding netRecv_def Let_def split_beta pbuf_free_def by (simp_all split: option.split)

lemma recv_servo [simp]:
  "clock_cmds (snd (netRecvEvent b s t w)) = clock_cmds w"
  "clock_cmds (snd (netRecvGeneral b s t w)) = clock_cmds w"
  "\<exists>n. ptp (snd (netRecvEvent b s t w)) = (ptp w)\<lparr>netPath := n\<rparr>"
  "\<exists>n. ptp (snd (netRecvGeneral b s t w)) = (ptp w)\<lparr>netPath := n\<rparr>"
  by (auto simp: netRecvEvent_def netRecvGeneral_def Let_def split_beta on_net_def on_clock_def)

lemma recv_fields [simp]:
  "observedDrift (ptp (snd (netRecvEvent b s t w))) = observedDrift (ptp w)"
  "observedDrift (ptp (snd (netRecvGeneral b s t w))) = observedDrift (ptp w)"
  "foreignMasterDS (ptp (snd (netRecvEvent b s t w))) = foreignMasterDS (ptp w)"
  "foreignMasterDS (ptp (snd (netRecvGeneral b s t w))) = foreignMasterDS (ptp w)"
  "rtOpts (ptp (snd (netRecvEvent b s t w))) = rtOpts (ptp w)"
  "rtOpts (ptp (snd (netRecvGeneral b s t w))) = rtOpts (ptp w)"
  by (simp_all add: netRecvEvent_def netRecvGeneral_def Let_def split_beta on_net_def)

lemma udp_sendto_frame [simp]:
  "ptp (snd (udp_sendto k b a p w)) = ptp w" "clock_cmds (snd (udp_sendto k b a p w)) = clock_cmds w"
  "freed (snd (udp_sendto k b a p w)) = freed w" "timers (snd (udp_sendto k b a p w)) = timers w"
  "map fst (pcbs (snd (udp_sendto k b a p w))) = map fst (pcbs w)"
  unfolding udp_sendto_def set_local_port_def Let_def split_beta by (simp_all add: split_def)

lemma netSend_frame [simp]:
  "ptp (snd (netSend b l s t a k w)) = ptp w" "clock_cmds (snd (netSend b l s t a k w)) = clock_cmds w"
  "freed (snd (netSend b l s t a k w)) = freed w" "timers (snd (netSend b l s t a k w)) = timers w"
  "map fst (pcbs (snd (netSend b l s t a k w))) = map fst (pcbs w)"
  unfolding netSend_def Let_def split_beta by (cases k; simp)+

interpretation servo: engine_relation servo_safe
proof unfold_locales
  show "servo_safe w (on_clock f w)" if "\<And>c. core (f c) = core c" for f w
    using that [of "ptp w"] by (intro same_servo) (simp_all add: core_def)
  show "servo_safe w w''" if "servo_safe w w'" "servo_safe w' w''" for w w' w''
    using that by (simp add: servo_safe_def)
  show "servo_safe w (updateClock w)" for w using updateClock_safe by (simp add: servo_safe_def)
  show "servo_safe w (initClock w)" for w using initClock_safe by (simp add: servo_safe_def)
qed ((rule same_servo; simp add: set_portState_def set_recommended_def)+)

text \<open>The table of foreign masters stays well formed and keeps its capacity.\<close>

definition table_ok :: "world \<Rightarrow> bool" where
  "table_ok w \<longleftrightarrow> fm_ok (foreignMasterDS (ptp w)) \<and> fm_dense (foreignMasterDS (ptp w))"

definition keeps_table :: "world \<Rightarrow> world \<Rightarrow> bool" where
  "keeps_table w w' \<longleftrightarrow> (table_ok w \<longrightarrow> table_ok w' \<and>
     fm_capacity (foreignMasterDS (ptp w')) = fm_capacity (foreignMasterDS (ptp w)))"

lemma same_table: "foreignMasterDS (ptp w') = foreignMasterDS (ptp w) \<Longrightarrow> keeps_table w w'"
  by (simp add: keeps_table_def table_ok_def)

lemma addForeign_capacity: "fm_capacity (foreignMasterDS (addForeign h a c)) = fm_capacity (foreignMasterDS c)"
  unfolding addForeign_def Let_def by (simp split: option.split)

lemma updateClock_table [simp]: "foreignMasterDS (ptp (updateClock w)) = foreignMasterDS (ptp w)"
  unfolding updateClock_def updateClock_far_def updateClock_pi_def Let_def split_beta
  by (simp add: adjTime_clamp DEFAULT_PARENTS_STATS_def del: ask_simps)

interpretation table: engine_relation keeps_table
proof unfold_locales
  show "keeps_table w w''" if "keeps_table w w'" "keeps_table w' w''" for w w' w''
    using that by (simp add: keeps_table_def)
  show "keeps_table w (on_clock f w)" if "\<And>c. core (f c) = core c" for f w
    using that [of "ptp w"] by (intro same_table) (simp add: core_def)
  show "keeps_table w (on_clock (addForeign h ann) w)" for w h ann
    by (simp add: keeps_table_def table_ok_def addForeign_ok addForeign_dense addForeign_capacity)
  show "keeps_table w (on_clock (\<lambda>c. c\<lparr>foreignMasterDS := (foreignMasterDS c)\<lparr>fm_count := 0, fm_i := 0\<rparr>\<rparr>) w)" for w
    by (simp add: keeps_table_def table_ok_def fm_ok_def fm_dense_def)
  show "keeps_table w (on_clock (\<lambda>c. c\<lparr>foreignMasterDS := (foreignMasterDS c)\<lparr>fm_best := bmc_best (ptp w)\<rparr>\<rparr>) w)" for w
    using bmc_best_range [of "ptp w"] by (simp add: keeps_table_def table_ok_def fm_dense_def) (simp add: fm_ok_def)
qed ((rule same_table; simp add: set_portState_def set_recommended_def)+)

text \<open>
  No buffer is lost: what was freed or queued stays freed or queued.  The queues of packets
  only shrink, and no operation raises the flag of the receipt timer.
\<close>

definition backlog :: "world \<Rightarrow> nat" where
  "backlog w = length (q_contents (eventQ (netPath (ptp w)))) + length (q_contents (generalQ (netPath (ptp w))))"

definition keeps_buffers :: "world \<Rightarrow> world \<Rightarrow> bool" where
  "keeps_buffers w w' \<longleftrightarrow> (net_good w \<longrightarrow> net_good w' \<and> owned w' = owned w \<and> backlog w' \<le> backlog w \<and>
     eventPcb (netPath (ptp w')) = eventPcb (netPath (ptp w)) \<and>
     generalPcb (netPath (ptp w')) = generalPcb (netPath (ptp w)) \<and> map fst (pcbs w') = map fst (pcbs w))"

lemma same_buffers:
  "netPath (ptp w') = netPath (ptp w) \<Longrightarrow> freed w' = freed w \<Longrightarrow> map fst (pcbs w') = map fst (pcbs w) \<Longrightarrow>
    keeps_buffers w w'"
  by (simp add: keeps_buffers_def net_good_def owned_def backlog_def)

lemma netRecv_queue:
  assumes "q_good q"
  shows "snd (snd (snd (fst (netRecv b s t q w)))) = snd (netQGet q)"
  unfolding netRecv_def Let_def split_beta by (simp split: option.split)

lemma recv_backlog:
  assumes "net_good w"
  shows "q_contents (eventQ (netPath (ptp (snd (netRecvEvent b s t w))))) = tl (q_contents (eventQ (netPath (ptp w))))"
    "generalQ (netPath (ptp (snd (netRecvEvent b s t w)))) = generalQ (netPath (ptp w))"
    "q_contents (generalQ (netPath (ptp (snd (netRecvGeneral b s t w))))) = tl (q_contents (generalQ (netPath (ptp w))))"
    "eventQ (netPath (ptp (snd (netRecvGeneral b s t w)))) = eventQ (netPath (ptp w))"
  using assms netRecv_queue [of "eventQ (netPath (ptp w))"] netRecv_queue [of "generalQ (netPath (ptp w))"]
    ring_get(3) [of "eventQ (netPath (ptp w))"] ring_get(3) [of "generalQ (netPath (ptp w))"]
  by (simp_all add: netRecvEvent_def netRecvGeneral_def Let_def split_beta net_good_def)

lemma recv_buffers: "keeps_buffers w (snd (netRecvEvent b s t w))" "keeps_buffers w (snd (netRecvGeneral b s t w))"
proof -
  have p: "eventPcb (netPath (ptp (snd (netRecvEvent b s t w)))) = eventPcb (netPath (ptp w)) \<and>
      generalPcb (netPath (ptp (snd (netRecvEvent b s t w)))) = generalPcb (netPath (ptp w)) \<and>
      eventPcb (netPath (ptp (snd (netRecvGeneral b s t w)))) = eventPcb (netPath (ptp w)) \<and>
      generalPcb (netPath (ptp (snd (netRecvGeneral b s t w)))) = generalPcb (netPath (ptp w)) \<and>
      pcbs (snd (netRecvEvent b s t w)) = pcbs w \<and> pcbs (snd (netRecvGeneral b s t w)) = pcbs w"
    by (simp add: netRecvEvent_def netRecvGeneral_def Let_def split_beta)
  show "keeps_buffers w (snd (netRecvEvent b s t w))" "keeps_buffers w (snd (netRecvGeneral b s t w))"
    using p netRecvEvent_conserves [of w] recv_backlog [of w] by (simp_all add: keeps_buffers_def backlog_def)
qed

lemma drain_buffers: "keeps_buffers w (netEmptyEventQ w)"
  using netEmptyEventQ_conserves [of w] by (simp add: keeps_buffers_def backlog_def)

lemma keeps_buffers_trans: "keeps_buffers w w' \<Longrightarrow> keeps_buffers w' w'' \<Longrightarrow> keeps_buffers w w''"
  unfolding keeps_buffers_def by auto

lemma reset_buffers: "keeps_buffers w (initClock w)"
  unfolding initClock_unfold by (rule keeps_buffers_trans [OF same_buffers drain_buffers]) simp_all

lemma updateClock_buffers: "keeps_buffers w (updateClock w)"
proof -
  have far: "keeps_buffers w (updateClock_far w)"
    unfolding updateClock_far_def Let_def split_beta
    by (simp add: adjTime_clamp del: ask_simps initClock_frame)
      (intro conjI impI keeps_buffers_trans [OF _ reset_buffers] same_buffers; simp)
  have "keeps_buffers w (updateClock_pi w)"
    unfolding updateClock_pi_def Let_def by (rule same_buffers) (simp_all add: DEFAULT_PARENTS_STATS_def adjTime_clamp)
  with far show ?thesis by (simp add: updateClock_def Let_def)
qed

interpretation buffers: engine_relation keeps_buffers
proof unfold_locales
  show "keeps_buffers w w''" if "keeps_buffers w w'" "keeps_buffers w' w''" for w w' w''
    by (rule keeps_buffers_trans [OF that])
  show "keeps_buffers w (on_clock f w)" if "\<And>c. core (f c) = core c" for f w
    using that [of "ptp w"] by (intro same_buffers) (simp_all add: core_def)
  show "keeps_buffers w (updateClock w)" for w by (rule updateClock_buffers)
  show "keeps_buffers w (initClock w)" for w by (rule reset_buffers)
  show "keeps_buffers w (snd (netRecvEvent b s t w))" "keeps_buffers w (snd (netRecvGeneral b s t w))" for w b s t
    by (rule recv_buffers)+
qed ((rule same_buffers; simp add: set_portState_def set_recommended_def)+)

section \<open>Phases\<close>

definition running_states :: "ptp_state set" where
  "running_states = {PTP_LISTENING, PTP_MASTER, PTP_PASSIVE, PTP_UNCALIBRATED, PTP_SLAVE}"

definition decided_states :: "ptp_state set" where
  "decided_states = {PTP_LISTENING, PTP_MASTER, PTP_PASSIVE, PTP_SLAVE}"

definition working :: "world \<Rightarrow> bool" where
  "working w \<longleftrightarrow> port_state w \<in> insert PTP_FAULTY running_states \<and> recommendedState (ptp w) \<in> decided_states"

lemmas phase_defs = working_def running_states_def decided_states_def

lemma keeps_phase_working: "keeps_phase w w' \<Longrightarrow> working w \<Longrightarrow> working w'"
  by (auto simp: keeps_phase_def working_def)

lemma decide_phase:
  assumes "working w"
  shows "port_state (doState_decide w) = port_state w" "recommendedState (ptp (doState_decide w)) \<in> decided_states"
proof -
  have rcm: "recommendedState (set_recommended s c) = s" "portDS (set_recommended s c) = portDS c" for s c
    by (simp_all add: set_recommended_def)
  have p: "port_state (on_clock (set_recommended s) v) = port_state v" for s v
    by (simp add: port_state_def rcm)
  show "port_state (doState_decide w) = port_state w"
    unfolding doState_decide_def Let_def split_beta by (simp add: p) (simp add: port_state_def)
  show "recommendedState (ptp (doState_decide w)) \<in> decided_states"
    using assms bmc_result(1) [of "on_clock (clear_event STATE_DECISION_EVENT) w"]
    unfolding doState_decide_def Let_def split_beta by (auto simp: rcm phase_defs)
qed

lemma toState_recommends:
  "s \<noteq> PTP_INITIALIZING \<Longrightarrow> s \<noteq> PTP_LISTENING \<Longrightarrow>
    recommendedState (ptp (toState s w)) = recommendedState (ptp w)"
  "recommendedState (ptp (toState PTP_LISTENING w)) = PTP_LISTENING"
proof -
  have l: "recommendedState (ptp (leaveState s (on_clock (\<lambda>c. c\<lparr>messageActivity := True\<rparr>) w))) =
      recommendedState (ptp w)" for s
    using leaveState_view [of s "on_clock (\<lambda>c. c\<lparr>messageActivity := True\<rparr>) w"] by (simp add: view_def)
  show "s \<noteq> PTP_INITIALIZING \<Longrightarrow> s \<noteq> PTP_LISTENING \<Longrightarrow>
    recommendedState (ptp (toState s w)) = recommendedState (ptp w)"
    unfolding toState_def enterState_def enterMaster_def Let_def
    by (cases s) (simp_all add: l set_portState_def split: delay_mechanism.split)
  show "recommendedState (ptp (toState PTP_LISTENING w)) = PTP_LISTENING"
    by (simp add: toState_def enterState_def set_recommended_def)
qed

lemma clear_rcm: "recommendedState (ptp (on_clock (clear_event e) w)) = recommendedState (ptp w)"
  by simp

lemma recommended_phase:
  assumes "port_state w \<in> insert PTP_FAULTY running_states" "recommendedState (ptp w) \<in> decided_states"
  shows "port_state (doState_recommended w) \<in> running_states"
    "recommendedState (ptp (doState_recommended w)) \<in> decided_states"
proof -
  have "port_state (doState_recommended w) \<in> running_states \<and>
      recommendedState (ptp (doState_recommended w)) \<in> decided_states"
    using assms unfolding doState_recommended_def Let_def split_beta
    by (cases "recommendedState (ptp w)"; cases "port_state w")
      (simp_all add: phase_defs toState_recommends del: insert_iff, auto simp: toState_recommends)
  then show "port_state (doState_recommended w) \<in> running_states"
    "recommendedState (ptp (doState_recommended w)) \<in> decided_states" by simp_all
qed

lemma act_phase:
  assumes "port_state w \<in> running_states" "recommendedState (ptp w) \<in> decided_states"
  shows "working (doState_act w)"
proof -
  have w: "working w" using assms by (simp add: working_def)
  have "working (doState_passive w)"
  proof (cases "fst (timerExpired ANNOUNCE_RECEIPT_TIMER w)")
    case True
    then show ?thesis
      using w unfolding doState_passive_def Let_def split_beta
      by (simp add: phase_defs toState_recommends set_recommended_def)
  next
    case False
    then show ?thesis
      using keeps_phase_working [OF phase.trans [OF phase.timer_expired phase.handle] w]
      unfolding doState_passive_def Let_def split_beta by simp
  qed
  moreover have "working (doState_master w)"
    by (rule keeps_phase_working [OF phase.doState_master w])
  ultimately show ?thesis
    using assms(1) by (auto simp: doState_act_def running_states_def)
qed

text \<open>A working port stays working, and its step respects every law of the engine.\<close>

lemma working_doState: "working w \<Longrightarrow> working (doState w)"
proof -
  assume w: "working w"
  let ?w = "on_clock (\<lambda>c. c\<lparr>messageActivity := False\<rparr>) w"
  have "working ?w" using w by (simp add: working_def port_state_def)
  from decide_phase [OF this] recommended_phase [of "doState_decide ?w"] this
  show ?thesis unfolding doState_def by (intro act_phase) (simp_all add: working_def)
qed

context engine_relation
begin

lemma working_step:
  assumes "working w"
  shows "R w (doState w)"
proof -
  let ?w = "on_clock (\<lambda>c. c\<lparr>messageActivity := False\<rparr>) w"
  have w: "working ?w" using assms by (simp add: working_def port_state_def)
  have "port_state (doState_recommended (doState_decide ?w)) \<noteq> PTP_INITIALIZING"
    using decide_phase [OF w] recommended_phase(1) [of "doState_decide ?w"] w
    by (auto simp: working_def running_states_def)
  note act = doState_act [OF this]
  have "R w ?w" by (rule local_data) simp
  from trans [OF trans [OF trans [OF this doState_decide] doState_recommended] act]
  show ?thesis by (simp only: doState_def)
qed

end

section \<open>Booting\<close>

text \<open>While booting nothing is open, nothing queued, nothing done.\<close>

definition net_idle :: "world \<Rightarrow> bool" where
  "net_idle w \<longleftrightarrow> q_shape (eventQ (netPath (ptp w))) \<and> q_shape (generalQ (netPath (ptp w))) \<and>
     net_good w \<and> q_contents (eventQ (netPath (ptp w))) = [] \<and>
     q_contents (generalQ (netPath (ptp w))) = [] \<and> freed w = []"

definition rest :: "PtpClock \<Rightarrow> PtpClock" where
  "rest c = c\<lparr>netPath := netPath zero_clock, portUuidField := []\<rparr>"

definition opens :: "world \<Rightarrow> world \<Rightarrow> bool" where
  "opens w w' \<longleftrightarrow> (net_idle w \<longrightarrow> net_idle w') \<and> clock_cmds w' = clock_cmds w \<and> rest (ptp w') = rest (ptp w)"

lemma opens_refl [simp]: "opens w w"
  by (simp add: opens_def)

lemma opens_trans: "opens w w' \<Longrightarrow> opens w' w'' \<Longrightarrow> opens w w''"
  by (simp add: opens_def)

lemma opens_let:
  "opens w a \<Longrightarrow> (\<And>v. opens w v \<Longrightarrow> opens w (snd (f v))) \<Longrightarrow> opens w (snd (Let a f))"
  "opens w (snd p) \<Longrightarrow> (\<And>x v. opens w v \<Longrightarrow> opens w (snd (g x v))) \<Longrightarrow> opens w (snd (Let p (case_prod g)))"
  "opens w (snd t) \<Longrightarrow> opens w (snd e) \<Longrightarrow> opens w (snd (if c then t else e))"
  by (simp_all add: Let_def split_beta)

lemma same_clock_opens: "ptp w' = ptp w \<Longrightarrow> freed w' = freed w \<Longrightarrow> clock_cmds w' = clock_cmds w \<Longrightarrow> opens w w'"
  by (simp add: opens_def net_idle_def net_good_def)

lemma opens_udp: "opens w (snd (udp_new w))" "opens w (udp_remove p w)" "opens w (udp_bind p n w)"
  unfolding udp_new_def udp_remove_def udp_bind_def set_local_port_def Let_def split_beta
  by (rule same_clock_opens; simp split: option.split)+

lemma q_init_shape: "q_shape (netQInit q) = q_shape q" "q_shape q \<Longrightarrow> q_good (netQInit q)"
  using ring_init(1) by (simp_all add: q_shape_def netQInit_def)

lemma opens_net:
  assumes "\<And>n. eventQ (f n) = eventQ n \<and> generalQ (f n) = generalQ n"
  shows "opens w (on_net f w)"
proof -
  have "net_idle w \<longrightarrow> net_idle (on_net f w)" using assms by (simp add: net_idle_def net_good_def)
  then show ?thesis by (simp add: opens_def) (simp add: on_net_def on_clock_def rest_def)
qed

lemma opens_queues: "opens w (on_net (\<lambda>n. n\<lparr>eventQ := netQInit (eventQ n), generalQ := netQInit (generalQ n)\<rparr>) w)"
proof -
  have "net_idle w \<longrightarrow> net_idle (on_net (\<lambda>n. n\<lparr>eventQ := netQInit (eventQ n), generalQ := netQInit (generalQ n)\<rparr>) w)"
    by (simp add: net_idle_def net_good_def q_init_shape ring_init)
  then show ?thesis by (simp add: opens_def) (simp add: on_net_def on_clock_def rest_def)
qed

lemma opens_findIface: "opens w (snd (findIface w))"
proof -
  have "net_idle w \<longrightarrow> net_idle (snd (findIface w))" by (simp add: net_idle_def net_good_def findIface_def Let_def)
  then show ?thesis by (simp add: opens_def) (simp add: findIface_def Let_def rest_def)
qed

lemma opens_netInit: "opens w (snd (netInit w))"
  unfolding netInit_def
  by (assumption | rule opens_let(2) | rule opens_let(1) | rule opens_let(3) | rule opens_refl
    | rule opens_trans [OF _ opens_queues] | rule opens_trans [OF _ opens_net]
    | rule opens_trans [OF _ opens_udp(1)]
    | rule opens_trans [OF _ opens_udp(2)] | rule opens_trans [OF _ opens_udp(3)]
    | rule opens_trans [OF _ opens_findIface] | simp only: snd_conv | simp)+

lemma netInit_fails:
  assumes "\<not> fst (netInit w)" "pcbs w = []"
  shows "pcbs (snd (netInit w)) = []"
proof -
  let ?w0 = "on_net (\<lambda>n. n\<lparr>eventQ := netQInit (eventQ n), generalQ := netQInit (generalQ n)\<rparr>) w"
  obtain addr w1 where 1: "findIface ?w0 = (addr, w1)" "pcbs w1 = []"
    using assms(2) by (cases "findIface ?w0") (auto simp: findIface_def Let_def ask_def)
  obtain p w2 where 2: "udp_new w1 = (p, w2)"
    and p: "p = None \<and> pcbs w2 = [] \<or> (\<exists>k. p = Some k \<and> pcbs w2 = [(k, 0)])"
    using 1(2) by (cases "udp_new w1") (auto simp: udp_new_def Let_def ask_def split: if_splits)
  let ?w3 = "on_net (\<lambda>n. n\<lparr>eventPcb := p\<rparr>) w2"
  obtain q w4 where 4: "udp_new ?w3 = (q, w4)"
    and q: "q = None \<longrightarrow> pcbs w4 = pcbs w2 \<and> eventPcb (netPath (ptp w4)) = p"
    by (cases "udp_new ?w3") (auto simp: udp_new_def Let_def ask_def split: if_splits)
  show ?thesis
    using assms(1) p q unfolding netInit_def Let_def
    by (simp add: 1 2 4 udp_remove_def split: if_splits)
qed

definition booting :: "RunTimeOpts \<Rightarrow> world \<Rightarrow> bool" where
  "booting opts w \<longleftrightarrow> port_state w \<in> {PTP_INITIALIZING, PTP_FAULTY} \<and>
     recommendedState (ptp w) = PTP_INITIALIZING \<and> pcbs w = [] \<and> net_idle w \<and> clock_cmds w = [] \<and>
     observedDrift (ptp w) = 0 \<and> r_maxForeignRecords (rtOpts (ptp w)) = r_maxForeignRecords opts \<and>
     foreignMasterDS (ptp w) = \<lparr>fm_records = replicate (nat (r_maxForeignRecords opts)) zero_record,
       fm_count = 0, fm_capacity = 0, fm_i = 0, fm_best = 0\<rparr>"

text \<open>What every working world satisfies.\<close>

definition safe :: "RunTimeOpts \<Rightarrow> world \<Rightarrow> bool" where
  "safe opts w \<longleftrightarrow> net_good w \<and> cmds_ok w \<and> drift_ok w \<and> table_ok w \<and>
     fm_capacity (foreignMasterDS (ptp w)) = r_maxForeignRecords opts"

definition sound :: "RunTimeOpts \<Rightarrow> world \<Rightarrow> bool" where
  "sound opts w \<longleftrightarrow> working w \<and> safe opts w"

lemma safe_by: "servo_safe w w' \<Longrightarrow> keeps_table w w' \<Longrightarrow> keeps_buffers w w' \<Longrightarrow> safe opts w \<Longrightarrow> safe opts w'"
  by (simp add: safe_def servo_safe_def keeps_table_def keeps_buffers_def)

definition good_opts :: "RunTimeOpts \<Rightarrow> bool" where
  "good_opts opts \<longleftrightarrow> 0 < r_maxForeignRecords opts \<and> r_maxForeignRecords opts \<le> 32767"

lemma sound_step:
  assumes "sound opts w"
  shows "sound opts (doState w)"
proof -
  have w: "working w" "safe opts w" using assms by (simp_all add: sound_def)
  show ?thesis
    using safe_by [OF servo.working_step table.working_step buffers.working_step w(2), OF w(1) w(1) w(1)]
      working_doState [OF w(1)] by (simp add: sound_def)
qed

lemma toState_idle:
  assumes "port_state w \<in> {PTP_INITIALIZING, PTP_FAULTY}"
  shows "toState s w = enterState s (on_clock (\<lambda>c. c\<lparr>messageActivity := True\<rparr>) w)"
proof -
  have "port_state (on_clock (\<lambda>c. c\<lparr>messageActivity := True\<rparr>) w) = port_state w" by (simp add: port_state_def)
  with assms show ?thesis by (auto simp: toState_def leaveState_def)
qed

lemma booting_doState:
  assumes "booting opts w"
  shows "doState w = doState_act (on_clock (\<lambda>c. c\<lparr>messageActivity := False\<rparr>) w)"
proof -
  let ?w = "on_clock (\<lambda>c. c\<lparr>messageActivity := False\<rparr>) w"
  have "port_state ?w \<notin> active_states" "recommendedState (ptp ?w) = PTP_INITIALIZING"
    using assms by (auto simp: booting_def port_state_def active_states_def)
  then show ?thesis by (simp add: doState_def doState_decide_def doState_recommended_def)
qed

lemma idle_frame:
  "netPath (ptp w') = netPath (ptp w) \<Longrightarrow> freed w' = freed w \<Longrightarrow> net_idle w' = net_idle w"
  by (simp add: net_idle_def net_good_def)

lemma booting_enter:
  assumes "booting opts w" "s \<in> {PTP_INITIALIZING, PTP_FAULTY}"
  shows "booting opts (toState s w)"
proof -
  have i: "toState s w = enterState s (on_clock (\<lambda>c. c\<lparr>messageActivity := True\<rparr>) w)"
    using assms(1) by (intro toState_idle) (simp add: booting_def)
  have "net_idle (toState s w) = net_idle w"
    using assms(2) unfolding i enterState_def
    by (intro idle_frame) (auto simp: set_portState_def set_recommended_def)
  then show ?thesis
    using assms unfolding i enterState_def booting_def
    by (auto simp: set_portState_def set_recommended_def port_state_def)
qed

lemma rest_fields:
  assumes "rest c' = rest c"
  shows "portDS c' = portDS c" "recommendedState c' = recommendedState c" "observedDrift c' = observedDrift c"
    "rtOpts c' = rtOpts c" "foreignMasterDS c' = foreignMasterDS c"
  using arg_cong [OF assms, of portDS] arg_cong [OF assms, of recommendedState]
    arg_cong [OF assms, of observedDrift] arg_cong [OF assms, of rtOpts] arg_cong [OF assms, of foreignMasterDS]
  by (simp_all add: rest_def)

lemma booting_doInit_fails:
  assumes "booting opts w" "\<not> fst (doInit w)"
  shows "booting opts (snd (doInit w))"
proof -
  have d: "snd (doInit w) = snd (netInit w)" "\<not> fst (netInit w)"
    using assms(2) unfolding doInit_def Let_def split_beta by (simp_all split: if_splits)
  have o: "net_idle w \<longrightarrow> net_idle (snd (netInit w))" "clock_cmds (snd (netInit w)) = clock_cmds w"
    "rest (ptp (snd (netInit w))) = rest (ptp w)"
    using opens_netInit [of w] by (simp_all add: opens_def)
  show ?thesis
    using assms(1) o(1,2) netInit_fails [OF d(2)] rest_fields [OF o(3)]
    by (simp add: d(1) booting_def port_state_def)
qed

text \<open>The part of \<open>doInit\<close> after the network is open.\<close>

lemma doInit_opened:
  assumes "fst (doInit w)"
  obtains w1 where "w1 = snd (netInit w)"
    "snd (doInit w) = on_clock (\<lambda>c. c\<lparr>msgObuf := msgPackHeader c (msgObuf c)\<rparr>) (on_clock m1
       (initClock (initTimer (on_clock initData w1))))"
  using assms unfolding doInit_def Let_def split_beta by (simp split: if_splits)

lemma initData_safe:
  assumes "booting opts w" "good_opts opts" "opens w v"
  shows "safe opts (on_clock initData v)" "owned (on_clock initData v) = {#}"
proof -
  have o: "net_idle v" "clock_cmds v = []" "rest (ptp v) = rest (ptp w)"
    using assms(1,3) by (simp_all add: opens_def booting_def)
  note f = rest_fields [OF o(3)]
  have i: "netPath (initData c) = netPath c" "observedDrift (initData c) = observedDrift c"
    "foreignMasterDS (initData c) =
      (foreignMasterDS c)\<lparr>fm_count := 0, fm_capacity := r_maxForeignRecords (rtOpts c)\<rparr>" for c
    by (simp_all add: initData_def Let_def)
  show "safe opts (on_clock initData v)"
    using assms(1,2) o f unfolding booting_def good_opts_def
    by (simp add: safe_def net_idle_def net_good_def cmds_ok_def drift_ok_def table_ok_def i fm_ok_def fm_dense_def
        ADJ_FREQ_MAX_def)
  show "owned (on_clock initData v) = {#}"
    using o(1) by (simp add: owned_def net_idle_def i)
qed

lemma doInit_steps:
  assumes "fst (doInit w)"
  shows "servo_safe (on_clock initData (snd (netInit w))) (toState PTP_LISTENING (snd (doInit w)))"
    "keeps_table (on_clock initData (snd (netInit w))) (toState PTP_LISTENING (snd (doInit w)))"
    "keeps_buffers (on_clock initData (snd (netInit w))) (toState PTP_LISTENING (snd (doInit w)))"
proof -
  let ?v = "on_clock initData (snd (netInit w))"
  have e: "snd (doInit w) = on_clock (\<lambda>c. c\<lparr>msgObuf := msgPackHeader c (msgObuf c)\<rparr>) (on_clock m1
      (initClock (initTimer ?v)))"
    by (rule doInit_opened [OF assms]) simp
  have t: "servo_safe ?v (initTimer ?v)" "keeps_table ?v (initTimer ?v)" "keeps_buffers ?v (initTimer ?v)"
    by (simp_all add: same_servo same_table same_buffers)
  have c: "core (m1 c) = core c" "core (c\<lparr>msgObuf := msgPackHeader c (msgObuf c)\<rparr>) = core c" for c
    by (simp_all add: core_def) 
  show "servo_safe ?v (toState PTP_LISTENING (snd (doInit w)))"
    unfolding e by (intro servo.trans [OF _ servo.toState] servo.local_after servo.trans [OF t(1) servo.reset_servo] c)
  show "keeps_table ?v (toState PTP_LISTENING (snd (doInit w)))"
    unfolding e by (intro table.trans [OF _ table.toState] table.local_after table.trans [OF t(2) table.reset_servo] c)
  show "keeps_buffers ?v (toState PTP_LISTENING (snd (doInit w)))"
    unfolding e by (intro buffers.trans [OF _ buffers.toState] buffers.local_after buffers.trans [OF t(3) buffers.reset_servo] c)
qed

lemma booting_doInit:
  assumes "booting opts w" "good_opts opts" "fst (doInit w)"
  shows "sound opts (toState PTP_LISTENING (snd (doInit w)))"
    "owned (toState PTP_LISTENING (snd (doInit w))) = {#}"
proof -
  note i = initData_safe [OF assms(1,2) opens_netInit] and s = doInit_steps [OF assms(3)]
  have "working (toState PTP_LISTENING (snd (doInit w)))"
    by (simp add: working_def running_states_def decided_states_def toState_recommends)
  then show "sound opts (toState PTP_LISTENING (snd (doInit w)))"
    using safe_by [OF s i(1)] by (simp add: sound_def)
  show "owned (toState PTP_LISTENING (snd (doInit w))) = {#}"
    using s(3) i by (simp add: keeps_buffers_def safe_def)
qed

lemma booting_step:
  assumes "booting opts w" "good_opts opts"
  shows "booting opts (doState w) \<or> sound opts (doState w) \<and> owned (doState w) = {#}"
proof -
  let ?w = "on_clock (\<lambda>c. c\<lparr>messageActivity := False\<rparr>) w"
  have b: "booting opts ?w"
    using assms(1) idle_frame [of ?w w] by (simp add: booting_def port_state_def)
  then consider "port_state ?w = PTP_INITIALIZING" | "port_state ?w = PTP_FAULTY"
    by (auto simp: booting_def)
  then show ?thesis
  proof cases
    case 1
    then show ?thesis
      using booting_doInit [OF b assms(2)] booting_enter [OF booting_doInit_fails [OF b], of PTP_FAULTY]
      unfolding booting_doState [OF assms(1)] doState_act_def Let_def split_beta by auto
  next
    case 2
    then show ?thesis
      using booting_enter [OF b, of PTP_INITIALIZING]
      by (simp add: booting_doState [OF assms(1)] doState_act_def)
  qed
qed

lemma booting_owned: "booting opts w \<Longrightarrow> owned w = {#}"
  by (simp add: booting_def net_idle_def owned_def)

section \<open>Runs\<close>

text \<open>A run of the daemon and the packets lwIP handed to it, in order of arrival.\<close>

inductive ptp_run :: "RunTimeOpts \<Rightarrow> env \<Rightarrow> pbuf list \<Rightarrow> world \<Rightarrow> bool" for opts e where
  run_boot: "ptp_run opts e [] (boot opts e)"
| run_state: "ptp_run opts e ps w \<Longrightarrow> ptp_run opts e ps (doState w)"
| run_event: "ptp_run opts e ps w \<Longrightarrow> delivers (eventPcb (netPath (ptp w))) w \<Longrightarrow> wf_pbuf p \<Longrightarrow>
    ptp_run opts e (ps @ [p]) (netRecvEventCallback p w)"
| run_general: "ptp_run opts e ps w \<Longrightarrow> delivers (generalPcb (netPath (ptp w))) w \<Longrightarrow> wf_pbuf p \<Longrightarrow>
    ptp_run opts e (ps @ [p]) (netRecvGeneralCallback p w)"
| run_timer: "ptp_run opts e ps w \<Longrightarrow> k < TIMER_ARRAY_SIZE \<Longrightarrow> running k w \<Longrightarrow>
    ptp_run opts e ps (timerCallback k w)"

lemma reachable_has_run:
  assumes "reachable opts e w"
  shows "\<exists>ps. ptp_run opts e ps w"
  using assms
proof (induction rule: reachable_induct)
  case boot
  show ?case by (blast intro: run_boot)
next
  case (step w w')
  then obtain ps where "ptp_run opts e ps w" by blast
  with \<open>ptp_step w w'\<close> show ?case
    by (cases rule: ptp_step.cases) (blast intro: run_state run_event run_general run_timer)+
qed

lemma callback_frame:
  "working (netRecvEventCallback p w) = working w" "working (netRecvGeneralCallback p w) = working w"
  "cmds_ok (netRecvEventCallback p w) = cmds_ok w" "cmds_ok (netRecvGeneralCallback p w) = cmds_ok w"
  "drift_ok (netRecvEventCallback p w) = drift_ok w" "drift_ok (netRecvGeneralCallback p w) = drift_ok w"
  "foreignMasterDS (ptp (netRecvEventCallback p w)) = foreignMasterDS (ptp w)"
  "foreignMasterDS (ptp (netRecvGeneralCallback p w)) = foreignMasterDS (ptp w)"
  by (simp_all add: netRecvEventCallback_def netRecvGeneralCallback_def Let_def split_beta working_def
      cmds_ok_def drift_ok_def port_state_def pbuf_free_def ptpd_alert_def on_net_def)

lemma callback_sound:
  assumes "sound opts w"
  shows "sound opts (netRecvEventCallback p w)" "sound opts (netRecvGeneralCallback p w)"
  using assms callback_conserves [of w p]
  by (simp_all add: sound_def safe_def table_ok_def callback_frame)

lemma timerCallback_invariant:
  "booting opts (timerCallback k w) = booting opts w" "sound opts (timerCallback k w) = sound opts w"
  "owned (timerCallback k w) = owned w"
  by (simp_all add: booting_def sound_def safe_def working_def net_good_def cmds_ok_def drift_ok_def
      table_ok_def port_state_def owned_def net_idle_def)

lemma boot_booting:
  assumes "good_opts opts"
  shows "booting opts (boot opts e)"
proof -
  obtain o' where b: "boot opts e = toState PTP_INITIALIZING (on_clock (\<lambda>c. c\<lparr>rtOpts := o',
      foreignMasterDS := (foreignMasterDS c)\<lparr>fm_records := replicate (nat (r_maxForeignRecords opts)) zero_record\<rparr>\<rparr>)
      (boot_world e))" "r_maxForeignRecords o' = r_maxForeignRecords opts"
    by (simp add: boot_def ptpdStartup_def Let_def)
  show ?thesis
    unfolding b(1)
    by (rule booting_enter)
      (simp_all add: booting_def b(2) boot_world_def zero_clock_def port_state_def net_idle_def net_good_def
        zero_queue_def ring_defs)
qed

text \<open>The invariant of every run.\<close>

lemma run_invariant:
  assumes "ptp_run opts e ps w" "good_opts opts"
  shows "(booting opts w \<or> sound opts w) \<and> owned w = mset ps"
  using assms(1)
proof (induction rule: ptp_run.induct)
  case run_boot
  show ?case using boot_booting [OF assms(2)] booting_owned [OF boot_booting [OF assms(2)]] by simp
next
  case (run_state ps w)
  then consider "booting opts w" | "sound opts w" by blast
  then show ?case
  proof cases
    case 1
    then show ?thesis
      using run_state booting_step [OF 1 assms(2)] booting_owned by auto
  next
    case 2
    then show ?thesis
      using run_state sound_step [OF 2] buffers.working_step [of w]
      by (simp add: sound_def safe_def keeps_buffers_def)
  qed
next
  case (run_event ps w p)
  then have "sound opts w" by (auto simp: booting_def delivers_def split: option.splits)
  with run_event show ?case
    using callback_sound(1) callback_conserves(2) [of w p] by (simp add: sound_def safe_def)
next
  case (run_general ps w p)
  then have "sound opts w" by (auto simp: booting_def delivers_def split: option.splits)
  with run_general show ?case
    using callback_sound(2) callback_conserves(4) [of w p] by (simp add: sound_def safe_def)
next
  case (run_timer ps w k)
  then show ?case by (simp add: timerCallback_invariant)
qed

lemma reachable_invariant:
  assumes "reachable opts e w" "good_opts opts"
  shows "booting opts w \<or> sound opts w"
  using reachable_has_run [OF assms(1)] run_invariant [OF _ assms(2)] by blast

end
