(* ===== verification/Rounds.thy ===== *)
theory Rounds
  imports Invariants
begin

text \<open>
  The inner loop of \<open>ptpd_thread\<close> calls \<open>doState\<close> until no packet is queued.  Every round of a
  working port either takes a packet off a queue or clears the expired announce receipt timer,
  which nothing but the timer's own callback sets again, so the loop ends.
\<close>

section \<open>The receipt timer is not expired by the daemon itself\<close>

definition keeps_receipt :: "world \<Rightarrow> world \<Rightarrow> bool" where
  "keeps_receipt w w' \<longleftrightarrow> (timers_good w \<longrightarrow> timers_good w' \<and>
     (expired ANNOUNCE_RECEIPT_TIMER w' \<longrightarrow> expired ANNOUNCE_RECEIPT_TIMER w))"

lemma same_receipt: "timers w' = timers w \<Longrightarrow> keeps_receipt w w'"
  by (simp add: keeps_receipt_def timers_good_def expired_def)

lemma quiet_receipt: "quiet w w' \<Longrightarrow> keeps_receipt w w'"
  by (simp add: same_receipt quiet_def)

lemma timer_receipt:
  "keeps_receipt w (timerStart k ms w)" "keeps_receipt w (timerStop k w)"
  "keeps_receipt w (snd (timerExpired k w))"
proof -
  have r: "ANNOUNCE_RECEIPT_TIMER < TIMER_ARRAY_SIZE" by (simp add: timer_ix_defs)
  show "keeps_receipt w (timerStart k ms w)"
    using timer_effects(4) [OF _ r, of w k ms]
    by (cases "k < TIMER_ARRAY_SIZE") (simp add: keeps_receipt_def, simp add: keeps_receipt_def timer_defs)
  show "keeps_receipt w (timerStop k w)"
    using timer_effects(2) [OF _ r, of w k]
    by (cases "k < TIMER_ARRAY_SIZE") (simp add: keeps_receipt_def, simp add: keeps_receipt_def timer_defs)
  show "keeps_receipt w (snd (timerExpired k w))"
    using timer_effects(6) [OF _ r, of w k]
    by (cases "k < TIMER_ARRAY_SIZE") (simp add: keeps_receipt_def, simp add: keeps_receipt_def timer_defs)
qed

interpretation receipt: engine_relation keeps_receipt
proof unfold_locales
  show "keeps_receipt w w''" if "keeps_receipt w w'" "keeps_receipt w' w''" for w w' w''
    using that by (auto simp: keeps_receipt_def)
qed ((rule timer_receipt) | (rule quiet_receipt, simp; fail) | (rule same_receipt, simp; fail)
  | (rule quiet_receipt, rule quiet_netSend))+

section \<open>Each round makes progress\<close>

lemma backlog_le: "net_good w \<Longrightarrow> backlog w \<le> 6"
  using ring_get(5) [of "eventQ (netPath (ptp w))"] ring_get(5) [of "generalQ (netPath (ptp w))"]
  by (simp add: backlog_def net_good_def)

lemma netSelect_backlog: "net_good w \<Longrightarrow> netSelect w > 0 \<longleftrightarrow> backlog w > 0"
  by (simp add: netSelect_def backlog_def net_good_def ring.check_contents)

lemma netRecvEvent_empty:
  assumes "net_good w" "q_contents (eventQ (netPath (ptp w))) = []"
  shows "fst (fst (netRecvEvent b s t w)) = 0"
  using assms ring.check_contents [of "eventQ (netPath (ptp w))"]
  by (simp add: netRecvEvent_def netRecv_def netQGet_def netQCheck_def net_good_def Let_def split_beta)

lemma handle_poll_consumes:
  assumes "net_good w"
  shows "backlog (handle_poll w) \<le> backlog w - 1"
proof -
  obtain n buf time w1 where 1: "netRecvEvent (msgIbuf (ptp w)) True zero_time w = ((n, buf, time), w1)"
    by (metis prod.collapse)
  obtain n' buf' time' w2 where 2:
    "netRecvGeneral (msgIbuf (ptp (on_clock (store_rx n buf) w1))) True time (on_clock (store_rx n buf) w1) =
      ((n', buf', time'), w2)"
    by (metis prod.collapse)
  let ?v1 = "on_clock (store_rx n buf) w1" and ?v2 = "on_clock (store_rx n' buf') w2"
  have g1: "net_good w1" using netRecvEvent_conserves(1) [OF assms, of "msgIbuf (ptp w)" True zero_time] 1 by simp
  have same: "net_good (on_clock (store_rx m b) v) = net_good v" "backlog (on_clock (store_rx m b) v) = backlog v" for m b v
    by (simp_all add: net_good_def backlog_def store_rx_def)
  have g2: "net_good w2" using netRecvEvent_conserves(3) [of ?v1 "msgIbuf (ptp ?v1)" True time] 2 g1 same by simp
  let ?E = "\<lambda>v. length (q_contents (eventQ (netPath (ptp v))))" and ?G = "\<lambda>v. length (q_contents (generalQ (netPath (ptp v))))"
  have e: "?E w1 = ?E w - 1" "?G w1 = ?G w"
    using recv_backlog(1,2) [OF assms, of "msgIbuf (ptp w)" True zero_time] 1 by simp_all
  have g: "?G w2 = ?G w1 - 1" "?E w2 = ?E w1"
    using recv_backlog(3,4) [of ?v1 "msgIbuf (ptp ?v1)" True time] 2 g1 same by (simp_all add: store_rx_def)
  have z: "?E w = 0 \<Longrightarrow> n = 0" using netRecvEvent_empty [OF assms] 1 by (metis fst_conv length_0_conv)
  have after: "backlog v' \<le> backlog v" if "keeps_buffers v v'" "net_good v" for v v'
    using that by (simp add: keeps_buffers_def)
  have m: "backlog (toState s v) \<le> backlog v" "backlog (handle_message t v) \<le> backlog v" if "net_good v" for s t v
    using after [OF buffers.toState that] after [OF buffers.handle_message that] by simp_all
  have b: "backlog ?v1 \<le> backlog w - 1 \<or> n = 0" "backlog ?v2 \<le> backlog w - 1"
    using e g z unfolding same by (cases "?E w"; simp add: backlog_def)+
  have "net_good ?v1" "net_good ?v2" using g1 g2 same by simp_all
  then show ?thesis
    using b m [of ?v1] m [of ?v2] unfolding handle_poll_def 1 Let_def prod.case 2
    by (auto intro: order_trans [OF m(1)] order_trans [OF m(2)])
qed

lemma handle_consumes:
  assumes "net_good w"
  shows "backlog (handle w) \<le> backlog w - 1"
proof -
  have "netSelect w \<le> 0 \<Longrightarrow> backlog w = 0" using netSelect_backlog [OF assms] by auto
  moreover have "netSelect w \<ge> 0" by (simp add: netSelect_def)
  ultimately show ?thesis
    using handle_poll_consumes [OF assms] by (auto simp: handle_def Let_def)
qed

definition work :: "world \<Rightarrow> nat" where
  "work w = backlog w + (if expired ANNOUNCE_RECEIPT_TIMER w then 1 else 0)"

lemma work_mono:
  "keeps_buffers w w' \<Longrightarrow> keeps_receipt w w' \<Longrightarrow> net_good w \<Longrightarrow> timers_good w \<Longrightarrow>
    work w' \<le> work w \<and> backlog w' \<le> backlog w \<and> net_good w' \<and> timers_good w' \<and>
    (expired ANNOUNCE_RECEIPT_TIMER w' \<longrightarrow> expired ANNOUNCE_RECEIPT_TIMER w)"
  by (simp add: work_def keeps_buffers_def keeps_receipt_def)

lemma act_progress:
  assumes "port_state w \<in> running_states" "net_good w" "timers_good w"
  shows "work (doState_act w) < work w \<or> backlog (doState_act w) = 0"
proof -
  have handled: "work (handle v) < work v \<or> backlog (handle v) = 0" if "net_good v" "timers_good v" for v
    using handle_consumes [OF that(1)] work_mono [OF buffers.handle receipt.handle that] that
    by (auto simp: work_def)
  have exp: "keeps_buffers w (snd (timerExpired k w))" "keeps_receipt w (snd (timerExpired k w))" for k
    by (rule buffers.timer_expired receipt.timer_expired)+
  consider "doState_act w = doState_passive w" | "doState_act w = doState_master w"
    using assms(1) by (auto simp: doState_act_def running_states_def)
  then show ?thesis
  proof cases
    case 1
    let ?v = "snd (timerExpired ANNOUNCE_RECEIPT_TIMER w)"
    have v: "work ?v \<le> work w" "net_good ?v" "timers_good ?v" using work_mono [OF exp assms(2,3)] by simp_all
    show ?thesis
    proof (cases "expired ANNOUNCE_RECEIPT_TIMER w")
      case True
      have "\<not> expired ANNOUNCE_RECEIPT_TIMER ?v"
        using timer_effects(6) [OF assms(3), of ANNOUNCE_RECEIPT_TIMER ANNOUNCE_RECEIPT_TIMER]
        by (simp add: timer_ix_defs)
      moreover have "keeps_buffers ?v (doState_passive w)" "keeps_receipt ?v (doState_passive w)"
        using True timer_effects(7) [OF assms(3), of ANNOUNCE_RECEIPT_TIMER ANNOUNCE_RECEIPT_TIMER]
        unfolding doState_passive_def Let_def split_beta
        by (auto simp: timer_ix_defs intro!: buffers.trans [OF _ buffers.toState] receipt.trans [OF _ receipt.toState]
            buffers.engine_steps receipt.engine_steps buffers.trans [OF _ buffers.forget] receipt.trans [OF _ receipt.forget])
      ultimately show ?thesis
        using True work_mono [OF _ _ v(2,3), of "doState_passive w"] work_mono [OF exp assms(2,3), of ANNOUNCE_RECEIPT_TIMER]
        unfolding 1 by (auto simp: work_def)
    next
      case False
      then have "doState_passive w = handle ?v"
        using timer_effects(7) [OF assms(3), of ANNOUNCE_RECEIPT_TIMER ANNOUNCE_RECEIPT_TIMER]
        unfolding doState_passive_def Let_def split_beta by (simp add: timer_ix_defs)
      then show ?thesis using handled [OF v(2,3)] v(1) 1 by auto
    qed
  next
    case 2
    obtain v where v: "keeps_buffers w v" "keeps_receipt w v" "doState_master w = issueDelayReqTimerExpired (handle v)"
    proof -
      define v where "v = (let (ex, w) = timerExpired SYNC_INTERVAL_TIMER w; w = (if ex then issueSync w else w);
          (ex, w) = timerExpired ANNOUNCE_INTERVAL_TIMER w in (if ex then issueAnnounce w else w))"
      have "keeps_buffers w v" "keeps_receipt w v"
        unfolding v_def Let_def split_beta
        by (auto intro!: buffers.trans [OF _ buffers.issueAnnounce] buffers.trans [OF _ buffers.issueSync]
            receipt.trans [OF _ receipt.issueAnnounce] receipt.trans [OF _ receipt.issueSync]
            buffers.handler_steps receipt.handler_steps)
      moreover have "doState_master w = issueDelayReqTimerExpired (handle v)"
        unfolding doState_master_def v_def Let_def split_beta by simp
      ultimately show thesis by (rule that)
    qed
    note g = work_mono [OF v(1,2) assms(2,3)]
    note h = work_mono [OF buffers.handle receipt.handle, of v]
    note i = work_mono [OF buffers.issueDelayReqTimerExpired receipt.issueDelayReqTimerExpired, of "handle v"]
    show ?thesis using g h i handled [of v] unfolding 2 v(3) by auto
  qed
qed

lemma round_progress:
  assumes "working w" "net_good w" "timers_good w"
  shows "work (doState w) < work w \<or> backlog (doState w) = 0"
proof -
  let ?w = "on_clock (\<lambda>c. c\<lparr>messageActivity := False\<rparr>) w"
  let ?v = "doState_recommended (doState_decide ?w)"
  have w: "working ?w" using assms(1) by (simp add: working_def port_state_def)
  have st: "port_state ?v \<in> running_states"
    using decide_phase [OF w] recommended_phase(1) [of "doState_decide ?w"] w by (simp add: working_def)
  have "keeps_buffers w ?v" "keeps_receipt w ?v"
    by (intro buffers.trans [OF _ buffers.doState_recommended] buffers.trans [OF _ buffers.doState_decide]
        receipt.trans [OF _ receipt.doState_recommended] receipt.trans [OF _ receipt.doState_decide]
        buffers.local_data receipt.local_data; simp)+
  then obtain v where v: "work v \<le> work w" "net_good v" "timers_good v" "v = ?v"
    using work_mono [OF _ _ assms(2,3)] by blast
  from act_progress [OF st [folded v(4)] v(2,3)] v(1) show ?thesis
    unfolding doState_def v(4) [symmetric] by linarith
qed

lemma rounds_end:
  assumes "sound opts w" "timers_good w" "work w < n"
  shows "\<exists>w'. ptpd_rounds n w = Some w' \<and> netSelect w' = 0"
  using assms
proof (induction n arbitrary: w)
  case (Suc n)
  have w: "working w" "net_good w" using Suc.prems(1) by (simp_all add: sound_def safe_def)
  have s: "sound opts (doState w)" by (rule sound_step [OF Suc.prems(1)])
  then have g: "net_good (doState w)" by (simp add: sound_def safe_def)
  have t: "timers_good (doState w)"
    using receipt.working_step [OF w(1)] Suc.prems(2) by (simp add: keeps_receipt_def)
  show ?case
  proof (cases "netSelect (doState w) > 0")
    case True
    then have "backlog (doState w) > 0" using netSelect_backlog [OF g] by simp
    then have "work (doState w) < n"
      using round_progress [OF w Suc.prems(2)] Suc.prems(3) by simp
    then show ?thesis using Suc.IH [OF s t] True by (simp add: Let_def)
  next
    case False
    then have "netSelect (doState w) = 0" by (simp add: netSelect_def split: if_splits)
    then show ?thesis by (simp add: Let_def)
  qed
qed simp

lemma work_le: "net_good w \<Longrightarrow> work w \<le> 7"
  using backlog_le [of w] by (simp add: work_def)

lemma rounds_booting:
  assumes "booting opts w" "good_opts opts"
  shows "ptpd_rounds (Suc n) w = Some (doState w) \<and> netSelect (doState w) = 0"
proof -
  have "net_good (doState w) \<and> owned (doState w) = {#}"
    using booting_step [OF assms] booting_owned by (auto simp: booting_def net_idle_def sound_def safe_def)
  then have "backlog (doState w) = 0" "net_good (doState w)" by (auto simp: owned_def backlog_def)
  then have "netSelect (doState w) = 0"
    using netSelect_backlog [of "doState w"] by (auto simp: netSelect_def split: if_splits)
  then show ?thesis by (simp add: Let_def)
qed

lemma rounds_reachable: "reachable opts e w \<Longrightarrow> ptpd_rounds n w = Some w' \<Longrightarrow> reachable opts e w'"
  by (induction n w rule: ptpd_rounds.induct) (auto simp: Let_def reachable_doState split: if_splits)


section \<open>The announce receipt timeout\<close>

text \<open>The state a port that hears no announce any more is recommended to keep.\<close>

definition settled :: "world \<Rightarrow> bool" where
  "settled w \<longleftrightarrow> events (ptp w) = 0 \<and>
     (port_state w, recommendedState (ptp w)) \<in> {(PTP_LISTENING, PTP_LISTENING), (PTP_PASSIVE, PTP_PASSIVE),
       (PTP_UNCALIBRATED, PTP_SLAVE), (PTP_SLAVE, PTP_SLAVE)}"

lemma settled_doState:
  assumes "settled w"
  shows "doState w = doState_passive (on_clock (\<lambda>c. c\<lparr>messageActivity := False\<rparr>) w)"
proof -
  let ?w = "on_clock (\<lambda>c. c\<lparr>messageActivity := False\<rparr>) w"
  have e: "events (ptp ?w) = 0" "port_state ?w = port_state w" "recommendedState (ptp ?w) = recommendedState (ptp w)"
    using assms by (simp_all add: settled_def port_state_def)
  have z: "events (ptp w) = 0" using assms by (simp add: settled_def)
  have f: "\<not> getFlag 0 STATE_DECISION_EVENT" "\<not> getFlag 0 MASTER_CLOCK_SELECTED"
    "\<not> getFlag 0 MASTER_CLOCK_CHANGED" "\<not> getFlag 0 SYNCHRONIZATION_FAULT"
    by (simp_all add: getFlag_def STATE_DECISION_EVENT_def MASTER_CLOCK_SELECTED_def MASTER_CLOCK_CHANGED_def
        SYNCHRONIZATION_FAULT_def)
  have "doState_decide ?w = ?w" by (simp add: doState_decide_def z f)
  moreover have "doState_recommended ?w = ?w"
    using assms by (auto simp: settled_def doState_recommended_def e z f)
  moreover have "doState_act ?w = doState_passive ?w"
    using assms by (auto simp: settled_def doState_act_def e)
  ultimately show ?thesis by (simp add: doState_def)
qed

lemma working_timer: "working (timerCallback k w) = working w"
  by (simp add: working_def port_state_def)

lemma toState_foreign: "foreignMasterDS (ptp (toState s w)) = foreignMasterDS (ptp w)"
proof -
  have l: "foreignMasterDS (ptp (leaveState s v)) = foreignMasterDS (ptp v)" for v
    unfolding leaveState_def leaveSlave_def Let_def
    by (cases "port_state v"; simp) (simp split: delay_mechanism.split)+
  have "foreignMasterDS (ptp (enterState s v)) = foreignMasterDS (ptp v)" for v
    unfolding enterState_def enterMaster_def Let_def timerStartRand_def split_beta
    by (cases s; simp add: set_portState_def set_recommended_def) (simp split: delay_mechanism.split)+
  with l show ?thesis by (simp add: toState_def)
qed

text \<open>In a calm environment the second world of the daemon listens.\<close>

lemma calm_doInit: "env w = calm_env \<Longrightarrow> fst (doInit w)"
  unfolding doInit_def netInit_def findIface_def udp_new_def Let_def split_beta
  by (simp add: calm_env_def ask_def)

lemma calm_start: "port_state (doState (boot default_opts calm_env)) = PTP_LISTENING"
proof -
  have b: "booting default_opts (boot default_opts calm_env)"
    by (rule boot_booting) (simp add: good_opts_def default_opts_def DEFAULT_MAX_FOREIGN_RECORDS_def)
  have e: "env (boot default_opts calm_env) = calm_env" "port_state (boot default_opts calm_env) = PTP_INITIALIZING"
    by (simp_all add: boot_def ptpdStartup_def toState_def enterState_def leaveState_def boot_world_def
        zero_clock_def port_state_def Let_def set_portState_def set_recommended_def)
  have "fst (doInit (on_clock (\<lambda>c. c\<lparr>messageActivity := False\<rparr>) (boot default_opts calm_env)))"
    by (rule calm_doInit) (simp add: e)
  moreover have "port_state (on_clock (\<lambda>c. c\<lparr>messageActivity := False\<rparr>) (boot default_opts calm_env)) = PTP_INITIALIZING"
    using e(2) by (simp add: port_state_def)
  ultimately show ?thesis
    unfolding booting_doState [OF b] doState_act_def Let_def split_beta by simp
qed

end
