(* ===== verification/Ethif.thy ===== *)
theory Ethif
  imports SysTime Net "HOL-Library.While_Combinator"
begin

text \<open>
  The Ethernet driver \<open>ethernetif.c\<close> as far as the daemon depends on it: the functions
  \<open>ethernetif_ptp_*\<close> behind \<open>dep/sys_time.c\<close>, the chain of receive buffers that becomes a packet,
  the pool the buffers come from, and the transmit path.  Registers are 32-bit words.  What
  the MAC does on its own between two accesses of the driver is a parameter \<open>hw\<close> on the registers;
  what the HAL answers is a parameter of the transmit path.
\<close>

unbundle bit_operations_syntax

section \<open>The registers\<close>

record eth_regs =
  PTPTSCR :: "32 word"      \<comment> \<open>time stamp control\<close>
  PTPTSHUR :: "32 word"     \<comment> \<open>time stamp high update\<close>
  PTPTSLUR :: "32 word"     \<comment> \<open>time stamp low update\<close>
  PTPTSHR :: "32 word"      \<comment> \<open>time stamp high (seconds)\<close>
  PTPTSLR :: "32 word"      \<comment> \<open>time stamp low (subseconds)\<close>
  PTPTSAR :: "32 word"      \<comment> \<open>time stamp addend\<close>
  PTPPPSCR :: "32 word"     \<comment> \<open>PPS control\<close>
  MACA0HR :: "32 word"
  MACA0LR :: "32 word"

definition ETH_PTPTSCR_TSSTI :: "32 word" where "ETH_PTPTSCR_TSSTI = 0x4"
definition ETH_PTPTSCR_TSSTU :: "32 word" where "ETH_PTPTSCR_TSSTU = 0x8"
definition ETH_PTPTSCR_TSARU :: "32 word" where "ETH_PTPTSCR_TSARU = 0x20"
definition ETH_PTP_PositiveTime :: "32 word" where "ETH_PTP_PositiveTime = 0"
definition ETH_PTP_NegativeTime :: "32 word" where "ETH_PTP_NegativeTime = 0x80000000"
definition ETH_MACA1HR_AE :: "32 word" where "ETH_MACA1HR_AE = 0x80000000"
definition ADJ_FREQ_BASE_ADDEND :: int where "ADJ_FREQ_BASE_ADDEND = 0x40000000"
definition ETH_PTP_ROLLOVER_MODE :: bool where "ETH_PTP_ROLLOVER_MODE = True"
definition PTP_MCAST_MAC :: "octet list" where "PTP_MCAST_MAC = [0x01, 0x00, 0x5e, 0x00, 0x01, 0x81]"

lemmas tscr_defs = ETH_PTPTSCR_TSSTI_def ETH_PTPTSCR_TSSTU_def ETH_PTPTSCR_TSARU_def

text \<open>\<open>struct ptptime_t\<close>: two signed 32-bit integers.\<close>

record ptptime_t =
  tv_sec :: int
  tv_nsec :: int

section \<open>The PTP clock\<close>

definition subsecond_to_nanosecond :: "32 word \<Rightarrow> 32 word" where
  "subsecond_to_nanosecond v =
     (if ETH_PTP_ROLLOVER_MODE then v
      else ucast (drop_bit 31 (ucast v * 1000000000 :: 64 word)))"

definition ll_ptp_get_flag :: "32 word \<Rightarrow> eth_regs \<Rightarrow> bool" where
  "ll_ptp_get_flag flag r \<longleftrightarrow> PTPTSCR r AND flag \<noteq> 0"

definition ll_ptp_set_time_stamp_update :: "32 word \<Rightarrow> 32 word \<Rightarrow> 32 word \<Rightarrow> eth_regs \<Rightarrow> eth_regs" where
  "ll_ptp_set_time_stamp_update Sign SecondValue SubSecondValue r =
     r\<lparr>PTPTSHUR := SecondValue, PTPTSLUR := Sign OR SubSecondValue\<rparr>"

definition ll_set_mcast_mac :: "octet list \<Rightarrow> eth_regs \<Rightarrow> eth_regs" where
  "ll_set_mcast_mac Addr r =
     r\<lparr>MACA0HR := ETH_MACA1HR_AE OR push_bit 8 (ucast (Addr ! 5)) OR ucast (Addr ! 4),
       MACA0LR := push_bit 24 (ucast (Addr ! 3)) OR push_bit 16 (ucast (Addr ! 2)) OR
         push_bit 8 (ucast (Addr ! 1)) OR ucast (Addr ! 0)\<rparr>"

text \<open>The configuration \<open>ethernetif_ptp_init\<close> hands to the HAL, whose effect on the registers is a parameter.\<close>

record ETH_PTP_ConfigTypeDef =
  TimestampSubsecondInc :: int
  TimestampAddend :: int
  Timestamp_on :: bool
  TimestampUpdate :: bool
  TimestampAll :: bool
  TimestampV2 :: bool
  TimestampIPv6 :: bool
  TimestampIPv4 :: bool
  TimestampEthernet :: bool
  TimestampEvent :: bool
  TimestampMaster :: bool
  TimestampFilter :: bool
  TimestampClockType :: int
  TimestampRolloverMode :: bool
  TimestampAddendUpdate :: bool
  TimestampUpdateMode :: bool

definition ADJ_FREQ_BASE_INCREMENT :: int where "ADJ_FREQ_BASE_INCREMENT = 20"

definition ptp_cfg :: ETH_PTP_ConfigTypeDef where
  "ptp_cfg = \<lparr>TimestampSubsecondInc = ADJ_FREQ_BASE_INCREMENT, TimestampAddend = ADJ_FREQ_BASE_ADDEND,
     Timestamp_on = True, TimestampUpdate = True, TimestampAll = False, TimestampV2 = True, TimestampIPv6 = False,
     TimestampIPv4 = True, TimestampEthernet = False, TimestampEvent = False, TimestampMaster = True,
     TimestampFilter = False, TimestampClockType = 0, TimestampRolloverMode = ETH_PTP_ROLLOVER_MODE,
     TimestampAddendUpdate = True, TimestampUpdateMode = True\<rparr>"

definition ethernetif_ptp_init :: "(ETH_PTP_ConfigTypeDef \<Rightarrow> eth_regs \<Rightarrow> eth_regs) \<Rightarrow> eth_regs \<Rightarrow> eth_regs" where
  "ethernetif_ptp_init HAL_ETH_PTP_SetConfig r = ll_set_mcast_mac PTP_MCAST_MAC (HAL_ETH_PTP_SetConfig ptp_cfg r)"

definition set_tscr :: "32 word \<Rightarrow> eth_regs \<Rightarrow> eth_regs" where
  "set_tscr bits r = r\<lparr>PTPTSCR := PTPTSCR r OR bits\<rparr>"

text \<open>\<open>while (ll_ptp_get_flag(flag) == SET);\<close> the loop may not end, then the value is \<open>None\<close>.\<close>

definition poll_clear :: "(eth_regs \<Rightarrow> eth_regs) \<Rightarrow> 32 word \<Rightarrow> eth_regs \<Rightarrow> eth_regs option" where
  "poll_clear hw flag r = while_option (ll_ptp_get_flag flag) hw r"

text \<open>The sign, seconds and subseconds both writers of the clock compute; conversion to \<open>uint32_t\<close> wraps.\<close>

definition sign_and_value :: "ptptime_t \<Rightarrow> 32 word \<times> 32 word \<times> 32 word" where
  "sign_and_value t =
     (if tv_sec t < 0 \<or> (tv_sec t = 0 \<and> tv_nsec t < 0)
      then (ETH_PTP_NegativeTime, word_of_int (- tv_sec t), subsecond_to_nanosecond (word_of_int (- tv_nsec t)))
      else (ETH_PTP_PositiveTime, word_of_int (tv_sec t), subsecond_to_nanosecond (word_of_int (tv_nsec t))))"

definition ethernetif_ptp_set_time ::
  "(eth_regs \<Rightarrow> eth_regs) \<Rightarrow> ptptime_t \<Rightarrow> eth_regs \<Rightarrow> eth_regs option" where
  "ethernetif_ptp_set_time hw timestamp r =
     (let (Sign, SecondValue, SubSecondValue) = sign_and_value timestamp;
          r = ll_ptp_set_time_stamp_update Sign SecondValue SubSecondValue r;
          r = set_tscr ETH_PTPTSCR_TSSTI r
      in poll_clear hw ETH_PTPTSCR_TSSTI r)"

text \<open>The two registers are read one after the other; the MAC runs on in between.\<close>

definition ethernetif_ptp_get_time :: "(eth_regs \<Rightarrow> eth_regs) \<Rightarrow> eth_regs \<Rightarrow> ptptime_t \<times> eth_regs" where
  "ethernetif_ptp_get_time hw r =
     (let nsec = sint (subsecond_to_nanosecond (PTPTSLR r));
          r = hw r
      in (\<lparr>tv_sec = sint (PTPTSHR r), tv_nsec = nsec\<rparr>, r))"

definition ethernetif_ptp_update_offset ::
  "(eth_regs \<Rightarrow> eth_regs) \<Rightarrow> ptptime_t \<Rightarrow> eth_regs \<Rightarrow> eth_regs option" where
  "ethernetif_ptp_update_offset hw timeoffset r =
     (let (Sign, SecondValue, SubSecondValue) = sign_and_value timeoffset;
          addend = PTPTSAR r
      in Option.bind (poll_clear hw ETH_PTPTSCR_TSSTU r) (\<lambda>r.
         Option.bind (poll_clear hw ETH_PTPTSCR_TSSTI r) (\<lambda>r.
         let r = ll_ptp_set_time_stamp_update Sign SecondValue SubSecondValue r;
             r = set_tscr ETH_PTPTSCR_TSSTU r
         in Option.bind (poll_clear hw ETH_PTPTSCR_TSSTU r) (\<lambda>r.
            Some (set_tscr ETH_PTPTSCR_TSARU (r\<lparr>PTPTSAR := addend\<rparr>))))))"

text \<open>
  The addend for a frequency offset in ppb: \<open>int64_t\<close> arithmetic with arithmetic shifts, stored
  in \<open>uint32_t\<close>.
\<close>

definition freq_addend :: "int \<Rightarrow> int" where
  "freq_addend Adj =
     (let Adj = (if Adj > 5120000 then 5120000 else Adj);
          Adj = (if Adj < -5120000 then -5120000 else Adj)
      in drop_bit 6 (drop_bit 8 (275 * Adj) * drop_bit 24 ADJ_FREQ_BASE_ADDEND) + ADJ_FREQ_BASE_ADDEND)"

definition ethernetif_ptp_adj_freq :: "int \<Rightarrow> eth_regs \<Rightarrow> eth_regs" where
  "ethernetif_ptp_adj_freq Adj r =
     set_tscr ETH_PTPTSCR_TSARU (r\<lparr>PTPTSAR := word_of_int (freq_addend Adj)\<rparr>)"

text \<open>Time stamps the HAL has latched for the last frame.\<close>

definition stamp_time :: "32 word \<Rightarrow> 32 word \<Rightarrow> TimeInternal" where
  "stamp_time high low = \<lparr>seconds = sint high, nanoseconds = sint (subsecond_to_nanosecond low)\<rparr>"

definition ethernetif_ptp_set_pps_output :: "8 word \<Rightarrow> eth_regs \<Rightarrow> eth_regs" where
  "ethernetif_ptp_set_pps_output freq r = r\<lparr>PTPPPSCR := ucast freq AND 0x0f\<rparr>"

section \<open>The commands of the daemon\<close>

text \<open>\<open>getTime\<close>, \<open>setTime\<close>, \<open>updateTime\<close> and \<open>adjTime\<close> of \<open>dep/sys_time.c\<close> on the registers.\<close>

definition drive :: "(eth_regs \<Rightarrow> eth_regs) \<Rightarrow> clock_cmd \<Rightarrow> eth_regs \<Rightarrow> eth_regs option" where
  "drive hw cmd r =
     (case cmd of
        SetTime t \<Rightarrow> ethernetif_ptp_set_time hw \<lparr>tv_sec = seconds t, tv_nsec = nanoseconds t\<rparr> r
      | UpdateOffset t \<Rightarrow> ethernetif_ptp_update_offset hw \<lparr>tv_sec = seconds t, tv_nsec = nanoseconds t\<rparr> r
      | AdjFreq adj \<Rightarrow> Some (ethernetif_ptp_adj_freq adj r))"

fun drive_all :: "(eth_regs \<Rightarrow> eth_regs) \<Rightarrow> clock_cmd list \<Rightarrow> eth_regs \<Rightarrow> eth_regs option" where
  "drive_all hw [] r = Some r"
| "drive_all hw (cmd # cmds) r = Option.bind (drive hw cmd r) (drive_all hw cmds)"

section \<open>Lemmas on the clock\<close>

lemma subsecond_id [simp]: "subsecond_to_nanosecond v = v"
  by (simp add: subsecond_to_nanosecond_def ETH_PTP_ROLLOVER_MODE_def)

lemma poll_clear_at:
  assumes "\<And>m. m < n \<Longrightarrow> ll_ptp_get_flag f ((hw ^^ m) r)" "\<not> ll_ptp_get_flag f ((hw ^^ n) r)"
  shows "poll_clear hw f r = Some ((hw ^^ n) r)"
proof -
  have "(LEAST k. \<not> ll_ptp_get_flag f ((hw ^^ k) r)) = n"
    using assms by (intro Least_equality) (auto simp: not_less [symmetric])
  then show ?thesis using assms(2) by (auto simp: poll_clear_def while_option_def)
qed

lemma poll_clear_returns: "\<not> ll_ptp_get_flag f ((hw ^^ n) r) \<Longrightarrow> \<exists>r'. poll_clear hw f r = Some r'"
  by (auto simp: poll_clear_def while_option_def)

lemma poll_clear_invariant:
  assumes "poll_clear hw f r = Some r'" "P r" "\<And>s. P s \<Longrightarrow> P (hw s)"
  shows "P r'" "\<not> ll_ptp_get_flag f r'"
proof -
  have w: "while_option (ll_ptp_get_flag f) hw r = Some r'" using assms(1) by (simp add: poll_clear_def)
  show "P r'" by (rule while_option_rule [where P = P, OF _ w assms(2)]) (rule assms(3))
  show "\<not> ll_ptp_get_flag f r'" by (rule while_option_stop [OF w])
qed

lemma uint_word: "0 \<le> x \<Longrightarrow> x < 2 ^ 32 \<Longrightarrow> uint (word_of_int x :: 32 word) = x"
  by (simp add: uint_word_of_int)

text \<open>The addend: exact at 0, monotone, and within 1 in 2000 of the frequency asked for.\<close>

lemma freq_addend_eq:
  "freq_addend a = 275 * max (-5120000) (min a 5120000) div 256 + 2 ^ 30"
proof -
  have d: "drop_bit 8 x = x div 256" "drop_bit 6 x = x div 64" for x :: int
    by (simp_all add: drop_bit_eq_div)
  have b: "drop_bit 24 ADJ_FREQ_BASE_ADDEND = 64"
    by (simp add: ADJ_FREQ_BASE_ADDEND_def drop_bit_eq_div)
  show ?thesis unfolding freq_addend_def Let_def b d by (simp add: ADJ_FREQ_BASE_ADDEND_def max_def min_def)
qed

lemma freq_addend_range:
  assumes "\<bar>a\<bar> \<le> ADJ_FREQ_MAX"
  shows "\<bar>freq_addend a - ADJ_FREQ_BASE_ADDEND\<bar> \<le> 550000"
    "uint (word_of_int (freq_addend a) :: 32 word) = freq_addend a"
proof -
  have e: "freq_addend a = 275 * a div 256 + 2 ^ 30"
    using assms by (simp add: freq_addend_eq ADJ_FREQ_MAX_def)
  have "-550000 \<le> 275 * a div 256" "275 * a div 256 \<le> 550000"
    using assms by (simp_all add: ADJ_FREQ_MAX_def)
  then have b: "0 \<le> freq_addend a" "freq_addend a < 2 ^ 32" "\<bar>freq_addend a - ADJ_FREQ_BASE_ADDEND\<bar> \<le> 550000"
    by (simp_all add: e ADJ_FREQ_BASE_ADDEND_def)
  then show "\<bar>freq_addend a - ADJ_FREQ_BASE_ADDEND\<bar> \<le> 550000" by blast
  show "uint (word_of_int (freq_addend a) :: 32 word) = freq_addend a" by (rule uint_word [OF b(1,2)])
qed

lemma freq_addend_accuracy:
  assumes "\<bar>a\<bar> \<le> ADJ_FREQ_MAX"
  shows "\<bar>(freq_addend a - ADJ_FREQ_BASE_ADDEND) * 10 ^ 9 - a * ADJ_FREQ_BASE_ADDEND\<bar> \<le> 476926 * \<bar>a\<bar> + 10 ^ 9"
proof -
  have e: "freq_addend a - ADJ_FREQ_BASE_ADDEND = 275 * a div 256"
    using assms by (simp add: freq_addend_eq ADJ_FREQ_MAX_def ADJ_FREQ_BASE_ADDEND_def)
  define d where "d = 275 * a div 256"
  have d: "256 * d \<le> 275 * a" "275 * a < 256 * d + 256" unfolding d_def by linarith+
  show ?thesis
  proof (cases "0 \<le> a")
    case True
    then show ?thesis using d unfolding e d_def [symmetric] by (simp add: abs_le_iff ADJ_FREQ_BASE_ADDEND_def)
  next
    case False
    then show ?thesis using d unfolding e d_def [symmetric] by (simp add: abs_le_iff ADJ_FREQ_BASE_ADDEND_def)
  qed
qed

lemma freq_addend_mono: "a \<le> b \<Longrightarrow> freq_addend a \<le> freq_addend b"
  unfolding freq_addend_eq by (intro add_right_mono zdiv_mono1) auto

text \<open>The offset in nanoseconds the update registers hold, as the reference manual reads them.\<close>

definition programmed :: "eth_regs \<Rightarrow> int" where
  "programmed r = (if bit (PTPTSLUR r) 31 then -1 else 1) *
     (uint (PTPTSHUR r) * 10 ^ 9 + uint (take_bit 31 (PTPTSLUR r)))"

definition reg_time :: "eth_regs \<Rightarrow> int" where
  "reg_time r = uint (PTPTSHR r) * 10 ^ 9 + uint (PTPTSLR r)"

lemma negative_time_bit: "bit ETH_PTP_NegativeTime n \<longleftrightarrow> n = 31"
proof -
  have d: "ETH_PTP_NegativeTime = push_bit 31 1" by (simp add: ETH_PTP_NegativeTime_def)
  show ?thesis unfolding d bit_push_bit_iff by (auto simp: bit_1_iff)
qed

lemma signed_word:
  fixes v :: "32 word"
  assumes "uint v < 2 ^ 31"
  shows "take_bit 31 (ETH_PTP_NegativeTime OR v) = v" "bit (ETH_PTP_NegativeTime OR v) 31"
    "take_bit 31 v = v" "\<not> bit v 31"
proof -
  have v: "take_bit 31 v = v"
    using assms by (intro word_uint_eqI) (simp add: unsigned_take_bit_eq take_bit_int_eq_self)
  then have b: "\<not> bit v n" if "31 \<le> n" for n
    using that by (metis bit_take_bit_iff not_less)
  show "take_bit 31 v = v" "\<not> bit v 31" using v b by simp_all
  show "bit (ETH_PTP_NegativeTime OR v) 31" by (simp add: bit_or_iff negative_time_bit)
  show "take_bit 31 (ETH_PTP_NegativeTime OR v) = v"
    by (rule bit_eqI) (use b in \<open>auto simp: bit_simps negative_time_bit\<close>)
qed

text \<open>A time whose fields have the same sign, as \<open>normalizeTime\<close> leaves it.\<close>

definition same_sign :: "ptptime_t \<Rightarrow> bool" where
  "same_sign t \<longleftrightarrow> \<bar>tv_sec t\<bar> < 2 ^ 31 \<and> \<bar>tv_nsec t\<bar> < 10 ^ 9 \<and>
     (0 < tv_sec t \<longrightarrow> 0 \<le> tv_nsec t) \<and> (tv_sec t < 0 \<longrightarrow> tv_nsec t \<le> 0)"

lemma programmed_sign_and_value:
  assumes "same_sign t" "sign_and_value t = (Sign, s, ss)"
  shows "programmed (ll_ptp_set_time_stamp_update Sign s ss r) = tv_sec t * 10 ^ 9 + tv_nsec t"
proof (cases "tv_sec t < 0 \<or> (tv_sec t = 0 \<and> tv_nsec t < 0)")
  case True
  have v: "Sign = ETH_PTP_NegativeTime" "s = word_of_int (- tv_sec t)" "ss = word_of_int (- tv_nsec t)"
    using True assms(2) by (simp_all add: sign_and_value_def split: if_splits)
  have "uint s = - tv_sec t" "uint ss = - tv_nsec t"
    unfolding v by (rule uint_word; use assms(1) True in \<open>auto simp: same_sign_def\<close>)+
  moreover from this have "uint ss < 2 ^ 31" using assms(1) by (auto simp: same_sign_def)
  ultimately show ?thesis
    using signed_word [of ss] by (simp add: programmed_def ll_ptp_set_time_stamp_update_def v(1))
next
  case False
  have v: "Sign = 0" "s = word_of_int (tv_sec t)" "ss = word_of_int (tv_nsec t)"
    using False assms(2) by (simp_all add: sign_and_value_def ETH_PTP_PositiveTime_def split: if_splits)
  have "uint s = tv_sec t" "uint ss = tv_nsec t"
    unfolding v by (rule uint_word; use assms(1) False in \<open>auto simp: same_sign_def\<close>)+
  moreover from this have "uint ss < 2 ^ 31" using assms(1) by (auto simp: same_sign_def)
  ultimately show ?thesis
    using signed_word [of ss] by (simp add: programmed_def ll_ptp_set_time_stamp_update_def v(1))
qed


text \<open>
  What the reference manual promises of the MAC, for a clock that stands still between accesses:
  the initialise bit loads the update registers into the time, the update bit adds or subtracts
  them, each bit is cleared when that is done, and nothing else changes.
\<close>

definition mac_done :: "32 word \<Rightarrow> eth_regs \<Rightarrow> eth_regs \<Rightarrow> bool" where
  "mac_done flag r r' \<longleftrightarrow> PTPTSCR r' = PTPTSCR r AND NOT flag \<and> PTPTSAR r' = PTPTSAR r"

definition mac_loads :: "(eth_regs \<Rightarrow> eth_regs) \<Rightarrow> bool" where
  "mac_loads hw \<longleftrightarrow> (\<forall>r. ll_ptp_get_flag ETH_PTPTSCR_TSSTI r \<longrightarrow> (\<exists>n.
     (\<forall>m < n. ll_ptp_get_flag ETH_PTPTSCR_TSSTI ((hw ^^ m) r)) \<and>
     mac_done ETH_PTPTSCR_TSSTI r ((hw ^^ n) r) \<and>
     PTPTSHR ((hw ^^ n) r) = PTPTSHUR r \<and> PTPTSLR ((hw ^^ n) r) = take_bit 31 (PTPTSLUR r)))"

definition mac_adds :: "(eth_regs \<Rightarrow> eth_regs) \<Rightarrow> bool" where
  "mac_adds hw \<longleftrightarrow> (\<forall>r. ll_ptp_get_flag ETH_PTPTSCR_TSSTU r \<and> \<not> ll_ptp_get_flag ETH_PTPTSCR_TSSTI r \<longrightarrow> (\<exists>n.
     (\<forall>m < n. ll_ptp_get_flag ETH_PTPTSCR_TSSTU ((hw ^^ m) r)) \<and>
     mac_done ETH_PTPTSCR_TSSTU r ((hw ^^ n) r) \<and>
     reg_time ((hw ^^ n) r) = (reg_time r + programmed r) mod (2 ^ 32 * 10 ^ 9)))"

text \<open>A MAC that finishes each request at once.\<close>

definition swift_mac :: "eth_regs \<Rightarrow> eth_regs" where
  "swift_mac r =
     (if ll_ptp_get_flag ETH_PTPTSCR_TSSTI r then
        r\<lparr>PTPTSCR := PTPTSCR r AND NOT ETH_PTPTSCR_TSSTI, PTPTSHR := PTPTSHUR r,
          PTPTSLR := take_bit 31 (PTPTSLUR r)\<rparr>
      else if ll_ptp_get_flag ETH_PTPTSCR_TSSTU r then
        (let t = (reg_time r + programmed r) mod (2 ^ 32 * 10 ^ 9)
         in r\<lparr>PTPTSCR := PTPTSCR r AND NOT ETH_PTPTSCR_TSSTU, PTPTSHR := word_of_int (t div 10 ^ 9),
              PTPTSLR := word_of_int (t mod 10 ^ 9)\<rparr>)
      else r)"

lemma flag_done: "PTPTSCR r' = PTPTSCR r AND NOT flag \<Longrightarrow> \<not> ll_ptp_get_flag flag r'"
  by (simp add: ll_ptp_get_flag_def and.assoc)

lemma reg_time_parts:
  assumes "0 \<le> t" "t < 2 ^ 32 * 10 ^ 9"
  shows "reg_time (r\<lparr>PTPTSHR := word_of_int (t div 10 ^ 9), PTPTSLR := word_of_int (t mod 10 ^ 9)\<rparr>) = t"
proof -
  have "uint (word_of_int (t div 10 ^ 9) :: 32 word) = t div 10 ^ 9"
    "uint (word_of_int (t mod 10 ^ 9) :: 32 word) = t mod 10 ^ 9"
    by (rule uint_word; use assms in simp; linarith)+
  then show ?thesis by (simp add: reg_time_def)
qed

lemma swift_mac_adds: "mac_adds swift_mac"
  unfolding mac_adds_def
proof (intro allI impI)
  fix r assume f: "ll_ptp_get_flag ETH_PTPTSCR_TSSTU r \<and> \<not> ll_ptp_get_flag ETH_PTPTSCR_TSSTI r"
  define t where "t = (reg_time r + programmed r) mod (2 ^ 32 * 10 ^ 9)"
  have t: "0 \<le> t" "t < 2 ^ 32 * 10 ^ 9" unfolding t_def by simp_all
  have s: "swift_mac r = (r\<lparr>PTPTSCR := PTPTSCR r AND NOT ETH_PTPTSCR_TSSTU\<rparr>)
      \<lparr>PTPTSHR := word_of_int (t div 10 ^ 9), PTPTSLR := word_of_int (t mod 10 ^ 9)\<rparr>"
    using f by (simp add: swift_mac_def t_def Let_def)
  have "reg_time (swift_mac r) = t" unfolding s by (rule reg_time_parts [OF t])
  then show "\<exists>n. (\<forall>m < n. ll_ptp_get_flag ETH_PTPTSCR_TSSTU ((swift_mac ^^ m) r)) \<and>
     mac_done ETH_PTPTSCR_TSSTU r ((swift_mac ^^ n) r) \<and>
     reg_time ((swift_mac ^^ n) r) = (reg_time r + programmed r) mod (2 ^ 32 * 10 ^ 9)"
    by (intro exI [of _ 1]) (use f in \<open>simp add: t_def mac_done_def s\<close>)
qed

lemma swift_mac_ok: "mac_loads swift_mac"
  unfolding mac_loads_def
proof (intro allI impI)
  fix r assume f: "ll_ptp_get_flag ETH_PTPTSCR_TSSTI r"
  show "\<exists>n. (\<forall>m < n. ll_ptp_get_flag ETH_PTPTSCR_TSSTI ((swift_mac ^^ m) r)) \<and>
     mac_done ETH_PTPTSCR_TSSTI r ((swift_mac ^^ n) r) \<and>
     PTPTSHR ((swift_mac ^^ n) r) = PTPTSHUR r \<and> PTPTSLR ((swift_mac ^^ n) r) = take_bit 31 (PTPTSLUR r)"
    by (rule exI [of _ 1]) (use f in \<open>simp add: swift_mac_def mac_done_def\<close>)
qed

lemma set_tscr_flag: "flag \<noteq> 0 \<Longrightarrow> ll_ptp_get_flag flag (set_tscr flag r)"
  by (simp add: ll_ptp_get_flag_def set_tscr_def bit.conj_disj_distrib2 or_eq_0_iff)

lemma set_time_loads:
  assumes "mac_loads hw" "0 \<le> s" "s < 2 ^ 31" "0 \<le> ns" "ns < 10 ^ 9"
  obtains r' where "ethernetif_ptp_set_time hw \<lparr>tv_sec = s, tv_nsec = ns\<rparr> r = Some r'"
    "PTPTSHR r' = word_of_int s" "PTPTSLR r' = word_of_int ns" "PTPTSAR r' = PTPTSAR r"
    "\<not> ll_ptp_get_flag ETH_PTPTSCR_TSSTI r'"
proof -
  define v where "v = set_tscr ETH_PTPTSCR_TSSTI (ll_ptp_set_time_stamp_update 0 (word_of_int s) (word_of_int ns) r)"
  have e: "ethernetif_ptp_set_time hw \<lparr>tv_sec = s, tv_nsec = ns\<rparr> r = poll_clear hw ETH_PTPTSCR_TSSTI v"
    using assms(2,4) by (simp add: ethernetif_ptp_set_time_def sign_and_value_def v_def ETH_PTP_PositiveTime_def)
  have "ll_ptp_get_flag ETH_PTPTSCR_TSSTI v" unfolding v_def by (rule set_tscr_flag) (simp add: tscr_defs)
  then obtain n where n: "\<And>m. m < n \<Longrightarrow> ll_ptp_get_flag ETH_PTPTSCR_TSSTI ((hw ^^ m) v)"
    "mac_done ETH_PTPTSCR_TSSTI v ((hw ^^ n) v)" "PTPTSHR ((hw ^^ n) v) = PTPTSHUR v"
    "PTPTSLR ((hw ^^ n) v) = take_bit 31 (PTPTSLUR v)"
    using assms(1) unfolding mac_loads_def by blast
  have d: "\<not> ll_ptp_get_flag ETH_PTPTSCR_TSSTI ((hw ^^ n) v)" using n(2) flag_done [of "(hw ^^ n) v" v] by (simp add: mac_done_def)
  have l: "take_bit 31 (word_of_int ns :: 32 word) = word_of_int ns"
    by (rule signed_word(3)) (use assms(4,5) uint_word [of ns] in simp)
  show thesis
    by (rule that [of "(hw ^^ n) v"])
      (use n d poll_clear_at [OF n(1) d] l in \<open>simp_all add: e mac_done_def v_def set_tscr_def ll_ptp_set_time_stamp_update_def\<close>)
qed


lemma poll_clear_now: "\<not> ll_ptp_get_flag f r \<Longrightarrow> poll_clear hw f r = Some r"
  using poll_clear_at [of 0 f hw r] by simp

lemma update_offset_adds:
  assumes "mac_adds hw" "same_sign t"
    and "\<not> ll_ptp_get_flag ETH_PTPTSCR_TSSTU r" "\<not> ll_ptp_get_flag ETH_PTPTSCR_TSSTI r"
  obtains r' where "ethernetif_ptp_update_offset hw t r = Some r'" "PTPTSAR r' = PTPTSAR r"
    "reg_time r' = (reg_time r + (tv_sec t * 10 ^ 9 + tv_nsec t)) mod (2 ^ 32 * 10 ^ 9)"
proof -
  obtain Sign s ss where sv: "sign_and_value t = (Sign, s, ss)" by (metis prod.collapse)
  define v where "v = set_tscr ETH_PTPTSCR_TSSTU (ll_ptp_set_time_stamp_update Sign s ss r)"
  have f: "ll_ptp_get_flag ETH_PTPTSCR_TSSTU v" "\<not> ll_ptp_get_flag ETH_PTPTSCR_TSSTI v"
    using set_tscr_flag [of ETH_PTPTSCR_TSSTU] assms(4)
    by (simp_all add: v_def tscr_defs ll_ptp_get_flag_def set_tscr_def ll_ptp_set_time_stamp_update_def
        bit.conj_disj_distrib2)
  have v: "reg_time v = reg_time r" "programmed v = tv_sec t * 10 ^ 9 + tv_nsec t"
    using programmed_sign_and_value [OF assms(2) sv, of r]
    by (simp_all add: v_def set_tscr_def reg_time_def programmed_def ll_ptp_set_time_stamp_update_def)
  obtain n where n: "\<And>m. m < n \<Longrightarrow> ll_ptp_get_flag ETH_PTPTSCR_TSSTU ((hw ^^ m) v)"
    "mac_done ETH_PTPTSCR_TSSTU v ((hw ^^ n) v)"
    "reg_time ((hw ^^ n) v) = (reg_time v + programmed v) mod (2 ^ 32 * 10 ^ 9)"
    using assms(1) f unfolding mac_adds_def by blast
  have d: "\<not> ll_ptp_get_flag ETH_PTPTSCR_TSSTU ((hw ^^ n) v)"
    using n(2) flag_done [of "(hw ^^ n) v" v] by (simp add: mac_done_def)
  let ?r = "set_tscr ETH_PTPTSCR_TSARU (((hw ^^ n) v)\<lparr>PTPTSAR := PTPTSAR r\<rparr>)"
  have e: "ethernetif_ptp_update_offset hw t r = Some ?r"
    using poll_clear_now [OF assms(3)] poll_clear_now [OF assms(4)] poll_clear_at [OF n(1) d]
    by (simp add: ethernetif_ptp_update_offset_def sv Let_def v_def)
  have "reg_time ?r = reg_time ((hw ^^ n) v)" by (simp add: set_tscr_def reg_time_def)
  with n(3) v show thesis by (intro that [OF e]) (simp_all add: set_tscr_def)
qed

lemma set_tscr_PTPTSAR [simp]: "PTPTSAR (set_tscr b r) = PTPTSAR r"
  by (simp add: set_tscr_def)

text \<open>The addend under the commands of the daemon, whatever the MAC does to the other registers.\<close>

definition mac_ready :: "(eth_regs \<Rightarrow> eth_regs) \<Rightarrow> bool" where
  "mac_ready hw \<longleftrightarrow> (\<forall>r. PTPTSAR (hw r) = PTPTSAR r) \<and>
     (\<forall>r. \<forall>flag \<in> {ETH_PTPTSCR_TSSTI, ETH_PTPTSCR_TSSTU}. \<exists>n. \<not> ll_ptp_get_flag flag ((hw ^^ n) r))"

definition addend_ok :: "eth_regs \<Rightarrow> bool" where
  "addend_ok r \<longleftrightarrow> \<bar>uint (PTPTSAR r) - ADJ_FREQ_BASE_ADDEND\<bar> \<le> 550000"

text \<open>The swift MAC clears either bit after at most two steps.\<close>

lemma swift_mac_ready: "mac_ready swift_mac"
proof -
  have keep: "PTPTSAR (swift_mac r) = PTPTSAR r" for r by (simp add: swift_mac_def Let_def)
  have stay: "\<not> ll_ptp_get_flag f r'" if "\<not> ll_ptp_get_flag f r" "PTPTSCR r' = PTPTSCR r AND m" for f r r' m
  proof -
    have "(PTPTSCR r AND m) AND f = (PTPTSCR r AND f) AND m" by (simp add: ac_simps)
    then show ?thesis using that by (simp add: ll_ptp_get_flag_def)
  qed
  have scr: "PTPTSCR (swift_mac r) = (if ll_ptp_get_flag ETH_PTPTSCR_TSSTI r then PTPTSCR r AND NOT ETH_PTPTSCR_TSSTI
      else if ll_ptp_get_flag ETH_PTPTSCR_TSSTU r then PTPTSCR r AND NOT ETH_PTPTSCR_TSSTU else PTPTSCR r)" for r
    by (simp add: swift_mac_def Let_def)
  have tsti: "\<not> ll_ptp_get_flag ETH_PTPTSCR_TSSTI (swift_mac r)" for r
    using scr [of r] flag_done [of "swift_mac r" r ETH_PTPTSCR_TSSTI]
      stay [of ETH_PTPTSCR_TSSTI r "swift_mac r" "NOT ETH_PTPTSCR_TSSTU"]
      stay [of ETH_PTPTSCR_TSSTI r "swift_mac r" "-1"] by (auto split: if_splits)
  have tstu: "\<not> ll_ptp_get_flag ETH_PTPTSCR_TSSTU (swift_mac r)" if "\<not> ll_ptp_get_flag ETH_PTPTSCR_TSSTI r" for r
    using that scr [of r] flag_done [of "swift_mac r" r ETH_PTPTSCR_TSSTU]
      stay [of ETH_PTPTSCR_TSSTU r "swift_mac r" "-1"] by (auto split: if_splits)
  have "\<exists>n. \<not> ll_ptp_get_flag f ((swift_mac ^^ n) r)" if "f \<in> {ETH_PTPTSCR_TSSTI, ETH_PTPTSCR_TSSTU}" for f r
    using that tsti [of r] tstu [OF tsti, of r]
    by (auto intro: exI [of _ 1] exI [of _ 2] simp: numeral_2_eq_2)
  with keep show ?thesis by (simp add: mac_ready_def)
qed

lemma mac_ready_poll:
  assumes "mac_ready hw" "flag \<in> {ETH_PTPTSCR_TSSTI, ETH_PTPTSCR_TSSTU}"
  obtains r' where "poll_clear hw flag r = Some r'" "PTPTSAR r' = PTPTSAR r"
proof -
  obtain n where "\<not> ll_ptp_get_flag flag ((hw ^^ n) r)" using assms unfolding mac_ready_def by blast
  from poll_clear_returns [OF this] obtain r' where r: "poll_clear hw flag r = Some r'" by blast
  have "PTPTSAR r' = PTPTSAR r"
    by (rule poll_clear_invariant(1) [OF r, of "\<lambda>s. PTPTSAR s = PTPTSAR r"])
      (use assms(1) in \<open>simp_all add: mac_ready_def\<close>)
  with r show thesis by (rule that)
qed

lemma drive_addend:
  assumes "mac_ready hw" "cmd_ok cmd" "addend_ok r"
  shows "\<exists>r'. drive hw cmd r = Some r' \<and> addend_ok r'"
proof (cases cmd)
  case (SetTime t)
  let ?v = "\<lambda>S s ss. set_tscr ETH_PTPTSCR_TSSTI (ll_ptp_set_time_stamp_update S s ss r)"
  obtain S s ss where sv: "sign_and_value \<lparr>tv_sec = seconds t, tv_nsec = nanoseconds t\<rparr> = (S, s, ss)"
    by (metis prod.collapse)
  obtain r' where "poll_clear hw ETH_PTPTSCR_TSSTI (?v S s ss) = Some r'" "PTPTSAR r' = PTPTSAR (?v S s ss)"
    by (rule mac_ready_poll [OF assms(1), where flag = ETH_PTPTSCR_TSSTI and r = "?v S s ss"]) auto
  then show ?thesis
    using assms(3) by (simp add: SetTime drive_def ethernetif_ptp_set_time_def sv Let_def addend_ok_def set_tscr_def
        ll_ptp_set_time_stamp_update_def)
next
  case (UpdateOffset t)
  obtain S s ss where sv: "sign_and_value \<lparr>tv_sec = seconds t, tv_nsec = nanoseconds t\<rparr> = (S, s, ss)"
    by (metis prod.collapse)
  obtain r1 where 1: "poll_clear hw ETH_PTPTSCR_TSSTU r = Some r1"
    by (rule mac_ready_poll [OF assms(1), where r = r and flag = ETH_PTPTSCR_TSSTU]) auto
  obtain r2 where 2: "poll_clear hw ETH_PTPTSCR_TSSTI r1 = Some r2"
    by (rule mac_ready_poll [OF assms(1), where r = r1 and flag = ETH_PTPTSCR_TSSTI]) auto
  obtain r3 where 3: "poll_clear hw ETH_PTPTSCR_TSSTU (set_tscr ETH_PTPTSCR_TSSTU
      (ll_ptp_set_time_stamp_update S s ss r2)) = Some r3"
    by (rule mac_ready_poll [OF assms(1), where flag = ETH_PTPTSCR_TSSTU]) auto
  show ?thesis
    using assms(3) by (simp add: UpdateOffset drive_def ethernetif_ptp_update_offset_def sv Let_def 1 2 3
        addend_ok_def)
next
  case (AdjFreq a)
  then have "\<bar>a\<bar> \<le> ADJ_FREQ_MAX" using assms(2) by (simp add: cmd_ok_def)
  from freq_addend_range [OF this] show ?thesis
    by (simp add: AdjFreq drive_def ethernetif_ptp_adj_freq_def addend_ok_def set_tscr_def)
qed

lemma drive_all_addend:
  assumes "mac_ready hw" "list_all cmd_ok cmds" "addend_ok r"
  shows "\<exists>r'. drive_all hw cmds r = Some r' \<and> addend_ok r'"
  using assms(2,3)
proof (induction cmds arbitrary: r)
  case (Cons c cs)
  then show ?case using drive_addend [OF assms(1), of c r] by fastforce
qed simp


lemma sint_small:
  fixes v :: "32 word"
  assumes "uint v < 2 ^ 31"
  shows "sint v = uint v"
proof -
  have "signed_take_bit 31 (uint v) = uint v"
    using assms uint_ge_0 [of v] by (intro signed_take_bit_int_eq_self) (linarith | simp)+
  then show ?thesis by (simp add: sint_uint)
qed

section \<open>Properties\<close>

definition idle_regs :: eth_regs where
  "idle_regs = \<lparr>PTPTSCR = 0x11, PTPTSHUR = 0, PTPTSLUR = 0, PTPTSHR = 7, PTPTSLR = 999999990, PTPTSAR = 0x40000000,
     PTPPPSCR = 0, MACA0HR = 0, MACA0LR = 0\<rparr>"

text \<open>
  A time set through the driver is the time read back, once the MAC has finished the
  initialisation the driver waits for; the rate of the clock is left alone.
\<close>

theorem set_time_roundtrip:
  assumes "mac_loads hw" "0 \<le> s" "s < 2 ^ 31" "0 \<le> ns" "ns < 10 ^ 9"
  shows "\<exists>r'. ethernetif_ptp_set_time hw \<lparr>tv_sec = s, tv_nsec = ns\<rparr> r = Some r' \<and>
    fst (ethernetif_ptp_get_time id r') = \<lparr>tv_sec = s, tv_nsec = ns\<rparr> \<and> PTPTSAR r' = PTPTSAR r"
proof -
  obtain r' where r': "ethernetif_ptp_set_time hw \<lparr>tv_sec = s, tv_nsec = ns\<rparr> r = Some r'"
    "PTPTSHR r' = word_of_int s" "PTPTSLR r' = word_of_int ns" "PTPTSAR r' = PTPTSAR r"
    by (rule set_time_loads [OF assms])
  have "sint (word_of_int x :: 32 word) = x" if "0 \<le> x" "x < 2 ^ 31" for x
    using that sint_small [of "word_of_int x"] uint_word [of x] by simp
  with assms(2-5) r' show ?thesis by (simp add: ethernetif_ptp_get_time_def)
qed

theorem set_time_roundtrip_witness:
  "\<exists>r'. ethernetif_ptp_set_time swift_mac \<lparr>tv_sec = 1600000000, tv_nsec = 5\<rparr> idle_regs = Some r' \<and>
    fst (ethernetif_ptp_get_time id r') = \<lparr>tv_sec = 1600000000, tv_nsec = 5\<rparr>"
  using set_time_roundtrip [OF swift_mac_ok, of 1600000000 5 idle_regs] by auto

text \<open>
  C28 (functional).  An offset in normal form, positive or negative, moves the hardware clock by exactly that
  many nanoseconds, and the addend that sets its rate survives the update.
\<close>

theorem update_offset_exact:
  assumes "mac_adds hw" "same_sign t"
    and "\<not> ll_ptp_get_flag ETH_PTPTSCR_TSSTU r" "\<not> ll_ptp_get_flag ETH_PTPTSCR_TSSTI r"
  shows "\<exists>r'. ethernetif_ptp_update_offset hw t r = Some r' \<and> PTPTSAR r' = PTPTSAR r \<and>
    reg_time r' = (reg_time r + (tv_sec t * 10 ^ 9 + tv_nsec t)) mod (2 ^ 32 * 10 ^ 9)"
  using update_offset_adds [OF assms] by metis

theorem update_offset_exact_witness:
  "\<exists>r'. ethernetif_ptp_update_offset swift_mac \<lparr>tv_sec = -2, tv_nsec = -1\<rparr> idle_regs = Some r' \<and>
    reg_time r' = 5999999989"
proof -
  have "same_sign \<lparr>tv_sec = -2, tv_nsec = -1\<rparr>" by (simp add: same_sign_def)
  moreover have "\<not> ll_ptp_get_flag ETH_PTPTSCR_TSSTU idle_regs" "\<not> ll_ptp_get_flag ETH_PTPTSCR_TSSTI idle_regs"
    by (simp_all add: ll_ptp_get_flag_def idle_regs_def tscr_defs)
  moreover have "reg_time idle_regs = 7999999990" by (simp add: reg_time_def idle_regs_def)
  ultimately show ?thesis using update_offset_exact [OF swift_mac_adds] by fastforce
qed

text \<open>
  C29 (bounds).  Whatever frequency adjustment within the daemon's limit is written, the addend register gets the
  value the driver computed without wrap-around, increasing with the adjustment and off the exact
  rate by at most 0.05 percent of it and the rounding of one bit.
\<close>

theorem adj_freq_accuracy:
  assumes "\<bar>a\<bar> \<le> ADJ_FREQ_MAX"
  shows "\<bar>(uint (PTPTSAR (ethernetif_ptp_adj_freq a r)) - ADJ_FREQ_BASE_ADDEND) * 10 ^ 9 - a * ADJ_FREQ_BASE_ADDEND\<bar>
      \<le> 476926 * \<bar>a\<bar> + 10 ^ 9 \<and>
    (a \<le> b \<and> \<bar>b\<bar> \<le> ADJ_FREQ_MAX \<longrightarrow>
      PTPTSAR (ethernetif_ptp_adj_freq a r) \<le> PTPTSAR (ethernetif_ptp_adj_freq b r))"
  using freq_addend_accuracy [OF assms] freq_addend_range(2) [OF assms] freq_addend_range(2) [of b]
    freq_addend_mono [of a b]
  by (simp add: ethernetif_ptp_adj_freq_def word_le_def)

theorem adj_freq_accuracy_witness:
  "\<bar>(uint (PTPTSAR (ethernetif_ptp_adj_freq (-1000) idle_regs)) - ADJ_FREQ_BASE_ADDEND) * 10 ^ 9 +
     1000 * ADJ_FREQ_BASE_ADDEND\<bar> \<le> 1476926000"
  using adj_freq_accuracy [of "-1000" idle_regs] by (simp add: ADJ_FREQ_MAX_def)

text \<open>
  The clock is read in two accesses, subseconds first: when the second ends between them the driver
  returns a time almost one second ahead of the clock.
\<close>

theorem get_time_tears:
  assumes "PTPTSHR (hw r) = PTPTSHR r + 1" "uint (PTPTSLR (hw r)) < 10 ^ 9" "uint (PTPTSHR r) < 2 ^ 31 - 1"
    and "uint (PTPTSLR r) < 10 ^ 9"
  shows "tv_sec (fst (ethernetif_ptp_get_time hw r)) * 10 ^ 9 + tv_nsec (fst (ethernetif_ptp_get_time hw r)) =
    reg_time (snd (ethernetif_ptp_get_time hw r)) + (uint (PTPTSLR r) - uint (PTPTSLR (hw r)))"
proof -
  have "uint (PTPTSHR (hw r)) = uint (PTPTSHR r) + 1"
    using assms(1,3) uint_ge_0 [of "PTPTSHR r"] by (simp add: uint_word_ariths(1) mod_pos_pos_trivial del: uint_ge_0)
  then show ?thesis
    using assms sint_small [of "PTPTSHR (hw r)"] sint_small [of "PTPTSLR r"] by (simp add: ethernetif_ptp_get_time_def reg_time_def)
qed

theorem get_time_tears_witness:
  "fst (ethernetif_ptp_get_time (\<lambda>r. r\<lparr>PTPTSHR := 8, PTPTSLR := 10\<rparr>) idle_regs) =
    \<lparr>tv_sec = 8, tv_nsec = 999999990\<rparr> \<and>
   tv_sec (fst (ethernetif_ptp_get_time (\<lambda>r. r\<lparr>PTPTSHR := 8, PTPTSLR := 10\<rparr>) idle_regs)) * 10 ^ 9 + 999999990 =
     reg_time (idle_regs\<lparr>PTPTSHR := 8, PTPTSLR := 10\<rparr>) + 999999980"
  using get_time_tears [of "\<lambda>r. r\<lparr>PTPTSHR := 8, PTPTSLR := 10\<rparr>" idle_regs]
    sint_small [of "999999990"]
  by (simp add: ethernetif_ptp_get_time_def idle_regs_def reg_time_def)

end
