(* ===== verification/EthFrames.thy ===== *)
theory EthFrames
  imports Net
begin

text \<open>
  The frames of the Ethernet driver \<open>ethernetif.c\<close>: how receive buffers are linked into a packet,
  the pool they come from with its wake-up of the input thread, and the transmit loop.
\<close>

section \<open>Receive chains\<close>

text \<open>One receive buffer with the pbuf header in front of it; lengths are \<open>u16_t\<close>.\<close>

record rx_seg =
  rx_data :: "octet list"
  rx_len :: int
  rx_tot :: int

text \<open>
  \<open>HAL_ETH_RxLinkCallback\<close>: the chain from \<open>*pStart\<close> to \<open>*pEnd\<close> is a list; the buffer becomes its
  end and every total grows by its length.
\<close>

definition HAL_ETH_RxLinkCallback :: "rx_seg list \<Rightarrow> octet list \<Rightarrow> int \<Rightarrow> rx_seg list" where
  "HAL_ETH_RxLinkCallback ch buff Length =
     (let p = \<lparr>rx_data = buff, rx_len = Length, rx_tot = 0\<rparr>
      in map (\<lambda>q. q\<lparr>rx_tot := u16 (rx_tot q + Length)\<rparr>) (ch @ [p]))"

text \<open>A frame: the HAL links its buffers in order.\<close>

definition link_frame :: "(octet list \<times> nat) list \<Rightarrow> rx_seg list" where
  "link_frame bufs = foldl (\<lambda>ch (buff, n). HAL_ETH_RxLinkCallback ch buff (int n)) [] bufs"

text \<open>The packet buffer the network path receives for such a chain.\<close>

definition as_pbuf :: "nat \<Rightarrow> rx_seg list \<Rightarrow> pbuf" where
  "as_pbuf k ch = \<lparr>pbuf_id = k, tot_len = nat (rx_tot (hd ch)),
     chain = map (\<lambda>q. take (nat (rx_len q)) (rx_data q)) ch\<rparr>"

fun totals_ok :: "rx_seg list \<Rightarrow> bool" where
  "totals_ok [] = True"
| "totals_ok (q # ch) \<longleftrightarrow> rx_tot q = rx_len q + sum_list (map rx_len ch) \<and> totals_ok ch"

lemma link_callback:
  assumes "totals_ok ch" "\<forall>q \<in> set ch. 0 \<le> rx_len q" "0 \<le> n" "sum_list (map rx_len ch) + n < 65536"
  shows "totals_ok (HAL_ETH_RxLinkCallback ch buff n)"
    "map rx_len (HAL_ETH_RxLinkCallback ch buff n) = map rx_len ch @ [n]"
    "map rx_data (HAL_ETH_RxLinkCallback ch buff n) = map rx_data ch @ [buff]"
proof -
  show "map rx_len (HAL_ETH_RxLinkCallback ch buff n) = map rx_len ch @ [n]"
    "map rx_data (HAL_ETH_RxLinkCallback ch buff n) = map rx_data ch @ [buff]"
    by (simp_all add: HAL_ETH_RxLinkCallback_def)
  show "totals_ok (HAL_ETH_RxLinkCallback ch buff n)"
    using assms
  proof (induction ch)
    case Nil
    then show ?case by (simp add: HAL_ETH_RxLinkCallback_def u16_def)
  next
    case (Cons q ch)
    have s: "0 \<le> sum_list (map rx_len ch)" using Cons.prems(2) by (intro sum_list_nonneg) auto
    then have "totals_ok (HAL_ETH_RxLinkCallback ch buff n)" using Cons by auto
    moreover have "u16 (rx_tot q + n) = rx_tot q + n"
      using Cons.prems s by (simp add: u16_def)
    ultimately show ?case
      using Cons.prems by (simp add: HAL_ETH_RxLinkCallback_def comp_def)
  qed
qed

lemma link_frame_snoc:
  "link_frame (bufs @ [(buff, n)]) = HAL_ETH_RxLinkCallback (link_frame bufs) buff (int n)"
  by (simp add: link_frame_def)

lemma link_frame_totals:
  assumes "sum_list (map snd bufs) < 65536"
  shows "totals_ok (link_frame bufs)" "map rx_len (link_frame bufs) = map (int \<circ> snd) bufs"
    "map rx_data (link_frame bufs) = map fst bufs"
proof -
  have "totals_ok (link_frame bufs) \<and> map rx_len (link_frame bufs) = map (int \<circ> snd) bufs \<and>
      map rx_data (link_frame bufs) = map fst bufs"
    using assms
  proof (induction bufs rule: rev_induct)
    case Nil
    then show ?case by (simp add: link_frame_def)
  next
    case (snoc b bufs)
    obtain buff n where b: "b = (buff, n)" by (cases b)
    have ih: "totals_ok (link_frame bufs)" "map rx_len (link_frame bufs) = map (int \<circ> snd) bufs"
      "map rx_data (link_frame bufs) = map fst bufs" using snoc by (auto simp: b)
    have "\<forall>q \<in> set (link_frame bufs). 0 \<le> rx_len q"
    proof
      fix q assume "q \<in> set (link_frame bufs)"
      then have "rx_len q \<in> set (map (int \<circ> snd) bufs)" unfolding ih(2) [symmetric] by simp
      then show "0 \<le> rx_len q" by auto
    qed
    moreover have "sum_list (map rx_len (link_frame bufs)) = int (sum_list (map snd bufs))"
      unfolding ih(2) by (induction bufs) simp_all
    ultimately show ?case
      using link_callback [OF ih(1), of "int n" buff] snoc.prems ih(2,3)
      by (simp add: b link_frame_snoc)
  qed
  then show "totals_ok (link_frame bufs)" "map rx_len (link_frame bufs) = map (int \<circ> snd) bufs"
    "map rx_data (link_frame bufs) = map fst bufs" by blast+
qed

lemma totals_ok_hd: "totals_ok ch \<Longrightarrow> ch \<noteq> [] \<Longrightarrow> rx_tot (hd ch) = sum_list (map rx_len ch)"
  by (cases ch) simp_all

lemma link_frame_chain:
  assumes "sum_list (map snd bufs) < 65536"
  shows "chain (as_pbuf k (link_frame bufs)) = map (\<lambda>(buff, n). take n buff) bufs"
proof -
  have len: "length (link_frame bufs) = length bufs"
    using arg_cong [OF link_frame_totals(2) [OF assms], of length] by simp
  show ?thesis
  proof (rule nth_equalityI)
    fix i assume "i < length (chain (as_pbuf k (link_frame bufs)))"
    then have i: "i < length bufs" using len by (simp add: as_pbuf_def)
    have "rx_len (link_frame bufs ! i) = int (snd (bufs ! i))" "rx_data (link_frame bufs ! i) = fst (bufs ! i)"
      using arg_cong [OF link_frame_totals(2) [OF assms], of "\<lambda>xs. xs ! i"]
        arg_cong [OF link_frame_totals(3) [OF assms], of "\<lambda>xs. xs ! i"] i len by simp_all
    then show "chain (as_pbuf k (link_frame bufs)) ! i = map (\<lambda>(buff, n). take n buff) bufs ! i"
      using i len by (simp add: as_pbuf_def split_beta)
  qed (simp add: as_pbuf_def len)
qed

lemma sum_list_int_snd: "nat (sum_list (map (int \<circ> snd) bufs)) = sum_list (map snd bufs)"
proof -
  have "sum_list (map (int \<circ> snd) bufs) = int (sum_list (map snd bufs))" by (induction bufs) simp_all
  then show ?thesis by simp
qed

section \<open>The receive pool\<close>

text \<open>
  \<open>RX_POOL\<close> as the list of its free buffers and the set of those handed out; \<open>RxAllocStatus\<close> and
  the binary semaphore the input thread waits on.
\<close>

record rx_pool =
  pool_free :: "nat list"
  pool_used :: "nat set"
  RxAllocStatus :: bool
  RxPktSemaphore :: bool

definition ETH_RX_BUFFER_CNT :: nat where "ETH_RX_BUFFER_CNT = 10"

definition pool_init :: rx_pool where
  "pool_init = \<lparr>pool_free = [0..<ETH_RX_BUFFER_CNT], pool_used = {}, RxAllocStatus = False, RxPktSemaphore = False\<rparr>"

definition HAL_ETH_RxAllocateCallback :: "rx_pool \<Rightarrow> nat option \<times> rx_pool" where
  "HAL_ETH_RxAllocateCallback s =
     (case pool_free s of
        b # bs \<Rightarrow> (Some b, s\<lparr>pool_free := bs, pool_used := insert b (pool_used s)\<rparr>)
      | [] \<Rightarrow> (None, s\<lparr>RxAllocStatus := True\<rparr>))"

definition pbuf_free_custom :: "nat \<Rightarrow> rx_pool \<Rightarrow> rx_pool" where
  "pbuf_free_custom b s =
     (let s = s\<lparr>pool_free := b # pool_free s, pool_used := pool_used s - {b}\<rparr>
      in if RxAllocStatus s then s\<lparr>RxAllocStatus := False, RxPktSemaphore := True\<rparr> else s)"

definition HAL_ETH_RxCpltCallback :: "rx_pool \<Rightarrow> rx_pool" where
  "HAL_ETH_RxCpltCallback s = s\<lparr>RxPktSemaphore := True\<rparr>"

text \<open>\<open>HAL_ETH_ReadData\<close> is a parameter.\<close>

definition low_level_input :: "(rx_pool \<Rightarrow> 'p option \<times> rx_pool) \<Rightarrow> rx_pool \<Rightarrow> 'p option \<times> rx_pool" where
  "low_level_input ReadData s = (if \<not> RxAllocStatus s then ReadData s else (None, s))"

text \<open>What can happen to the pool: the HAL asks for buffers, the stack frees them, frames arrive, the thread wakes.\<close>

inductive rx_step :: "rx_pool \<Rightarrow> rx_pool \<Rightarrow> bool" where
  rx_alloc: "rx_step s (snd (HAL_ETH_RxAllocateCallback s))"
| rx_free: "b \<in> pool_used s \<Longrightarrow> rx_step s (pbuf_free_custom b s)"
| rx_complete: "rx_step s (HAL_ETH_RxCpltCallback s)"
| rx_wake: "RxPktSemaphore s \<Longrightarrow> rx_step s (s\<lparr>RxPktSemaphore := False\<rparr>)"

inductive_cases rx_stepE: "rx_step s s'"

definition pool_ok :: "rx_pool \<Rightarrow> bool" where
  "pool_ok s \<longleftrightarrow> distinct (pool_free s) \<and> set (pool_free s) \<inter> pool_used s = {} \<and>
     set (pool_free s) \<union> pool_used s = {0..<ETH_RX_BUFFER_CNT} \<and> (RxAllocStatus s \<longrightarrow> pool_free s = [])"

lemma pool_init_ok: "pool_ok pool_init"
  by (auto simp: pool_ok_def pool_init_def)

lemma rx_step_ok: "rx_step s s' \<Longrightarrow> pool_ok s \<Longrightarrow> pool_ok s'"
proof (induction rule: rx_step.induct)
  case (rx_alloc s)
  then show ?case by (cases "pool_free s") (auto simp: HAL_ETH_RxAllocateCallback_def pool_ok_def)
next
  case (rx_free b s)
  then show ?case by (auto simp: pbuf_free_custom_def pool_ok_def Let_def)
qed (auto simp: pool_ok_def HAL_ETH_RxCpltCallback_def)

lemma rx_steps_ok: "rx_step\<^sup>*\<^sup>* pool_init s \<Longrightarrow> pool_ok s"
  by (induction rule: rtranclp_induct) (auto intro: pool_init_ok rx_step_ok)

text \<open>What can happen while the stack keeps all its buffers.\<close>

inductive rx_hold :: "rx_pool \<Rightarrow> rx_pool \<Rightarrow> bool" where
  hold_alloc: "rx_hold s (snd (HAL_ETH_RxAllocateCallback s))"
| hold_complete: "rx_hold s (HAL_ETH_RxCpltCallback s)"
| hold_wake: "RxPktSemaphore s \<Longrightarrow> rx_hold s (s\<lparr>RxPktSemaphore := False\<rparr>)"

lemma rx_hold_step: "rx_hold s s' \<Longrightarrow> rx_step s s'"
  by (induction rule: rx_hold.induct) (auto intro: rx_step.intros)

lemma rx_hold_suspended: "rx_hold s s' \<Longrightarrow> RxAllocStatus s \<Longrightarrow> RxAllocStatus s'"
  by (induction rule: rx_hold.induct)
    (auto simp: HAL_ETH_RxAllocateCallback_def HAL_ETH_RxCpltCallback_def split: list.split)

lemma rx_holds_suspended: "rx_hold\<^sup>*\<^sup>* s s' \<Longrightarrow> RxAllocStatus s \<Longrightarrow> RxAllocStatus s'"
  by (induction rule: rtranclp_induct) (auto intro: rx_hold_suspended)

lemma alloc_fails:
  "fst (HAL_ETH_RxAllocateCallback s) = None \<longleftrightarrow> pool_free s = []"
  "pool_free s = [] \<Longrightarrow> RxAllocStatus (snd (HAL_ETH_RxAllocateCallback s))"
  by (simp_all add: HAL_ETH_RxAllocateCallback_def split: list.split)

section \<open>Transmission\<close>

text \<open>
  What \<open>HAL_ETH_Transmit_IT\<close> and \<open>HAL_ETH_GetError\<close> answer at the \<open>k\<close>-th attempt is a parameter.
  \<open>ref\<close> is the reference count of the packet; \<open>None\<close> is a loop that never ends.
\<close>

datatype tx_answer = TX_OK | TX_BUSY | TX_ERROR

datatype err_t = ERR_OK | ERR_IF

partial_function (option) tx_loop :: "(nat \<Rightarrow> tx_answer) \<Rightarrow> nat \<Rightarrow> int \<Rightarrow> (err_t \<times> nat \<times> int) option" where
  "tx_loop hal k ref =
     (case hal k of
        TX_OK \<Rightarrow> Some (ERR_OK, Suc k, ref)
      | TX_BUSY \<Rightarrow> tx_loop hal (Suc k) ref
      | TX_ERROR \<Rightarrow> Some (ERR_IF, Suc k, ref - 1))"

text \<open>\<open>ETH_TX_DESC_CNT\<close> belongs to the HAL.\<close>

definition low_level_output :: "nat \<Rightarrow> (nat \<Rightarrow> tx_answer) \<Rightarrow> octet list list \<Rightarrow> nat \<Rightarrow> int \<Rightarrow>
    (err_t \<times> nat \<times> int) option" where
  "low_level_output ETH_TX_DESC_CNT hal segments k ref =
     (if length segments > ETH_TX_DESC_CNT then Some (ERR_IF, k, ref) else tx_loop hal k (ref + 1))"

definition HAL_ETH_TxFreeCallback :: "int \<Rightarrow> int" where
  "HAL_ETH_TxFreeCallback ref = ref - 1"

lemma tx_loop_busy: "(\<forall>i < n. hal (k + i) = TX_BUSY) \<Longrightarrow> tx_loop hal k ref = tx_loop hal (k + n) ref"
proof (induction n)
  case (Suc n)
  then have "tx_loop hal k ref = tx_loop hal (k + n) ref" by simp
  also have "\<dots> = tx_loop hal (Suc (k + n)) ref" using Suc.prems by (subst tx_loop.simps) simp
  finally show ?case by simp
qed simp

lemma tx_loop_returns:
  assumes "hal (k + n) \<noteq> TX_BUSY" "\<forall>i < n. hal (k + i) = TX_BUSY"
  shows "tx_loop hal k ref = Some (if hal (k + n) = TX_OK then (ERR_OK, Suc (k + n), ref)
    else (ERR_IF, Suc (k + n), ref - 1))"
  using assms(1) tx_loop_busy [OF assms(2)] by (subst (asm) tx_loop.simps [of hal "k + n"])
    (cases "hal (k + n)"; simp)

lemma tx_loop_some:
  assumes "tx_loop hal k ref = Some r"
  shows "\<exists>n. hal (k + n) \<noteq> TX_BUSY"
proof (rule tx_loop.raw_induct [where P = "\<lambda>hal k ref r. \<exists>n. hal (k + n) \<noteq> TX_BUSY", OF _ assms])
  fix f :: "(nat \<Rightarrow> tx_answer) \<Rightarrow> nat \<Rightarrow> int \<Rightarrow> (err_t \<times> nat \<times> int) option" and hal k ref r
  assume ih: "\<And>hal k ref r. f hal k ref = Some r \<Longrightarrow> \<exists>n. hal (k + n) \<noteq> TX_BUSY"
    and s: "(case hal k of TX_OK \<Rightarrow> Some (ERR_OK, Suc k, ref) | TX_BUSY \<Rightarrow> f hal (Suc k) ref
      | TX_ERROR \<Rightarrow> Some (ERR_IF, Suc k, ref - 1)) = Some r"
  show "\<exists>n. hal (k + n) \<noteq> TX_BUSY"
  proof (cases "hal k")
    case TX_BUSY
    then have "\<exists>n. hal (Suc k + n) \<noteq> TX_BUSY" using ih [of hal "Suc k" ref r] s by simp
    then show ?thesis by (metis add_Suc_shift)
  qed (auto intro: exI [of _ 0])
qed

section \<open>Properties\<close>

text \<open>
  C36 (invariant).  The chain the receive callback builds from the buffers of a frame is a packet buffer as the
  network path expects it: its total length is that of its segments, none of which is empty, and
  its bytes are the bytes received, in order.
\<close>

theorem received_frame_is_wf:
  assumes "bufs \<noteq> []" "sum_list (map snd bufs) < 65536"
    and "\<forall>(buff, n) \<in> set bufs. 0 < n \<and> n \<le> length buff"
  shows "wf_pbuf (as_pbuf k (link_frame bufs)) \<and>
    concat (chain (as_pbuf k (link_frame bufs))) = concat (map (\<lambda>(buff, n). take n buff) bufs)"
proof -
  note l = link_frame_totals [OF assms(2)] and c = link_frame_chain [OF assms(2), of k]
  have "link_frame bufs \<noteq> []" using assms(1) l(3) by (metis map_is_Nil_conv)
  from totals_ok_hd [OF l(1) this]
  have t: "tot_len (as_pbuf k (link_frame bufs)) = sum_list (map snd bufs)"
    unfolding as_pbuf_def l(2) by (simp add: sum_list_int_snd)
  have "length (concat (map (\<lambda>(buff, n). take n buff) bufs)) = sum_list (map snd bufs)"
    using assms(3) by (induction bufs) auto
  moreover have "[] \<notin> set (map (\<lambda>(buff, n). take n buff) bufs)"
    using assms(3) by fastforce
  ultimately show ?thesis by (simp add: wf_pbuf_def c t)
qed

theorem received_frame_is_wf_witness:
  "wf_pbuf (as_pbuf 3 (link_frame [([1, 2, 3], 3), ([4, 5, 0], 2)]))"
  by (rule conjunct1 [OF received_frame_is_wf]) simp_all

text \<open>
  C37 (safety).  No wake-up is lost when the receive pool runs dry.  At every moment each buffer is either free or in
  use, and reception is suspended only while no buffer is free.  An allocation fails exactly when no buffer is free;
  from then on, whatever frames, wake-ups and further allocations come, the input thread reads nothing, until the
  stack frees a buffer: the first one it frees gives the semaphore the thread waits on, and the thread reads again.
\<close>

theorem pool_wakes_input_thread:
  assumes "rx_step\<^sup>*\<^sup>* pool_init s"
  shows "card (pool_used s) + length (pool_free s) = ETH_RX_BUFFER_CNT \<and>
    (RxAllocStatus s \<longrightarrow> pool_free s = []) \<and>
    (fst (HAL_ETH_RxAllocateCallback s) = None \<longleftrightarrow> pool_free s = []) \<and>
    (pool_free s = [] \<longrightarrow> rx_hold\<^sup>*\<^sup>* (snd (HAL_ETH_RxAllocateCallback s)) t \<longrightarrow> b \<in> pool_used t \<longrightarrow>
      low_level_input ReadData t = (None, t) \<and>
      RxPktSemaphore (pbuf_free_custom b t) \<and>
      low_level_input ReadData (pbuf_free_custom b t) = ReadData (pbuf_free_custom b t))"
proof -
  have ok: "pool_ok s" by (rule rx_steps_ok [OF assms])
  then have f: "finite (pool_used s)" unfolding pool_ok_def by (metis finite_Un finite_atLeastLessThan)
  have "card (set (pool_free s)) + card (pool_used s) = card (set (pool_free s) \<union> pool_used s)"
    using card_Un_disjoint [of "set (pool_free s)" "pool_used s"] f ok by (simp add: pool_ok_def)
  then have c: "card (pool_used s) + length (pool_free s) = ETH_RX_BUFFER_CNT"
    using ok by (simp add: pool_ok_def distinct_card)
  have "RxAllocStatus t" if "pool_free s = []" "rx_hold\<^sup>*\<^sup>* (snd (HAL_ETH_RxAllocateCallback s)) t"
    by (rule rx_holds_suspended [OF that(2) alloc_fails(2) [OF that(1)]])
  then show ?thesis
    using ok c alloc_fails(1) [of s] by (auto simp: pool_ok_def low_level_input_def pbuf_free_custom_def Let_def)
qed

lemma handed_out:
  "n \<le> ETH_RX_BUFFER_CNT \<Longrightarrow> ((\<lambda>s. snd (HAL_ETH_RxAllocateCallback s)) ^^ n) pool_init =
    pool_init\<lparr>pool_free := [n..<ETH_RX_BUFFER_CNT], pool_used := {0..<n}\<rparr>"
proof (induction n)
  case (Suc n)
  then have "[n..<ETH_RX_BUFFER_CNT] = n # [Suc n..<ETH_RX_BUFFER_CNT]" by (simp add: upt_conv_Cons)
  moreover have "insert n {0..<n} = {0..<Suc n}" by auto
  ultimately show ?case using Suc by (simp add: HAL_ETH_RxAllocateCallback_def)
qed (simp add: pool_init_def)

text \<open>Ten buffers handed out, an eleventh refused, a frame lost, a wake-up in vain, a buffer freed.\<close>

theorem pool_wakes_input_thread_witness:
  "let s = ((\<lambda>s. snd (HAL_ETH_RxAllocateCallback s)) ^^ 10) pool_init;
       t = (HAL_ETH_RxCpltCallback (snd (HAL_ETH_RxAllocateCallback s)))\<lparr>RxPktSemaphore := False\<rparr>
   in pool_free s = [] \<and> \<not> RxPktSemaphore t \<and> RxPktSemaphore (pbuf_free_custom 4 t)"
proof -
  define s where "s = ((\<lambda>s. snd (HAL_ETH_RxAllocateCallback s)) ^^ 10) pool_init"
  define c where "c = HAL_ETH_RxCpltCallback (snd (HAL_ETH_RxAllocateCallback s))"
  have "rx_step\<^sup>*\<^sup>* pool_init (((\<lambda>s. snd (HAL_ETH_RxAllocateCallback s)) ^^ n) pool_init)" for n
    by (induction n) (auto intro: rtranclp.rtrancl_into_rtrancl rx_alloc)
  then have r: "rx_step\<^sup>*\<^sup>* pool_init s" unfolding s_def by blast
  have e: "pool_free s = []" "4 \<in> pool_used s"
    using handed_out [of 10] by (simp_all add: s_def ETH_RX_BUFFER_CNT_def)
  have "rx_hold c (c\<lparr>RxPktSemaphore := False\<rparr>)"
    by (rule hold_wake) (simp add: c_def HAL_ETH_RxCpltCallback_def)
  then have "rx_hold\<^sup>*\<^sup>* (snd (HAL_ETH_RxAllocateCallback s)) (c\<lparr>RxPktSemaphore := False\<rparr>)"
    unfolding c_def by (blast intro: hold_complete rtranclp.rtrancl_into_rtrancl)
  moreover have "4 \<in> pool_used (c\<lparr>RxPktSemaphore := False\<rparr>)"
    using e by (simp add: c_def HAL_ETH_RxCpltCallback_def HAL_ETH_RxAllocateCallback_def)
  ultimately have "RxPktSemaphore (pbuf_free_custom 4 (c\<lparr>RxPktSemaphore := False\<rparr>))"
    using pool_wakes_input_thread [OF r] e(1) by blast
  then show ?thesis using e(1) by (simp add: Let_def c_def s_def [symmetric])
qed

text \<open>
  \<open>low_level_output\<close> returns exactly if some attempt is answered with something else than
  busy, or the packet has more segments than there are descriptors; the packet's reference
  count grows by the one the HAL releases later if it was queued, and is unchanged if not.
\<close>

theorem transmit_returns:
  "(low_level_output cnt hal segments k ref \<noteq> None \<longleftrightarrow>
      length segments > cnt \<or> (\<exists>n. hal (k + n) \<noteq> TX_BUSY)) \<and>
   (low_level_output cnt hal segments k ref = Some (e, k', ref') \<longrightarrow>
      (e = ERR_OK \<longrightarrow> HAL_ETH_TxFreeCallback ref' = ref) \<and> (e = ERR_IF \<longrightarrow> ref' = ref))"
proof (cases "\<exists>n. hal (k + n) \<noteq> TX_BUSY")
  case True
  define n where "n = (LEAST n. hal (k + n) \<noteq> TX_BUSY)"
  have "hal (k + n) \<noteq> TX_BUSY" "\<forall>i < n. hal (k + i) = TX_BUSY"
    using LeastI_ex [OF True] not_less_Least unfolding n_def by blast+
  from tx_loop_returns [OF this] show ?thesis
    using True by (auto simp: low_level_output_def HAL_ETH_TxFreeCallback_def)
next
  case False
  then have "tx_loop hal k r = None" for r using tx_loop_some [of hal k r] by (cases "tx_loop hal k r") auto
  then show ?thesis using False by (simp add: low_level_output_def)
qed

text \<open>Two busy answers, then success.\<close>

theorem transmit_returns_witness:
  "low_level_output 4 (\<lambda>i. if i < 2 then TX_BUSY else TX_OK) [[1], [2]] 0 1 \<noteq> None"
  using transmit_returns [of 4 "\<lambda>i. if i < 2 then TX_BUSY else TX_OK" "[[1], [2]]" 0 1]
  by (auto intro: exI [of _ 2])

end
