(* ===== verification/TxStamp.thy ===== *)
theory TxStamp
  imports Ethif EthFrames
begin

text \<open>
  The transmit time stamps of \<open>ethernetif.c\<close>: the binary semaphore \<open>TxPktSemaphore\<close>, which the interrupt
  of every completed frame gives, and \<open>ethernetif_ptp_get_tx_timestamp\<close>, which \<open>netSend\<close> calls right
  after it has queued an event message.  The state \<open>'d\<close> of the HAL handle and the two HAL operations
  on it are parameters.
\<close>

record 'd tx_hal =
  ReleaseTxPacket :: "'d \<Rightarrow> 'd"                    \<comment> \<open>\<open>HAL_ETH_ReleaseTxPacket\<close>\<close>
  TxTimestamp :: "'d \<Rightarrow> 32 word \<times> 32 word"         \<comment> \<open>the words high and low of \<open>EthHandle.TxTimestamp\<close>\<close>

record 'd tx_driver =
  TxPktSemaphore :: bool
  EthHandle :: 'd

definition HAL_ETH_TxCpltCallback :: "'d tx_driver \<Rightarrow> 'd tx_driver" where
  "HAL_ETH_TxCpltCallback s = s\<lparr>TxPktSemaphore := True\<rparr>"

text \<open>
  What the hardware does meanwhile: it works on (\<open>Progress\<close>), or it completes a frame and raises the
  interrupt (\<open>Complete\<close>).
\<close>

datatype 'd tx_event = Progress "'d \<Rightarrow> 'd" | Complete "'d \<Rightarrow> 'd"

primrec tx_happens :: "'d tx_event \<Rightarrow> 'd tx_driver \<Rightarrow> 'd tx_driver" where
  "tx_happens (Progress f) s = s\<lparr>EthHandle := f (EthHandle s)\<rparr>"
| "tx_happens (Complete f) s = HAL_ETH_TxCpltCallback (s\<lparr>EthHandle := f (EthHandle s)\<rparr>)"

text \<open>
  The RTOS call \<open>osSemaphoreWait\<close> on a binary semaphore, with a time limit: \<open>evs\<close> are the events that come before the limit.  Neither caller
  looks at the result, so a wait in vain goes on like any other.
\<close>

fun osSemaphoreWait :: "'d tx_event list \<Rightarrow> 'd tx_driver \<Rightarrow> 'd tx_driver" where
  "osSemaphoreWait evs s =
     (if TxPktSemaphore s then s\<lparr>TxPktSemaphore := False\<rparr>
      else case evs of
             [] \<Rightarrow> s
           | e # evs \<Rightarrow> osSemaphoreWait evs (tx_happens e s))"

declare osSemaphoreWait.simps [simp del]

definition ethernetif_ptp_get_tx_timestamp ::
  "'d tx_hal \<Rightarrow> 'd tx_event list \<Rightarrow> 'd tx_driver \<Rightarrow> TimeInternal \<times> 'd tx_driver" where
  "ethernetif_ptp_get_tx_timestamp hal evs s =
     (let s = osSemaphoreWait evs s;
          s = s\<lparr>EthHandle := ReleaseTxPacket hal (EthHandle s)\<rparr>;
          (high, low) = TxTimestamp hal (EthHandle s)
      in (stamp_time high low, s))"

text \<open>The time stamp the handle reports in a state.\<close>

definition reported :: "'d tx_hal \<Rightarrow> 'd \<Rightarrow> TimeInternal" where
  "reported hal d = (let (high, low) = TxTimestamp hal (ReleaseTxPacket hal d) in stamp_time high low)"

text \<open>The hardware works for a while, then a frame is queued.\<close>

definition sent_after :: "'d tx_event list \<Rightarrow> ('d \<Rightarrow> 'd) \<Rightarrow> 'd tx_driver \<Rightarrow> 'd tx_driver" where
  "sent_after work queue s =
     (let s = fold tx_happens work s in s\<lparr>EthHandle := queue (EthHandle s)\<rparr>)"

section \<open>Lemmas\<close>

text \<open>The state of the handle after the first completion, or after all events if there is none.\<close>

fun first_completion :: "'d tx_event list \<Rightarrow> 'd \<Rightarrow> 'd" where
  "first_completion [] d = d"
| "first_completion (Progress f # evs) d = first_completion evs (f d)"
| "first_completion (Complete f # evs) d = f d"

lemma wait_given: "TxPktSemaphore s \<Longrightarrow> osSemaphoreWait evs s = s\<lparr>TxPktSemaphore := False\<rparr>"
  by (simp add: osSemaphoreWait.simps)

lemma wait_takes: "\<not> TxPktSemaphore (osSemaphoreWait evs s)"
  by (induction evs s rule: osSemaphoreWait.induct)
    (subst osSemaphoreWait.simps, auto split: list.split)

lemma wait_not_given:
  "\<not> TxPktSemaphore s \<Longrightarrow> EthHandle (osSemaphoreWait evs s) = first_completion evs (EthHandle s)"
proof (induction evs "EthHandle s" arbitrary: s rule: first_completion.induct)
  case 1
  then show ?case by (simp add: osSemaphoreWait.simps)
next
  case (2 f evs)
  then show ?case by (subst osSemaphoreWait.simps) simp
next
  case (3 f evs)
  then show ?case by (subst osSemaphoreWait.simps) (simp add: wait_given HAL_ETH_TxCpltCallback_def)
qed

lemma get_tx_timestamp_eq:
  "fst (ethernetif_ptp_get_tx_timestamp hal evs s) =
     reported hal (if TxPktSemaphore s then EthHandle s else first_completion evs (EthHandle s))"
  by (simp add: ethernetif_ptp_get_tx_timestamp_def reported_def Let_def split_beta wait_given wait_not_given)

text \<open>Events give the semaphore but never take it.\<close>

lemma events_keep_given: "TxPktSemaphore s \<Longrightarrow> TxPktSemaphore (fold tx_happens evs s)"
proof (induction evs arbitrary: s)
  case (Cons e evs)
  then show ?case by (cases e) (simp_all add: HAL_ETH_TxCpltCallback_def)
qed simp

lemma progress_reported:
  assumes "\<forall>e \<in> set evs. \<exists>f. e = Progress f \<and> (\<forall>d. reported hal (f d) = reported hal d)"
  shows "reported hal (EthHandle (fold tx_happens evs s)) = reported hal (EthHandle s)"
  using assms
proof (induction evs arbitrary: s)
  case (Cons e evs)
  then obtain f where "e = Progress f" "\<forall>d. reported hal (f d) = reported hal d" by auto
  then show ?case using Cons by simp
qed simp

section \<open>Properties\<close>

text \<open>
  C34 (safety).  A general message that was completed before leaves the semaphore given, since nobody waits for it.
  The time stamp read for the next event message is then that of the earlier frame, whatever the
  hardware does later: the call does not wait.  Only when the semaphore was not given does it
  return the stamp of the first frame completed during the wait.  The hypothesis on the HAL is
  that queueing a frame, and the work before its completion, leave the stamp last reported.
\<close>

theorem transmit_stamp_may_be_stale:
  assumes "\<forall>e \<in> set work. \<exists>f. e = Progress f \<and> (\<forall>d. reported hal (f d) = reported hal d)"
    and "\<forall>d. reported hal (queue d) = reported hal d"
  shows "fst (ethernetif_ptp_get_tx_timestamp hal evs (sent_after work queue (tx_happens (Complete general) s))) =
      reported hal (general (EthHandle s)) \<and>
    (\<not> TxPktSemaphore s \<longrightarrow> fst (ethernetif_ptp_get_tx_timestamp hal (Complete event # evs) s) =
      reported hal (event (EthHandle s))) \<and>
    \<not> TxPktSemaphore (snd (ethernetif_ptp_get_tx_timestamp hal evs s))"
proof -
  let ?s = "tx_happens (Complete general) s"
  have "TxPktSemaphore (sent_after work queue ?s)"
    unfolding sent_after_def Let_def using events_keep_given [of ?s work] by (simp add: HAL_ETH_TxCpltCallback_def)
  moreover have "reported hal (EthHandle (sent_after work queue ?s)) = reported hal (general (EthHandle s))"
    using progress_reported [OF assms(1), of ?s] assms(2) by (simp add: sent_after_def Let_def HAL_ETH_TxCpltCallback_def)
  moreover have "\<not> TxPktSemaphore (snd (ethernetif_ptp_get_tx_timestamp hal evs s))"
    by (simp add: ethernetif_ptp_get_tx_timestamp_def Let_def split_beta wait_takes)
  ultimately show ?thesis by (simp add: get_tx_timestamp_eq)
qed

text \<open>
  A device that is the list of the seconds at which its frames were completed: an Announce at second
  7, then a Sync that is completed at second 8; the stamp read for the Sync is 7.
\<close>

definition list_hal :: "int list tx_hal" where
  "list_hal = \<lparr>ReleaseTxPacket = (\<lambda>d. d), TxTimestamp = (\<lambda>d. (word_of_int (last d), 0))\<rparr>"

theorem transmit_stamp_may_be_stale_witness:
  "seconds (fst (ethernetif_ptp_get_tx_timestamp list_hal [Complete (\<lambda>d. d @ [8])]
     (tx_happens (Complete (\<lambda>d. d @ [7])) \<lparr>TxPktSemaphore = False, EthHandle = []\<rparr>))) = 7"
  using transmit_stamp_may_be_stale [of "[]" list_hal "\<lambda>d. d" "[Complete (\<lambda>d. d @ [8])]" "\<lambda>d. d @ [7]"
      "\<lparr>TxPktSemaphore = False, EthHandle = []\<rparr>"]
  by (simp add: sent_after_def reported_def list_hal_def stamp_time_def HAL_ETH_TxCpltCallback_def)

end
