(* ===== verification/Uart.thy ===== *)
theory Uart
  imports Datatypes
begin

text \<open>
  The console's UART driver \<open>stm32f7xx_uart.c\<close> in the configuration of the Makefile (message queues):
  the interrupt handler, \<open>UART_Write\<close>, whose bytes the interrupt takes off a queue while it is
  still putting others on, and \<open>UART_Read\<close>.  The queues hold \<open>UART_QUEUE_SIZE\<close> bytes; the bytes
  written to the transmit register are logged.
\<close>

definition UART_QUEUE_SIZE :: nat where "UART_QUEUE_SIZE = 256"

record uart =
  uartRxQueue :: "octet list"
  uartTxQueue :: "octet list"
  TXEIE :: bool                 \<comment> \<open>transmit interrupt enabled\<close>
  RXNEIE :: bool                \<comment> \<open>receive interrupt enabled\<close>
  TDR :: "octet list"           \<comment> \<open>bytes written to the transmit register, newest last\<close>

section \<open>The interrupt handler\<close>

text \<open>The status flags of one interrupt: an error, a received byte, an empty transmit register.\<close>

record isr_flags =
  isr_error :: bool
  isr_RXNE :: bool
  isr_TXE :: bool
  isr_RDR :: octet

text \<open>
  A full receive queue ends the handler early; an empty transmit queue yields the value 0, which is
  written to the transmit register as well.
\<close>

definition usartHandler :: "isr_flags \<Rightarrow> uart \<Rightarrow> uart" where
  "usartHandler f u =
     (if isr_error f then u
      else if isr_RXNE f \<and> RXNEIE u \<and> length (uartRxQueue u) \<ge> UART_QUEUE_SIZE then u
      else
      let u = (if isr_RXNE f \<and> RXNEIE u then u\<lparr>uartRxQueue := uartRxQueue u @ [isr_RDR f]\<rparr> else u)
      in if isr_TXE f \<and> TXEIE u then
           (case uartTxQueue u of
              [] \<Rightarrow> u\<lparr>TXEIE := False, TDR := TDR u @ [0]\<rparr>
            | b # bs \<Rightarrow> u\<lparr>uartTxQueue := bs, TDR := TDR u @ [b]\<rparr>)
         else u)"

section \<open>Writing and reading\<close>

definition UART_Available :: "uart \<Rightarrow> nat" where
  "UART_Available u = length (uartRxQueue u)"

text \<open>The state of a call of \<open>UART_Write\<close>: the bytes still to be queued, or the value returned.\<close>

datatype writer = Writing "octet list" | Returned nat

text \<open>
  \<open>osMessagePut\<close> waits up to \<open>UART_UART1_TIMEOUT\<close> ms for room; it fails if none appeared.  Interrupts come
  at any time.
\<close>

inductive uart_step :: "nat \<Rightarrow> writer \<times> uart \<Rightarrow> writer \<times> uart \<Rightarrow> bool" for len where
  write_put: "length (uartTxQueue u) < UART_QUEUE_SIZE \<Longrightarrow>
    uart_step len (Writing (b # bs), u) (Writing bs, u\<lparr>uartTxQueue := uartTxQueue u @ [b]\<rparr>)"
| write_timeout: "length (uartTxQueue u) \<ge> UART_QUEUE_SIZE \<Longrightarrow>
    uart_step len (Writing (b # bs), u) (Returned 0, u)"
| write_end: "uart_step len (Writing [], u) (Returned len, u\<lparr>TXEIE := True\<rparr>)"
| interrupt: "uart_step len (c, u) (c, usartHandler f u)"

inductive_cases uart_stepE: "uart_step len (c, u) (c', u')"

inductive_simps uart_returned: "uart_step len (Returned n, u) cu"

text \<open>\<open>UART_Read\<close> spins until a byte is there: \<open>None\<close> if fewer bytes than asked for ever arrive.\<close>

fun UART_Read :: "nat \<Rightarrow> uart \<Rightarrow> (octet list \<times> uart) option" where
  "UART_Read 0 u = Some ([], u)"
| "UART_Read (Suc n) u =
     (case uartRxQueue u of
        [] \<Rightarrow> None
      | b # bs \<Rightarrow> map_option (\<lambda>(data, u). (b # data, u)) (UART_Read n (u\<lparr>uartRxQueue := bs\<rparr>)))"

section \<open>Lemmas\<close>

lemma UART_Read_eq:
  "UART_Read n u = (if n \<le> UART_Available u
     then Some (take n (uartRxQueue u), u\<lparr>uartRxQueue := drop n (uartRxQueue u)\<rparr>) else None)"
  by (induction n u rule: UART_Read.induct) (auto simp: UART_Available_def split: list.split)

text \<open>Interrupts with an empty transmit register, one after the other.\<close>

definition txe :: isr_flags where
  "txe = \<lparr>isr_error = False, isr_RXNE = False, isr_TXE = True, isr_RDR = 0\<rparr>"

lemma handler_txe:
  "TXEIE u \<Longrightarrow> usartHandler txe u = (case uartTxQueue u of
     [] \<Rightarrow> u\<lparr>TXEIE := False, TDR := TDR u @ [0]\<rparr>
   | b # bs \<Rightarrow> u\<lparr>uartTxQueue := bs, TDR := TDR u @ [b]\<rparr>)"
  by (simp add: usartHandler_def txe_def Let_def)

lemma handler_drains:
  assumes "TXEIE u" "uartTxQueue u = bs"
  shows "(usartHandler txe ^^ Suc (length bs)) u = u\<lparr>uartTxQueue := [], TXEIE := False, TDR := TDR u @ bs @ [0]\<rparr>"
  using assms
proof (induction bs arbitrary: u)
  case Nil
  then show ?case by (simp add: handler_txe)
next
  case (Cons b bs)
  let ?u = "u\<lparr>uartTxQueue := bs, TDR := TDR u @ [b]\<rparr>"
  have "(usartHandler txe ^^ Suc (length (b # bs))) u = (usartHandler txe ^^ Suc (length bs)) (usartHandler txe u)"
    by (simp only: length_Cons funpow_Suc_right comp_apply)
  also have "usartHandler txe u = ?u" using Cons.prems by (simp add: handler_txe)
  also have "(usartHandler txe ^^ Suc (length bs)) ?u = ?u\<lparr>uartTxQueue := [], TXEIE := False, TDR := TDR ?u @ bs @ [0]\<rparr>"
    by (rule Cons.IH) (use Cons.prems in simp_all)
  finally show ?case by simp
qed

text \<open>While the transmit interrupt is off the handler touches neither the queue nor the register.\<close>

lemma handler_off:
  assumes "\<not> TXEIE u"
  shows "\<not> TXEIE (usartHandler f u)" "uartTxQueue (usartHandler f u) = uartTxQueue u" "TDR (usartHandler f u) = TDR u"
  using assms by (auto simp: usartHandler_def Let_def)

text \<open>A write that does not fit the queue, started with the interrupt off.\<close>

definition stuck :: "octet list \<Rightarrow> writer \<times> uart \<Rightarrow> bool" where
  "stuck out cu \<longleftrightarrow> \<not> TXEIE (snd cu) \<and> TDR (snd cu) = out \<and> length (uartTxQueue (snd cu)) \<le> UART_QUEUE_SIZE \<and>
     (case fst cu of
        Writing todo \<Rightarrow> length (uartTxQueue (snd cu)) + length todo > UART_QUEUE_SIZE
      | Returned n \<Rightarrow> n = 0)"

lemma stuck_step: "uart_step len cu cu' \<Longrightarrow> stuck out cu \<Longrightarrow> stuck out cu'"
  by (induction rule: uart_step.induct) (auto simp: stuck_def handler_off split: writer.splits)

lemma stuck_steps: "(uart_step len)\<^sup>*\<^sup>* cu cu' \<Longrightarrow> stuck out cu \<Longrightarrow> stuck out cu'"
  by (induction rule: rtranclp_induct) (auto intro: stuck_step)

section \<open>Properties\<close>

text \<open>
  C39 (error).  A write of more bytes than the queue has room for, made while the transmit interrupt is off, as it is
  whenever the line is idle, never succeeds: nothing drains the queue before the last byte is
  in it, so the call can only return 0, and no byte of it is sent until a later write.
\<close>

theorem long_write_fails:
  assumes "\<not> TXEIE u" "length (uartTxQueue u) \<le> UART_QUEUE_SIZE"
    and "length (uartTxQueue u) + length data > UART_QUEUE_SIZE"
    and "(uart_step (length data))\<^sup>*\<^sup>* (Writing data, u) (c, u')"
  shows "\<not> TXEIE u' \<and> TDR u' = TDR u \<and> (c = Returned n \<longrightarrow> n = 0)"
proof -
  have "stuck (TDR u) (Writing data, u)" using assms(1-3) by (simp add: stuck_def)
  from stuck_steps [OF assms(4) this] show ?thesis by (auto simp: stuck_def)
qed

definition idle_uart :: uart where
  "idle_uart = \<lparr>uartRxQueue = [], uartTxQueue = replicate 256 65, TXEIE = False, RXNEIE = True, TDR = []\<rparr>"

theorem long_write_fails_witness:
  "(uart_step 1)\<^sup>*\<^sup>* (Writing [66], idle_uart) (Returned 0, idle_uart) \<and> TDR idle_uart = []"
proof -
  have s: "(uart_step (length [66 :: octet]))\<^sup>*\<^sup>* (Writing [66], idle_uart) (Returned 0, idle_uart)"
    by (rule r_into_rtranclp, rule write_timeout) (simp add: idle_uart_def UART_QUEUE_SIZE_def)
  with s show ?thesis
    using long_write_fails [OF _ _ _ s, of 0] by (simp add: idle_uart_def UART_QUEUE_SIZE_def)
qed

text \<open>
  Once enabled, the transmit interrupt sends the queued bytes in the order they were written,
  then one byte 0 that nobody wrote, and switches itself off.
\<close>

theorem transmit_drains_then_sends_zero:
  assumes "TXEIE u"
  shows "(usartHandler txe ^^ Suc (length (uartTxQueue u))) u =
    u\<lparr>uartTxQueue := [], TXEIE := False, TDR := TDR u @ uartTxQueue u @ [0]\<rparr>"
  by (rule handler_drains [OF assms refl])

theorem transmit_drains_then_sends_zero_witness:
  "TDR ((usartHandler txe ^^ 3) \<lparr>uartRxQueue = [], uartTxQueue = [104, 105], TXEIE = True, RXNEIE = True, TDR = []\<rparr>) =
     [104, 105, 0]"
  using transmit_drains_then_sends_zero
    [of "\<lparr>uartRxQueue = [], uartTxQueue = [104, 105], TXEIE = True, RXNEIE = True, TDR = []\<rparr>"]
  by (simp add: numeral_3_eq_3)

end
