(* ===== verification/Console.thy ===== *)
theory Console
  imports Uart "HOL-Library.Sublist"
begin

text \<open>
  Standard input and output: \<open>__io_putchar\<close> and \<open>__io_getchar\<close> of \<open>app.c\<close> on the UART driver, the system
  calls \<open>_write\<close>, \<open>_read\<close> and \<open>_sbrk\<close> of \<open>syscalls.c\<close> (here \<open>sys_write\<close> as a step relation,
  \<open>sys_read\<close>, \<open>sys_sbrk\<close>).
\<close>

section \<open>Output\<close>

text \<open>
  \<open>_write\<close> hands one byte after the other to \<open>__io_putchar\<close>, which calls \<open>UART_Write\<close> with that byte and
  does not look at the result.  The state holds the bytes still to come, the call of \<open>UART_Write\<close>
  that runs, the number of calls that returned 0, and the UART; interrupts come at any time.
\<close>

type_synonym stdout = "octet list \<times> writer \<times> nat \<times> uart"

inductive sys_write :: "stdout \<Rightarrow> stdout \<Rightarrow> bool" where
  putchar: "sys_write (b # todo, Returned n, lost, u) (todo, Writing [b], lost, u)"
| uart: "uart_step 1 (c, u) (c', u') \<Longrightarrow>
    sys_write (todo, c, lost, u) (todo, c', if c \<noteq> c' \<and> c' = Returned 0 then Suc lost else lost, u')"

inductive_cases sys_writeE: "sys_write s s'"

section \<open>Input\<close>

definition io_getchar :: "uart \<Rightarrow> (octet \<times> uart) option" where
  "io_getchar u = map_option (\<lambda>(data, u). (hd data, u)) (UART_Read 1 u)"

fun sys_read :: "nat \<Rightarrow> uart \<Rightarrow> (octet list \<times> uart) option" where
  "sys_read 0 u = Some ([], u)"
| "sys_read (Suc len) u =
     (case io_getchar u of
        None \<Rightarrow> None
      | Some (ch, u) \<Rightarrow> map_option (\<lambda>(data, u). (ch # data, u)) (sys_read len u))"

lemma sys_read_eq: "sys_read len u = UART_Read len u"
proof (induction len arbitrary: u)
  case (Suc len)
  then show ?case by (cases "uartRxQueue u") (simp_all add: io_getchar_def numeral_2_eq_2)
qed simp

section \<open>The heap\<close>

text \<open>
  Addresses are 32-bit words; \<open>min_stack_ptr\<close> is the limit of the stack, \<open>end\<close> the symbol the linker
  sets.  A heap end of 0 stands for the first call, as in the code.
\<close>

definition sys_sbrk :: "32 word \<Rightarrow> 32 word \<Rightarrow> 32 word \<Rightarrow> 32 word \<Rightarrow> 32 word \<times> 32 word" where
  "sys_sbrk end_addr min_stack_ptr incr heap_end =
     (let heap_end = (if heap_end = 0 then end_addr else heap_end);
          prev_heap_end = heap_end
      in if heap_end + incr > min_stack_ptr then (-1, heap_end)
         else (prev_heap_end, heap_end + incr))"

text \<open>
  A positive request that does not wrap is granted exactly if it fits below the stack: the block
  starts at the old end of the heap, ends at the new one, and the end stays below the limit.
\<close>

lemma sys_sbrk_grants:
  assumes "heap_end \<noteq> 0" "uint heap_end + uint incr < 2 ^ 32" "sys_sbrk a limit incr heap_end = (r, heap_end')"
  shows "if uint heap_end + uint incr \<le> uint limit
    then r = heap_end \<and> uint heap_end' = uint heap_end + uint incr \<and> heap_end' \<le> limit
    else r = -1 \<and> heap_end' = heap_end"
proof -
  have "uint (heap_end + incr) = uint heap_end + uint incr"
    using assms(2) by (subst uint_add_lem [symmetric]) simp
  then show ?thesis
    using assms(1,3) by (auto simp: sys_sbrk_def Let_def word_less_def word_le_def not_less split: if_splits)
qed

section \<open>Lemmas on output\<close>

text \<open>The bytes that are no NUL: sent, then queued.\<close>

definition line :: "uart \<Rightarrow> octet list" where
  "line u = filter (\<lambda>b. b \<noteq> 0) (TDR u @ uartTxQueue u)"

lemma handler_line [simp]: "line (usartHandler f u) = line u"
  by (auto simp: line_def usartHandler_def Let_def split: list.split)

text \<open>The transmit interrupt is on whenever bytes are queued.\<close>

definition armed :: "uart \<Rightarrow> bool" where
  "armed u \<longleftrightarrow> (uartTxQueue u \<noteq> [] \<longrightarrow> TXEIE u)"

lemma handler_armed: "armed u \<Longrightarrow> armed (usartHandler f u)"
  by (auto simp: armed_def usartHandler_def Let_def split: list.split)

text \<open>
  The invariant: \<open>done\<close> are the bytes \<open>UART_Write\<close> has dealt with, \<open>sent\<close> those of them it queued.
\<close>

definition output_ok :: "octet list \<Rightarrow> octet list \<Rightarrow> stdout \<Rightarrow> bool" where
  "output_ok out data = (\<lambda>(todo, c, lost, u).
     (\<exists>done sent. data = done @ (case c of Writing bs \<Rightarrow> bs | Returned n \<Rightarrow> []) @ todo \<and>
        line u = out @ sent \<and> subseq sent done \<and> length done = length sent + lost) \<and>
     (c \<noteq> Writing [] \<longrightarrow> armed u) \<and> (\<forall>b bs. c = Writing (b # bs) \<longrightarrow> bs = []))"

lemma output_okE:
  assumes "output_ok out data (todo, c, lost, u)"
  obtains ds sent where "data = ds @ (case c of Writing bs \<Rightarrow> bs | Returned n \<Rightarrow> []) @ todo"
    "line u = out @ sent" "subseq sent ds" "length ds = length sent + lost"
    "c \<noteq> Writing [] \<longrightarrow> armed u" "\<forall>b bs. c = Writing (b # bs) \<longrightarrow> bs = []"
  using assms unfolding output_ok_def by auto

lemma sys_write_ok:
  assumes "sys_write s s'" "output_ok out data s" "0 \<notin> set data"
  shows "output_ok out data s'"
  using assms(1)
proof cases
  case (putchar b todo n lost u)
  with assms(2) show ?thesis by (auto simp: output_ok_def)
next
  case (uart c u c' u' todo lost)
  from assms(2) obtain ds sent where ok: "data = ds @ (case c of Writing bs \<Rightarrow> bs | Returned n \<Rightarrow> []) @ todo"
    "line u = out @ sent" "subseq sent ds" "length ds = length sent + lost"
    "c \<noteq> Writing [] \<longrightarrow> armed u" "\<forall>b bs. c = Writing (b # bs) \<longrightarrow> bs = []"
    unfolding uart(1) by (rule output_okE)
  show ?thesis
    using uart(3)
  proof cases
    case (write_put b bs)
    then have "line u' = out @ sent @ [b]" "subseq (sent @ [b]) (ds @ [b])" "bs = []"
      using ok assms(3) by (auto simp: line_def subseq_append')
    then show ?thesis
      using ok write_put uart(2) unfolding output_ok_def by (auto intro!: exI [of _ "ds @ [b]"] exI [of _ "sent @ [b]"])
  next
    case (write_timeout b bs)
    then have "subseq sent (ds @ [b])" "bs = []" using ok by auto
    then show ?thesis
      using ok write_timeout uart(2) unfolding output_ok_def by (auto intro!: exI [of _ "ds @ [b]"] exI [of _ sent])
  next
    case write_end
    then show ?thesis using ok uart(2)
      unfolding output_ok_def by (auto simp: armed_def line_def intro!: exI [of _ ds] exI [of _ sent])
  next
    case (interrupt f)
    then show ?thesis using ok uart(2) handler_armed [of u f]
      unfolding output_ok_def by (auto intro!: exI [of _ ds] exI [of _ sent])
  qed
qed

lemma sys_writes_ok:
  "sys_write\<^sup>*\<^sup>* s s' \<Longrightarrow> output_ok out data s \<Longrightarrow> 0 \<notin> set data \<Longrightarrow> output_ok out data s'"
  by (induction rule: rtranclp_induct) (auto intro: sys_write_ok)

section \<open>Properties\<close>

text \<open>
  C35 (safety).  Text written to standard output while the line is idle reaches the line in order, whatever
  interrupts come between its bytes and however long it is: apart from the NUL bytes the handler
  adds, the bytes sent and queued are the text up to the byte being written, less the bytes whose
  \<open>UART_Write\<close> timed out, and all of it if none did.  Unlike a single long \<open>UART_Write\<close>, a write that waits for room
  always has the transmit interrupt on, which makes room.
\<close>

theorem stdout_keeps_order:
  assumes "uartTxQueue u = []" "0 \<notin> set data"
    and "sys_write\<^sup>*\<^sup>* (data, Returned 1, 0, u) (todo, c, lost, u')"
  shows "(\<exists>sent ds. line u' = line u @ sent \<and> prefix ds data \<and> subseq sent ds \<and> length ds = length sent + lost) \<and>
    (todo = [] \<and> c = Returned n \<and> lost = 0 \<longrightarrow> line u' = line u @ data) \<and>
    (c = Writing [b] \<and> length (uartTxQueue u') = UART_QUEUE_SIZE \<longrightarrow> TXEIE u')"
proof -
  have "output_ok (line u) data (data, Returned 1, 0, u)"
    using assms(1) by (auto simp: output_ok_def armed_def)
  from sys_writes_ok [OF assms(3) this assms(2)]
  obtain ds sent where ok: "data = ds @ (case c of Writing bs \<Rightarrow> bs | Returned n \<Rightarrow> []) @ todo"
    "line u' = line u @ sent" "subseq sent ds" "length ds = length sent + lost" "c \<noteq> Writing [] \<longrightarrow> armed u'"
    by (rule output_okE)
  have "\<exists>sent ds. line u' = line u @ sent \<and> prefix ds data \<and> subseq sent ds \<and> length ds = length sent + lost"
    by (rule exI [of _ sent], rule exI [of _ ds]) (use ok in simp)
  moreover have "lost = 0 \<longrightarrow> sent = ds" using ok(3,4) subseq_same_length by fastforce
  ultimately show ?thesis using ok(1,2,5) by (auto simp: armed_def UART_QUEUE_SIZE_def)
qed

theorem stdout_keeps_order_witness:
  "\<exists>u. sys_write\<^sup>*\<^sup>* ([104], Returned 1, 0, \<lparr>uartRxQueue = [], uartTxQueue = [], TXEIE = False, RXNEIE = True, TDR = []\<rparr>)
      ([], Returned 1, 0, u) \<and> TXEIE u \<and> line u = [104]"
proof -
  let ?u = "\<lparr>uartRxQueue = [], uartTxQueue = [], TXEIE = False, RXNEIE = True, TDR = []\<rparr>"
  let ?v = "?u\<lparr>uartTxQueue := uartTxQueue ?u @ [104]\<rparr>"
  have "uart_step 1 (Writing [104], ?u) (Writing [], ?v)" by (rule write_put) (simp add: UART_QUEUE_SIZE_def)
  then have "sys_write ([], Writing [104], 0, ?u) ([], Writing [], 0, ?v)"
    using sys_write.uart [of "Writing [104]" ?u "Writing []" ?v "[]" 0] by simp
  moreover have "sys_write ([], Writing [], 0, ?v) ([], Returned 1, 0, ?v\<lparr>TXEIE := True\<rparr>)"
    using sys_write.uart [OF write_end [of 1 ?v], of "[]" 0] by simp
  moreover have "sys_write ([104], Returned 1, 0, ?u) ([], Writing [104], 0, ?u)" by (rule putchar)
  ultimately have "sys_write\<^sup>*\<^sup>* ([104], Returned 1, 0, ?u) ([], Returned 1, 0, ?v\<lparr>TXEIE := True\<rparr>)"
    by (meson converse_rtranclp_into_rtranclp rtranclp.rtrancl_refl)
  moreover from stdout_keeps_order [OF _ _ this, of 1] have "line (?v\<lparr>TXEIE := True\<rparr>) = [104]" by (simp add: line_def)
  ultimately show ?thesis by (intro exI [of _ "?v\<lparr>TXEIE := True\<rparr>"]) simp
qed

end
