(* ===== verification/Lan8742.thy ===== *)
theory Lan8742
  imports Datatypes
begin

text \<open>
  The driver \<open>lan8742.c\<close> of the Ethernet transceiver, and the MAC's mode \<open>low_level_init_phy\<close> of
  \<open>ethernetif.c\<close> chooses for a link state.  The registers are reached through the functions of \<open>lan8742_IOCtx_t\<close>, which talk
  to the device over the HAL: they are a parameter, functions on the state of the device.
\<close>

section \<open>Registers and states\<close>

definition LAN8742_BCR :: "32 word" where "LAN8742_BCR = 0x00"
definition LAN8742_BSR :: "32 word" where "LAN8742_BSR = 0x01"
definition LAN8742_SMR :: "32 word" where "LAN8742_SMR = 0x12"
definition LAN8742_ISFR :: "32 word" where "LAN8742_ISFR = 0x1D"
definition LAN8742_IMR :: "32 word" where "LAN8742_IMR = 0x1E"
definition LAN8742_PHYSCSR :: "32 word" where "LAN8742_PHYSCSR = 0x1F"

definition LAN8742_BCR_LOOPBACK :: "32 word" where "LAN8742_BCR_LOOPBACK = 0x4000"
definition LAN8742_BCR_SPEED_SELECT :: "32 word" where "LAN8742_BCR_SPEED_SELECT = 0x2000"
definition LAN8742_BCR_AUTONEGO_EN :: "32 word" where "LAN8742_BCR_AUTONEGO_EN = 0x1000"
definition LAN8742_BCR_POWER_DOWN :: "32 word" where "LAN8742_BCR_POWER_DOWN = 0x0800"
definition LAN8742_BCR_DUPLEX_MODE :: "32 word" where "LAN8742_BCR_DUPLEX_MODE = 0x0100"
definition LAN8742_BSR_LINK_STATUS :: "32 word" where "LAN8742_BSR_LINK_STATUS = 0x0004"
definition LAN8742_SMR_PHY_ADDR :: "32 word" where "LAN8742_SMR_PHY_ADDR = 0x001F"
definition LAN8742_PHYSCSR_AUTONEGO_DONE :: "32 word" where "LAN8742_PHYSCSR_AUTONEGO_DONE = 0x1000"
definition LAN8742_PHYSCSR_HCDSPEEDMASK :: "32 word" where "LAN8742_PHYSCSR_HCDSPEEDMASK = 0x001C"
definition LAN8742_PHYSCSR_10BT_FD :: "32 word" where "LAN8742_PHYSCSR_10BT_FD = 0x0014"
definition LAN8742_PHYSCSR_100BTX_HD :: "32 word" where "LAN8742_PHYSCSR_100BTX_HD = 0x0008"
definition LAN8742_PHYSCSR_100BTX_FD :: "32 word" where "LAN8742_PHYSCSR_100BTX_FD = 0x0018"

definition LAN8742_STATUS_READ_ERROR :: int where "LAN8742_STATUS_READ_ERROR = -5"
definition LAN8742_STATUS_WRITE_ERROR :: int where "LAN8742_STATUS_WRITE_ERROR = -4"
definition LAN8742_STATUS_ADDRESS_ERROR :: int where "LAN8742_STATUS_ADDRESS_ERROR = -3"
definition LAN8742_STATUS_ERROR :: int where "LAN8742_STATUS_ERROR = -1"
definition LAN8742_STATUS_OK :: int where "LAN8742_STATUS_OK = 0"
definition LAN8742_STATUS_LINK_DOWN :: int where "LAN8742_STATUS_LINK_DOWN = 1"
definition LAN8742_STATUS_100MBITS_FULLDUPLEX :: int where "LAN8742_STATUS_100MBITS_FULLDUPLEX = 2"
definition LAN8742_STATUS_100MBITS_HALFDUPLEX :: int where "LAN8742_STATUS_100MBITS_HALFDUPLEX = 3"
definition LAN8742_STATUS_10MBITS_FULLDUPLEX :: int where "LAN8742_STATUS_10MBITS_FULLDUPLEX = 4"
definition LAN8742_STATUS_10MBITS_HALFDUPLEX :: int where "LAN8742_STATUS_10MBITS_HALFDUPLEX = 5"
definition LAN8742_STATUS_AUTONEGO_NOTDONE :: int where "LAN8742_STATUS_AUTONEGO_NOTDONE = 6"

definition LAN8742_MAX_DEV_ADDR :: nat where "LAN8742_MAX_DEV_ADDR = 31"

lemmas lan_reg_defs = LAN8742_BCR_def LAN8742_BSR_def LAN8742_SMR_def LAN8742_ISFR_def LAN8742_IMR_def
  LAN8742_PHYSCSR_def

lemmas lan_status_defs = LAN8742_STATUS_READ_ERROR_def LAN8742_STATUS_WRITE_ERROR_def
  LAN8742_STATUS_ADDRESS_ERROR_def LAN8742_STATUS_ERROR_def LAN8742_STATUS_OK_def
  LAN8742_STATUS_LINK_DOWN_def LAN8742_STATUS_100MBITS_FULLDUPLEX_def
  LAN8742_STATUS_100MBITS_HALFDUPLEX_def LAN8742_STATUS_10MBITS_FULLDUPLEX_def
  LAN8742_STATUS_10MBITS_HALFDUPLEX_def LAN8742_STATUS_AUTONEGO_NOTDONE_def

lemmas lan_bit_defs = LAN8742_BCR_LOOPBACK_def LAN8742_BCR_SPEED_SELECT_def LAN8742_BCR_AUTONEGO_EN_def
  LAN8742_BCR_POWER_DOWN_def LAN8742_BCR_DUPLEX_MODE_def LAN8742_BSR_LINK_STATUS_def

text \<open>
  A register access: device address, register, the device; \<open>None\<close> and \<open>False\<close> are negative return values.
\<close>

record 'd lan8742_IOCtx_t =
  io_Init :: "'d \<Rightarrow> 'd"
  io_DeInit :: "'d \<Rightarrow> bool \<times> 'd"
  WriteReg :: "32 word \<Rightarrow> 32 word \<Rightarrow> 32 word \<Rightarrow> 'd \<Rightarrow> bool \<times> 'd"
  ReadReg :: "32 word \<Rightarrow> 32 word \<Rightarrow> 'd \<Rightarrow> 32 word option \<times> 'd"

record lan8742_Object_t =
  DevAddr :: "32 word"
  Is_Initialized :: bool

section \<open>Initialisation\<close>

text \<open>The loop over the addresses from \<open>addr\<close> on, \<open>n\<close> of them left: the address that answers, if any.\<close>

fun probe :: "'d lan8742_IOCtx_t \<Rightarrow> nat \<Rightarrow> nat \<Rightarrow> int \<Rightarrow> 'd \<Rightarrow> (nat option \<times> int) \<times> 'd" where
  "probe io 0 addr status d = ((None, status), d)"
| "probe io (Suc n) addr status d =
     (let (regvalue, d) = ReadReg io (of_nat addr) LAN8742_SMR d
      in case regvalue of
           None \<Rightarrow> probe io n (Suc addr) LAN8742_STATUS_READ_ERROR d
         | Some v \<Rightarrow>
             if v AND LAN8742_SMR_PHY_ADDR = of_nat addr then ((Some addr, LAN8742_STATUS_OK), d)
             else probe io n (Suc addr) status d)"

definition LAN8742_Init :: "'d lan8742_IOCtx_t \<Rightarrow> lan8742_Object_t \<Rightarrow> 'd \<Rightarrow> int \<times> lan8742_Object_t \<times> 'd" where
  "LAN8742_Init io obj d =
     (if \<not> Is_Initialized obj then
        (let d = io_Init io d;
             ((found, status), d) = probe io (Suc LAN8742_MAX_DEV_ADDR) 0 LAN8742_STATUS_OK d;
             obj = obj\<lparr>DevAddr := (case found of Some a \<Rightarrow> of_nat a | None \<Rightarrow> of_nat (LAN8742_MAX_DEV_ADDR + 1))\<rparr>;
             status = (if DevAddr obj > of_nat LAN8742_MAX_DEV_ADDR then LAN8742_STATUS_ADDRESS_ERROR else status);
             obj = (if status = LAN8742_STATUS_OK then obj\<lparr>Is_Initialized := True\<rparr> else obj)
         in (status, obj, d))
      else (LAN8742_STATUS_OK, obj, d))"

definition LAN8742_DeInit :: "'d lan8742_IOCtx_t \<Rightarrow> lan8742_Object_t \<Rightarrow> 'd \<Rightarrow> int \<times> lan8742_Object_t \<times> 'd" where
  "LAN8742_DeInit io obj d =
     (if Is_Initialized obj then
        (let (ok, d) = io_DeInit io d
         in if \<not> ok then (LAN8742_STATUS_ERROR, obj, d)
            else (LAN8742_STATUS_OK, obj\<lparr>Is_Initialized := False\<rparr>, d))
      else (LAN8742_STATUS_OK, obj, d))"

section \<open>Read, modify, write\<close>

text \<open>The body the single-register functions share.\<close>

definition modify_reg :: "'d lan8742_IOCtx_t \<Rightarrow> lan8742_Object_t \<Rightarrow> 32 word \<Rightarrow> (32 word \<Rightarrow> 32 word) \<Rightarrow> 'd \<Rightarrow> int \<times> 'd" where
  "modify_reg io obj reg f d =
     (let (readval, d) = ReadReg io (DevAddr obj) reg d
      in case readval of
           None \<Rightarrow> (LAN8742_STATUS_READ_ERROR, d)
         | Some v \<Rightarrow>
             (let (ok, d) = WriteReg io (DevAddr obj) reg (f v) d
              in (if ok then LAN8742_STATUS_OK else LAN8742_STATUS_WRITE_ERROR, d)))"

definition LAN8742_DisablePowerDownMode where
  "LAN8742_DisablePowerDownMode io obj = modify_reg io obj LAN8742_BCR (\<lambda>v. v AND NOT LAN8742_BCR_POWER_DOWN)"

definition LAN8742_EnablePowerDownMode where
  "LAN8742_EnablePowerDownMode io obj = modify_reg io obj LAN8742_BCR (\<lambda>v. v OR LAN8742_BCR_POWER_DOWN)"

definition LAN8742_StartAutoNego where
  "LAN8742_StartAutoNego io obj = modify_reg io obj LAN8742_BCR (\<lambda>v. v OR LAN8742_BCR_AUTONEGO_EN)"

definition LAN8742_EnableLoopbackMode where
  "LAN8742_EnableLoopbackMode io obj = modify_reg io obj LAN8742_BCR (\<lambda>v. v OR LAN8742_BCR_LOOPBACK)"

definition LAN8742_DisableLoopbackMode where
  "LAN8742_DisableLoopbackMode io obj = modify_reg io obj LAN8742_BCR (\<lambda>v. v AND NOT LAN8742_BCR_LOOPBACK)"

definition LAN8742_EnableIT where
  "LAN8742_EnableIT io obj Interrupt = modify_reg io obj LAN8742_IMR (\<lambda>v. v OR Interrupt)"

definition LAN8742_DisableIT where
  "LAN8742_DisableIT io obj Interrupt = modify_reg io obj LAN8742_IMR (\<lambda>v. v AND NOT Interrupt)"

definition LAN8742_ClearIT :: "'d lan8742_IOCtx_t \<Rightarrow> lan8742_Object_t \<Rightarrow> 32 word \<Rightarrow> 'd \<Rightarrow> int \<times> 'd" where
  "LAN8742_ClearIT io obj Interrupt d =
     (let (readval, d) = ReadReg io (DevAddr obj) LAN8742_ISFR d
      in (if readval = None then LAN8742_STATUS_READ_ERROR else LAN8742_STATUS_OK, d))"

definition LAN8742_GetITStatus :: "'d lan8742_IOCtx_t \<Rightarrow> lan8742_Object_t \<Rightarrow> 32 word \<Rightarrow> 'd \<Rightarrow> int \<times> 'd" where
  "LAN8742_GetITStatus io obj Interrupt d =
     (let (readval, d) = ReadReg io (DevAddr obj) LAN8742_ISFR d
      in (case readval of
            None \<Rightarrow> LAN8742_STATUS_READ_ERROR
          | Some v \<Rightarrow> if v AND Interrupt = Interrupt then 1 else 0, d))"

section \<open>The link state\<close>

definition bcr_state :: "32 word \<Rightarrow> int" where
  "bcr_state readval =
     (if readval AND LAN8742_BCR_SPEED_SELECT = LAN8742_BCR_SPEED_SELECT \<and>
         readval AND LAN8742_BCR_DUPLEX_MODE = LAN8742_BCR_DUPLEX_MODE then LAN8742_STATUS_100MBITS_FULLDUPLEX
      else if readval AND LAN8742_BCR_SPEED_SELECT = LAN8742_BCR_SPEED_SELECT then LAN8742_STATUS_100MBITS_HALFDUPLEX
      else if readval AND LAN8742_BCR_DUPLEX_MODE = LAN8742_BCR_DUPLEX_MODE then LAN8742_STATUS_10MBITS_FULLDUPLEX
      else LAN8742_STATUS_10MBITS_HALFDUPLEX)"

definition physcsr_state :: "32 word \<Rightarrow> int" where
  "physcsr_state readval =
     (if readval AND LAN8742_PHYSCSR_AUTONEGO_DONE = 0 then LAN8742_STATUS_AUTONEGO_NOTDONE
      else if readval AND LAN8742_PHYSCSR_HCDSPEEDMASK = LAN8742_PHYSCSR_100BTX_FD then LAN8742_STATUS_100MBITS_FULLDUPLEX
      else if readval AND LAN8742_PHYSCSR_HCDSPEEDMASK = LAN8742_PHYSCSR_100BTX_HD then LAN8742_STATUS_100MBITS_HALFDUPLEX
      else if readval AND LAN8742_PHYSCSR_HCDSPEEDMASK = LAN8742_PHYSCSR_10BT_FD then LAN8742_STATUS_10MBITS_FULLDUPLEX
      else LAN8742_STATUS_10MBITS_HALFDUPLEX)"

text \<open>The status register is read twice, since its link bit is latched.\<close>

definition LAN8742_GetLinkState :: "'d lan8742_IOCtx_t \<Rightarrow> lan8742_Object_t \<Rightarrow> 'd \<Rightarrow> int \<times> 'd" where
  "LAN8742_GetLinkState io obj d =
     (let (first, d) = ReadReg io (DevAddr obj) LAN8742_BSR d
      in if first = None then (LAN8742_STATUS_READ_ERROR, d)
         else
      let (bsr, d) = ReadReg io (DevAddr obj) LAN8742_BSR d
      in case bsr of
           None \<Rightarrow> (LAN8742_STATUS_READ_ERROR, d)
         | Some v \<Rightarrow>
             if v AND LAN8742_BSR_LINK_STATUS = 0 then (LAN8742_STATUS_LINK_DOWN, d)
             else
             (let (bcr, d) = ReadReg io (DevAddr obj) LAN8742_BCR d
              in case bcr of
                   None \<Rightarrow> (LAN8742_STATUS_READ_ERROR, d)
                 | Some v \<Rightarrow>
                     if v AND LAN8742_BCR_AUTONEGO_EN \<noteq> LAN8742_BCR_AUTONEGO_EN then (bcr_state v, d)
                     else
                     (let (scsr, d) = ReadReg io (DevAddr obj) LAN8742_PHYSCSR d
                      in case scsr of
                           None \<Rightarrow> (LAN8742_STATUS_READ_ERROR, d)
                         | Some v \<Rightarrow> (physcsr_state v, d))))"

text \<open>The bits \<open>LAN8742_SetLinkState\<close> clears, and those it then sets.\<close>

definition link_mask :: "32 word" where
  "link_mask = LAN8742_BCR_AUTONEGO_EN OR LAN8742_BCR_SPEED_SELECT OR LAN8742_BCR_DUPLEX_MODE"

definition link_bits :: "int \<Rightarrow> 32 word option" where
  "link_bits LinkState =
     (if LinkState = LAN8742_STATUS_100MBITS_FULLDUPLEX then Some (LAN8742_BCR_SPEED_SELECT OR LAN8742_BCR_DUPLEX_MODE)
      else if LinkState = LAN8742_STATUS_100MBITS_HALFDUPLEX then Some LAN8742_BCR_SPEED_SELECT
      else if LinkState = LAN8742_STATUS_10MBITS_FULLDUPLEX then Some LAN8742_BCR_DUPLEX_MODE
      else None)"

definition LAN8742_SetLinkState :: "'d lan8742_IOCtx_t \<Rightarrow> lan8742_Object_t \<Rightarrow> int \<Rightarrow> 'd \<Rightarrow> int \<times> 'd" where
  "LAN8742_SetLinkState io obj LinkState d =
     (let (bcrvalue, d) = ReadReg io (DevAddr obj) LAN8742_BCR d
      in case bcrvalue of
           None \<Rightarrow> (LAN8742_STATUS_READ_ERROR, d)
         | Some v \<Rightarrow>
             (let v = v AND NOT link_mask
              in case link_bits LinkState of
                   None \<Rightarrow> (LAN8742_STATUS_ERROR, d)
                 | Some bits \<Rightarrow>
                     (let (ok, d) = WriteReg io (DevAddr obj) LAN8742_BCR (v OR bits) d
                      in (if ok then LAN8742_STATUS_OK else LAN8742_STATUS_WRITE_ERROR, d))))"

section \<open>The mode of the MAC\<close>

text \<open>The MAC's mode for a link state; \<open>None\<close>: the interface stays down.\<close>

datatype duplex = ETH_FULLDUPLEX_MODE | ETH_HALFDUPLEX_MODE

datatype speed = ETH_SPEED_100M | ETH_SPEED_10M

definition mac_mode :: "int \<Rightarrow> (duplex \<times> speed) option" where
  "mac_mode PHYLinkState =
     (if PHYLinkState \<le> LAN8742_STATUS_LINK_DOWN then None
      else if PHYLinkState = LAN8742_STATUS_100MBITS_FULLDUPLEX then Some (ETH_FULLDUPLEX_MODE, ETH_SPEED_100M)
      else if PHYLinkState = LAN8742_STATUS_100MBITS_HALFDUPLEX then Some (ETH_HALFDUPLEX_MODE, ETH_SPEED_100M)
      else if PHYLinkState = LAN8742_STATUS_10MBITS_FULLDUPLEX then Some (ETH_FULLDUPLEX_MODE, ETH_SPEED_10M)
      else if PHYLinkState = LAN8742_STATUS_10MBITS_HALFDUPLEX then Some (ETH_HALFDUPLEX_MODE, ETH_SPEED_10M)
      else Some (ETH_FULLDUPLEX_MODE, ETH_SPEED_100M))"

section \<open>Lemmas\<close>

text \<open>A device at one address whose registers keep what is written to them, as functions of its state.\<close>

definition regfile :: "'d lan8742_IOCtx_t \<Rightarrow> 32 word \<Rightarrow> ('d \<Rightarrow> 32 word \<Rightarrow> 32 word) \<Rightarrow> bool" where
  "regfile io a reg \<longleftrightarrow> (\<forall>r d. ReadReg io a r d = (Some (reg d r), d)) \<and>
     (\<forall>r v d. fst (WriteReg io a r v d) \<and> reg (snd (WriteReg io a r v d)) = (reg d)(r := v))"

definition plain_phy :: "32 word \<Rightarrow> (32 word \<Rightarrow> 32 word) lan8742_IOCtx_t" where
  "plain_phy a = \<lparr>io_Init = id, io_DeInit = (\<lambda>d. (True, d)),
     WriteReg = (\<lambda>b r v d. if b = a then (True, d(r := v)) else (False, d)),
     ReadReg = (\<lambda>b r d. if b = a then (Some (d r), d) else (None, d))\<rparr>"

lemma plain_phy_regfile: "regfile (plain_phy a) a (\<lambda>d. d)"
  by (simp add: regfile_def plain_phy_def)

lemma probe_result:
  "fst (probe io n addr status d) = (Some a, st) \<Longrightarrow> addr \<le> a \<and> a < addr + n \<and> st = LAN8742_STATUS_OK"
proof (induction n arbitrary: addr status d)
  case (Suc n)
  obtain r d' where r: "ReadReg io (of_nat addr) LAN8742_SMR d = (r, d')" by fastforce
  show ?case
  proof (cases "\<exists>v. r = Some v \<and> v AND LAN8742_SMR_PHY_ADDR = of_nat addr")
    case True
    then show ?thesis using Suc.prems r by auto
  next
    case False
    then have "\<exists>status'. fst (probe io n (Suc addr) status' d') = (Some a, st)"
      using Suc.prems r by (cases r) auto
    then show ?thesis using Suc.IH by fastforce
  qed
qed simp

lemma masked_or:
  fixes v m b :: "32 word"
  assumes "b AND m = b"
  shows "(v AND NOT m OR b) AND m = b"
proof (rule bit_word_eqI)
  fix n assume n: "n < LENGTH(32)"
  have "bit b n \<longrightarrow> bit m n" using arg_cong [OF assms, of "\<lambda>w. bit w n"] by (auto simp: bit_and_iff)
  then show "bit ((v AND NOT m OR b) AND m) n = bit b n" using n by (auto simp: bit_simps)
qed

lemma masked_bit:
  fixes v m k :: "32 word"
  assumes "v AND m = b" "k AND m = k"
  shows "v AND k = b AND k"
proof (rule bit_word_eqI)
  fix n assume n: "n < LENGTH(32)"
  have "bit k n \<longrightarrow> bit m n" using arg_cong [OF assms(2), of "\<lambda>w. bit w n"] by (auto simp: bit_and_iff)
  then show "bit (v AND k) n = bit (b AND k) n"
    using arg_cong [OF assms(1), of "\<lambda>w. bit w n"] by (auto simp: bit_and_iff)
qed

text \<open>The register written for a link state reads back as that state.\<close>

lemma link_bits_state:
  assumes "link_bits s = Some b"
  shows "b AND link_mask = b" "(v AND NOT link_mask OR b) AND LAN8742_BCR_AUTONEGO_EN \<noteq> LAN8742_BCR_AUTONEGO_EN"
    "bcr_state (v AND NOT link_mask OR b) = s"
proof -
  have b: "(s, b) \<in> {(LAN8742_STATUS_100MBITS_FULLDUPLEX, 0x2100), (LAN8742_STATUS_100MBITS_HALFDUPLEX, 0x2000),
      (LAN8742_STATUS_10MBITS_FULLDUPLEX, 0x0100)}"
    using assms by (auto simp: link_bits_def lan_bit_defs split: if_splits)
  have m: "link_mask = 0x3100" by (simp add: link_mask_def lan_bit_defs)
  show bm: "b AND link_mask = b" using b unfolding m by auto
  let ?w = "v AND NOT link_mask OR b"
  have k: "?w AND k = b AND k" if "k AND link_mask = k" for k
    by (rule masked_bit [OF masked_or [OF bm] that])
  have "?w AND LAN8742_BCR_AUTONEGO_EN = b AND LAN8742_BCR_AUTONEGO_EN"
    "?w AND LAN8742_BCR_SPEED_SELECT = b AND LAN8742_BCR_SPEED_SELECT"
    "?w AND LAN8742_BCR_DUPLEX_MODE = b AND LAN8742_BCR_DUPLEX_MODE"
    by (rule k; simp add: m lan_bit_defs)+
  then show "?w AND LAN8742_BCR_AUTONEGO_EN \<noteq> LAN8742_BCR_AUTONEGO_EN" "bcr_state ?w = s"
    using b by (auto simp: bcr_state_def lan_bit_defs)
qed

section \<open>Properties\<close>

text \<open>
  On a transceiver whose registers keep what is written and whose link is up, a link state that
  \<open>LAN8742_SetLinkState\<close> accepts is the one \<open>LAN8742_GetLinkState\<close> reports afterwards, and the MAC
  is set up for it; 10 MBit half duplex, which its comment lists, is refused and nothing is
  written.
\<close>

theorem link_state_roundtrip:
  assumes "regfile io (DevAddr obj) reg" "reg d LAN8742_BSR AND LAN8742_BSR_LINK_STATUS \<noteq> 0"
    and "s \<in> {LAN8742_STATUS_100MBITS_FULLDUPLEX, LAN8742_STATUS_100MBITS_HALFDUPLEX, LAN8742_STATUS_10MBITS_FULLDUPLEX}"
  shows "fst (LAN8742_SetLinkState io obj s d) = LAN8742_STATUS_OK \<and>
    fst (LAN8742_GetLinkState io obj (snd (LAN8742_SetLinkState io obj s d))) = s \<and>
    LAN8742_SetLinkState io obj LAN8742_STATUS_10MBITS_HALFDUPLEX d = (LAN8742_STATUS_ERROR, d)"
proof -
  obtain b where b: "link_bits s = Some b" using assms(3) by (auto simp: link_bits_def lan_status_defs)
  note l = link_bits_state [OF b]
  have rd: "ReadReg io (DevAddr obj) r e = (Some (reg e r), e)" for r e
    using assms(1) by (simp add: regfile_def)
  let ?v = "reg d LAN8742_BCR AND NOT link_mask OR b"
  obtain d' where wr: "WriteReg io (DevAddr obj) LAN8742_BCR ?v d = (True, d')" "reg d' = (reg d)(LAN8742_BCR := ?v)"
    using assms(1) unfolding regfile_def by (metis prod.collapse)
  have set: "LAN8742_SetLinkState io obj s d = (LAN8742_STATUS_OK, d')"
    using wr(1) by (simp add: LAN8742_SetLinkState_def rd b)
  have "reg d' LAN8742_BSR = reg d LAN8742_BSR" "reg d' LAN8742_BCR = ?v"
    by (simp_all add: wr(2) lan_reg_defs)
  then have "fst (LAN8742_GetLinkState io obj d') = s"
    using assms(2) l(2,3) [of "reg d LAN8742_BCR"] by (simp add: LAN8742_GetLinkState_def rd)
  moreover have "link_bits LAN8742_STATUS_10MBITS_HALFDUPLEX = None" by (simp add: link_bits_def lan_status_defs)
  then have "LAN8742_SetLinkState io obj LAN8742_STATUS_10MBITS_HALFDUPLEX d = (LAN8742_STATUS_ERROR, d)"
    by (simp add: LAN8742_SetLinkState_def rd)
  ultimately show ?thesis by (simp add: set)
qed

theorem link_state_roundtrip_witness:
  "fst (LAN8742_GetLinkState (plain_phy 0) \<lparr>DevAddr = 0, Is_Initialized = True\<rparr>
     (snd (LAN8742_SetLinkState (plain_phy 0) \<lparr>DevAddr = 0, Is_Initialized = True\<rparr>
       LAN8742_STATUS_100MBITS_HALFDUPLEX (\<lambda>_. 0xFFFF)))) = LAN8742_STATUS_100MBITS_HALFDUPLEX"
  using link_state_roundtrip [of "plain_phy 0" "\<lparr>DevAddr = 0, Is_Initialized = True\<rparr>" "\<lambda>d. d" "\<lambda>_. 0xFFFF"
      LAN8742_STATUS_100MBITS_HALFDUPLEX] plain_phy_regfile [of 0]
  by (simp add: LAN8742_BSR_LINK_STATUS_def)

text \<open>
  \<open>LAN8742_Init\<close> ends with OK and a device address of at most 31, or with an address error and the
  address 32; the read error its comment announces is never returned, and only success marks the
  object initialised.
\<close>

theorem init_result:
  assumes "\<not> Is_Initialized obj"
  shows "let (status, obj', d') = LAN8742_Init io obj d in
    if Is_Initialized obj' then status = LAN8742_STATUS_OK \<and> DevAddr obj' \<le> 31
    else status = LAN8742_STATUS_ADDRESS_ERROR \<and> DevAddr obj' = 32"
proof -
  obtain found st d' where p: "probe io (Suc LAN8742_MAX_DEV_ADDR) 0 LAN8742_STATUS_OK (io_Init io d) = ((found, st), d')"
    by (metis prod.collapse)
  show ?thesis
  proof (cases found)
    case None
    then show ?thesis
      using assms p by (simp add: LAN8742_Init_def LAN8742_MAX_DEV_ADDR_def lan_status_defs Let_def del: probe.simps)
  next
    case (Some a)
    have "a < 32" "st = LAN8742_STATUS_OK"
      using probe_result [of io "Suc LAN8742_MAX_DEV_ADDR" 0 LAN8742_STATUS_OK "io_Init io d" a st] p Some
      by (simp_all add: LAN8742_MAX_DEV_ADDR_def del: probe.simps)
    moreover from this have "(of_nat a :: 32 word) \<le> 31"
      by (simp add: word_le_nat_alt unsigned_of_nat take_bit_nat_eq_self)
    moreover from this have "\<not> 31 < (of_nat a :: 32 word)" by (simp add: not_less)
    ultimately show ?thesis
      using assms p Some by (simp add: LAN8742_Init_def LAN8742_MAX_DEV_ADDR_def Let_def del: probe.simps)
  qed
qed

theorem init_result_witness:
  "let (status, obj', d') = LAN8742_Init (plain_phy 0) \<lparr>DevAddr = 0, Is_Initialized = False\<rparr> (\<lambda>_. 0x20) in
    if Is_Initialized obj' then status = LAN8742_STATUS_OK \<and> DevAddr obj' \<le> 31
    else status = LAN8742_STATUS_ADDRESS_ERROR \<and> DevAddr obj' = 32"
  by (rule init_result) simp

end
