(* ===== verification/AppNet.thy ===== *)
theory AppNet
  imports Datatypes
begin

text \<open>
  The application's network tasks: the DHCP client of \<open>app_ethernet.c\<close> with its fallback to a static
  address, the \<open>ping\<close> command of \<open>ping.c\<close>, and the dispatch of \<open>httpserver-socket.c\<close>.  What lwIP
  answers, the packets that arrive and the files of the web server are parameters.
\<close>

section \<open>The DHCP client\<close>

datatype dhcp_state =
  DHCP_OFF | DHCP_START | DHCP_WAIT_ADDRESS | DHCP_ADDRESS_ASSIGNED | DHCP_TIMEOUT | DHCP_LINK_DOWN

definition MAX_DHCP_TRIES :: nat where "MAX_DHCP_TRIES = 4"
definition IP_ADDR :: "octet list" where "IP_ADDR = [192, 168, 0, 10]"
definition NETMASK_ADDR :: "octet list" where "NETMASK_ADDR = [255, 255, 255, 0]"
definition GW_ADDR :: "octet list" where "GW_ADDR = [192, 168, 0, 1]"

record netif_t =
  DHCP_state :: dhcp_state
  nif_ip :: "octet list"
  nif_netmask :: "octet list"
  nif_gw :: "octet list"
  dhcp_running :: bool          \<comment> \<open>between \<open>dhcp_start\<close> and \<open>dhcp_stop\<close>\<close>
  sntp_enabled :: bool

definition zero_ip :: "octet list" where "zero_ip = [0, 0, 0, 0]"

definition app_network_sntp_start :: "netif_t \<Rightarrow> netif_t" where
  "app_network_sntp_start s = (if \<not> sntp_enabled s then s\<lparr>sntp_enabled := True\<rparr> else s)"

definition User_notification :: "bool \<Rightarrow> netif_t \<Rightarrow> netif_t" where
  "User_notification up s = s\<lparr>DHCP_state := (if up then DHCP_START else DHCP_LINK_DOWN)\<rparr>"

text \<open>
  One turn of \<open>DHCP_thread\<close>: \<open>lease\<close> is the address, mask and gateway lwIP has bound, if any, \<open>tries\<close>
  its number of attempts.
\<close>

definition DHCP_turn :: "(octet list \<times> octet list \<times> octet list) option \<Rightarrow> nat \<Rightarrow> netif_t \<Rightarrow> netif_t" where
  "DHCP_turn lease tries s =
     (case DHCP_state s of
        DHCP_START \<Rightarrow>
          s\<lparr>nif_ip := zero_ip, nif_netmask := zero_ip, nif_gw := zero_ip, dhcp_running := True,
            DHCP_state := DHCP_WAIT_ADDRESS\<rparr>
      | DHCP_WAIT_ADDRESS \<Rightarrow>
          (case lease of
             Some (ip, netmask, gw) \<Rightarrow>
               (let s = s\<lparr>DHCP_state := DHCP_ADDRESS_ASSIGNED, nif_ip := ip, nif_netmask := netmask, nif_gw := gw\<rparr>
                in if nif_ip s \<noteq> zero_ip then app_network_sntp_start s else s)
           | None \<Rightarrow>
               if tries > MAX_DHCP_TRIES then
                 s\<lparr>DHCP_state := DHCP_TIMEOUT, dhcp_running := False, nif_ip := IP_ADDR,
                   nif_netmask := NETMASK_ADDR, nif_gw := GW_ADDR\<rparr>
               else s)
      | DHCP_LINK_DOWN \<Rightarrow> s\<lparr>dhcp_running := False, DHCP_state := DHCP_OFF\<rparr>
      | _ \<Rightarrow> s)"

inductive dhcp_client_step :: "netif_t \<Rightarrow> netif_t \<Rightarrow> bool" where
  client_turn: "dhcp_client_step s (DHCP_turn lease tries s)"
| client_notified: "dhcp_client_step s (User_notification up s)"

definition client_init :: netif_t where
  "client_init = \<lparr>DHCP_state = DHCP_OFF, nif_ip = zero_ip, nif_netmask = zero_ip, nif_gw = zero_ip,
     dhcp_running = False, sntp_enabled = False\<rparr>"

definition client_ok :: "netif_t \<Rightarrow> bool" where
  "client_ok s \<longleftrightarrow>
     (case DHCP_state s of
        DHCP_TIMEOUT \<Rightarrow> \<not> dhcp_running s \<and> nif_ip s = IP_ADDR \<and> nif_netmask s = NETMASK_ADDR \<and> nif_gw s = GW_ADDR
      | DHCP_OFF \<Rightarrow> \<not> dhcp_running s
      | DHCP_WAIT_ADDRESS \<Rightarrow> dhcp_running s \<and> nif_ip s = zero_ip
      | DHCP_ADDRESS_ASSIGNED \<Rightarrow> dhcp_running s \<and> (nif_ip s = zero_ip \<or> sntp_enabled s)
      | _ \<Rightarrow> True)"

lemma client_step_ok: "dhcp_client_step s s' \<Longrightarrow> client_ok s \<Longrightarrow> client_ok s'"
  by (induction rule: dhcp_client_step.induct)
    (auto simp: client_ok_def DHCP_turn_def User_notification_def app_network_sntp_start_def Let_def
      split: dhcp_state.splits option.splits if_splits)

lemma client_steps_ok: "dhcp_client_step\<^sup>*\<^sup>* client_init s \<Longrightarrow> client_ok s"
proof (induction rule: rtranclp_induct)
  case base
  show ?case by (simp add: client_ok_def client_init_def)
next
  case (step y z)
  then show ?case using client_step_ok by blast
qed

section \<open>Ping\<close>

definition PING_ID :: int where "PING_ID = 0x1400"
definition PING_DATA_SIZE :: nat where "PING_DATA_SIZE = 64 - 8"
definition PBUF_IP_HLEN :: nat where "PBUF_IP_HLEN = 20"

text \<open>A 16-bit number in network byte order, as \<open>lwip_htons\<close> lays it out in memory.\<close>

definition be16 :: "int \<Rightarrow> octet list" where
  "be16 n = [word_of_int (u16 n div 256), word_of_int (u16 n mod 256)]"

lemma be16_inj: "be16 a = be16 b \<longleftrightarrow> u16 a = u16 b"
proof
  assume "be16 a = be16 b"
  then have h: "(word_of_int (u16 a div 256) :: octet) = word_of_int (u16 b div 256)"
    and l: "(word_of_int (u16 a mod 256) :: octet) = word_of_int (u16 b mod 256)" by (simp_all add: be16_def)
  have u: "uint (word_of_int x :: octet) = x" if "0 \<le> x" "x < 256" for x
    using that by (simp add: uint_word_of_int)
  have "0 \<le> u16 x div 256 \<and> u16 x div 256 < 256 \<and> 0 \<le> u16 x mod 256 \<and> u16 x mod 256 < 256" for x
    by (simp add: u16_def div_less_iff_less_mult pos_imp_zdiv_nonneg_iff)
  then have "u16 a div 256 = u16 b div 256" "u16 a mod 256 = u16 b mod 256" using h l u by metis+
  then show "u16 a = u16 b" by (metis div_mult_mod_eq)
qed (simp add: be16_def)

record ping_t =
  ping_result :: int
  ping_seq_num :: int

definition ping_recv :: "pbuf \<Rightarrow> ping_t \<Rightarrow> ping_t" where
  "ping_recv p s =
     (let payload = hd (chain p)
      in if tot_len p \<ge> PBUF_IP_HLEN + 8 \<and>
            take 2 (drop (PBUF_IP_HLEN + 4) payload) = be16 PING_ID \<and>
            take 2 (drop (PBUF_IP_HLEN + 6) payload) = be16 (ping_seq_num s - 1)
         then s\<lparr>ping_result := 0\<rparr> else s)"

definition ping_send :: "int \<Rightarrow> octet list" where
  "ping_send seq_num = [8, 0, 0, 0] @ be16 PING_ID @ be16 seq_num @ map of_nat [8..<8 + PING_DATA_SIZE]"

text \<open>
  One round of \<open>do_ping\<close>: send, then wait while the packets \<open>ps\<close> arrive.  The request's number is \<open>ping_seq_num++\<close>.
\<close>

definition ping_round :: "pbuf list \<Rightarrow> ping_t \<Rightarrow> ping_t" where
  "ping_round ps s = fold ping_recv ps (s\<lparr>ping_result := -1, ping_seq_num := u16 (ping_seq_num s + 1)\<rparr>)"

text \<open>\<open>do \<dots> while (--count)\<close> with a 16-bit counter; \<open>k\<close> numbers the rounds.\<close>

function ping_loop :: "(nat \<Rightarrow> pbuf list) \<Rightarrow> nat \<Rightarrow> int \<Rightarrow> ping_t \<Rightarrow> ping_t \<times> nat" where
  "ping_loop net k count s =
     (let s = ping_round (net k) s;
          count = u16 (count - 1)
      in if count \<noteq> 0 then ping_loop net (Suc k) count s else (s, Suc k))"
  by pat_completeness auto

termination ping_loop
proof (relation "measure (\<lambda>(net, k, count, s). nat (u16 (count - 1)))")
  fix net :: "nat \<Rightarrow> pbuf list" and k count s x xa
  assume "xa = u16 (count - 1)" "xa \<noteq> 0"
  moreover from this have "0 \<le> xa" "xa < 65536" by (simp_all add: u16_def)
  ultimately have "0 < xa" "xa < 65536" by linarith+
  then have "u16 (xa - 1) = xa - 1" by (simp add: u16_def)
  with \<open>0 < xa\<close> \<open>xa = u16 (count - 1)\<close>
  show "((net, Suc k, xa, x), net, k, count, s) \<in> measure (\<lambda>(net, k, count, s). nat (u16 (count - 1)))" by simp
qed simp

text \<open>The result: 0 if the last round was answered.  \<open>raw_new\<close> may fail.\<close>

definition do_ping :: "bool \<Rightarrow> (nat \<Rightarrow> pbuf list) \<Rightarrow> int \<Rightarrow> ping_t \<Rightarrow> int \<times> ping_t" where
  "do_ping pcb net count s =
     (if \<not> pcb then (-1, s)
      else let (s, _) = ping_loop net 0 count s in (if ping_result s = 0 then 0 else -1, s))"

lemma ping_round_seq: "ping_seq_num (ping_round ps s) = u16 (ping_seq_num s + 1)"
proof -
  have "ping_seq_num (fold ping_recv ps s) = ping_seq_num s" for s
    by (induction ps arbitrary: s) (simp_all add: ping_recv_def Let_def)
  then show ?thesis by (simp add: ping_round_def)
qed

declare ping_loop.simps [simp del]

lemma ping_loop_rounds:
  assumes "0 < count" "count \<le> 65536"
  shows "snd (ping_loop net k count s) = k + nat count"
  using assms
proof (induction "nat count" arbitrary: k count s)
  case (Suc n)
  show ?case
  proof (cases "count = 1")
    case False
    then have c: "u16 (count - 1) = count - 1" "count - 1 \<noteq> 0" "n = nat (count - 1)"
      using Suc.prems Suc.hyps(2) by (auto simp: u16_def)
    then show ?thesis
      using Suc.hyps(1) [OF c(3)] Suc.prems Suc.hyps(2) by (subst ping_loop.simps) (simp add: Let_def)
  qed (subst ping_loop.simps, simp add: u16_def Let_def)
qed simp

section \<open>The web server\<close>

record http_t =
  h_open :: "int set"                     \<comment> \<open>sockets accepted and not closed\<close>
  h_out :: "(int \<times> string) list"          \<comment> \<open>what was written to which socket\<close>
  nPageHits :: "32 word"

definition starts_with :: "string \<Rightarrow> string \<Rightarrow> bool" where
  "starts_with lit buf \<longleftrightarrow> take (length lit) buf = lit"

datatype page = File string | TaskList

text \<open>The chain of \<open>strncmp\<close> calls.\<close>

definition http_route :: "string \<Rightarrow> page" where
  "http_route recv_buffer =
     (if starts_with ''GET /STM32F7xx_files/ST.gif'' recv_buffer then File ''/STM32F7xx_files/ST.gif''
      else if starts_with ''GET /STM32F7xx_files/stm32.jpg'' recv_buffer then File ''/STM32F7xx_files/stm32.jpg''
      else if starts_with ''GET /STM32F7xx_files/logo.jpg'' recv_buffer then File ''/STM32F7xx_files/logo.jpg''
      else if starts_with ''GET /STM32F7xxTASKS.html'' recv_buffer then TaskList
      else if starts_with ''GET /STM32F7xx.html'' recv_buffer \<or> starts_with ''GET / '' recv_buffer
      then File ''/STM32F7xx.html''
      else File ''/404.html'')"

text \<open>The page header, a byte array in the code, line by line; every line ends with CR LF.\<close>

definition PAGE_START :: string where
  "PAGE_START = concat (map (\<lambda>l. l @ [CHR 0x0D, CHR 0x0A])
     [''<!DOCTYPE html PUBLIC \"-//W3C//DTD HTML 4.01//EN\" \"http://www.w3.org/TR/html4/strict'' @
       ''.dtd\">'',
      ''<html>'',
      ''<head>'',
      ''  <title>STM32F7xxTASKS</title>'',
      ''  <meta http-equiv=\"Content-Type\"'',
      '' content=\"text/html; charset=windows-1252\">'',
      ''  <meta http-equiv=\"refresh\" content=\"1\">'',
      ''  <meta content=\"MSHTML 6.00.2800.1561\" name=\"GENERATOR\">'',
      ''  <style =\"font-weight: normal; font-family: Verdana;\"></style>'',
      ''</head>'',
      ''<body>'',
      ''<h4><small style=\"font-family: Verdana;\"><small><big><big><big'',
      '' style=\"font-weight: bold;\"><big><strong><em><span'',
      '' style=\"font-style: italic;\">STM32F7xx List of tasks and'',
      ''their status</span></em></strong></big></big></big></big></small></small></h4>'',
      ''<hr style=\"width: 100%; height: 2px;\"><span'',
      '' style=\"font-weight: bold;\">'',
      ''</span><span style=\"font-weight: bold;\">'',
      ''<table style=\"width: 961px; height: 30px;\" border=\"1\"'',
      '' cellpadding=\"2\" cellspacing=\"2\">'',
      ''  <tbody>'',
      ''    <tr>'',
      ''      <td'',
      '' style=\"font-family: Verdana; font-weight: bold; font-style: italic; background-colo'' @
       ''r: rgb(51, 51, 255); text-align: center;\"><small><a'',
      '' href=\"/STM32F7xx.html\"><span style=\"color: white;\">Home'',
      ''page</span></a></small></td>'',
      ''      <td'',
      '' style=\"font-family: Verdana; font-weight: bold; font-style: italic; background-colo'' @
       ''r: rgb(51, 51, 255); text-align: center;\"><a'',
      '' href=\"STM32F7xxADC.html\"><span style=\"font-weight: bold;\"></span></a><small><a'',
      '' href=\"/STM32F7xxTASKS.html\"><span style=\"color: white;\">List'',
      ''of tasks</span></a></small></td>'',
      ''    </tr>'',
      ''  </tbody>'',
      ''</table>'',
      ''<br>'',
      ''</span><span style=\"font-weight: bold;\"></span><small><span'',
      '' style=\"font-family: Verdana;\">Number of page hits:''])"

text \<open>The conversion \<open>%d\<close> of \<open>sprintf\<close>.\<close>

fun dec :: "nat \<Rightarrow> string" where
  "dec n = (if n < 10 then [char_of (48 + n)] else dec (n div 10) @ [char_of (48 + n mod 10)])"

declare dec.simps [simp del]

definition sprintf_d :: "int \<Rightarrow> string" where
  "sprintf_d i = (if i < 0 then ''-'' @ dec (nat (- i)) else dec (nat i))"

text \<open>
  What \<open>DynWebPage\<close> leaves in \<open>PAGE_BODY\<close>; \<open>tasks\<close> is the text of \<open>osThreadList\<close>.  The array has 512 bytes,
  the array \<open>pagehits\<close> 10, terminating zeros included; the code checks neither (\<open>page_fits\<close>).
\<close>

definition page_body :: "string \<Rightarrow> 32 word \<Rightarrow> string" where
  "page_body tasks hits =
     sprintf_d (sint hits) @
     ''<pre><br>Name          State  Priority  Stack   Num'' @
     ''<br>---------------------------------------------<br>'' @
     tasks @
     ''<br><br>---------------------------------------------'' @
     ''<br>B : Blocked, R : Ready, D : Deleted, S : Suspended<br>''"

definition page_fits :: "string \<Rightarrow> 32 word \<Rightarrow> bool" where
  "page_fits tasks hits \<longleftrightarrow> length (sprintf_d (sint hits)) < 10 \<and> length (page_body tasks hits) < 512"

text \<open>
  \<open>fs\<close> is the content of a file; \<open>ret\<close> is what \<open>read\<close> returned and \<open>recv_buffer\<close> the 1500 bytes of the buffer,
  of which \<open>read\<close> filled the first.
\<close>

definition DynWebPage :: "string \<Rightarrow> int \<Rightarrow> http_t \<Rightarrow> http_t" where
  "DynWebPage tasks conn s =
     (let s = s\<lparr>nPageHits := nPageHits s + 1\<rparr>
      in s\<lparr>h_out := h_out s @ [(conn, PAGE_START), (conn, page_body tasks (nPageHits s))]\<rparr>)"

definition http_server_serve ::
  "(string \<Rightarrow> string) \<Rightarrow> string \<Rightarrow> int \<Rightarrow> string \<Rightarrow> int \<Rightarrow> http_t \<Rightarrow> http_t" where
  "http_server_serve fs tasks ret recv_buffer conn s =
     (if ret < 0 then s
      else
      let s = (case http_route recv_buffer of
                 File name \<Rightarrow> s\<lparr>h_out := h_out s @ [(conn, fs name)]\<rparr>
               | TaskList \<Rightarrow> DynWebPage tasks conn s)
      in s\<lparr>h_open := h_open s - {conn}\<rparr>)"

text \<open>One round of the server: \<open>accept\<close>, then serve.\<close>

definition http_accept :: "(string \<Rightarrow> string) \<Rightarrow> string \<Rightarrow> int \<times> int \<times> string \<Rightarrow> http_t \<Rightarrow> http_t" where
  "http_accept fs tasks req s =
     (let (newconn, ret, recv_buffer) = req
      in http_server_serve fs tasks ret recv_buffer newconn (s\<lparr>h_open := insert newconn (h_open s)\<rparr>))"

lemma http_accept_open:
  "h_open (http_accept fs tasks (conn, ret, buf) s) = (if ret < 0 then insert conn (h_open s) else h_open s - {conn})"
  by (auto simp: http_accept_def http_server_serve_def DynWebPage_def Let_def split: page.split)

lemma dec_length: "length (dec n) \<le> k \<longleftrightarrow> n < 10 ^ k" if "0 < k"
  using that
proof (induction n arbitrary: k rule: dec.induct)
  case (1 n)
  show ?case
  proof (cases "n < 10")
    case True
    then have "n < 10 ^ k" using 1(2) self_le_power [of "10 :: nat" k] by simp
    then show ?thesis using True 1(2) by (simp add: dec.simps [of n])
  next
    case False
    show ?thesis
    proof (cases k)
      case (Suc j)
      have d: "n < 10 * 10 ^ j \<longleftrightarrow> n div 10 < 10 ^ j" by (simp add: div_less_iff_less_mult mult.commute)
      have "length (dec (n div 10)) \<le> j \<longleftrightarrow> n div 10 < 10 ^ j"
      proof (cases "j = 0")
        case True
        then show ?thesis using False by (subst dec.simps) auto
      next
        case False
        then show ?thesis using 1(1) \<open>\<not> n < 10\<close> by simp
      qed
      then show ?thesis using False Suc d by (simp add: dec.simps [of n])
    qed (use 1(2) in simp)
  qed
qed

text \<open>The page fits for the first thousand million hits, as long as the task list has at most 287 bytes.\<close>

lemma page_fits_bounds:
  assumes "0 \<le> sint hits" "sint hits < 10 ^ 9" "length tasks \<le> 287"
  shows "page_fits tasks hits"
proof -
  have "length (sprintf_d (sint hits)) \<le> 9"
    using assms(1,2) by (simp add: sprintf_d_def dec_length nat_less_iff)
  then show ?thesis using assms(3) by (simp add: page_fits_def page_body_def)
qed

lemma page_overflows: "\<not> page_fits tasks hits" if "sint hits \<ge> 10 ^ 9 \<or> length tasks > 295"
proof -
  obtain d ds where "sprintf_d (sint hits) = d # ds"
    using dec_length [of 1] by (cases "sprintf_d (sint hits)") (auto simp: sprintf_d_def dec.simps split: if_splits)
  moreover have "length (sprintf_d (sint hits)) > 9" if "sint hits \<ge> 10 ^ 9"
    using that dec_length [of 9 "nat (sint hits)"] by (auto simp: sprintf_d_def not_le [symmetric] nat_less_iff)
  ultimately show ?thesis using that by (auto simp: page_fits_def page_body_def)
qed

section \<open>Properties\<close>

text \<open>
  Whatever lwIP answers and whenever the link is reported up or down: a client that has given up
  runs on the static address with DHCP stopped, one that waits or is assigned has DHCP running,
  and SNTP has been started once an address other than 0.0.0.0 is assigned.  A client that is told the
  link is up asks for an address and gives up at the first look past the fourth try.
\<close>

theorem dhcp_client_invariant:
  assumes "dhcp_client_step\<^sup>*\<^sup>* client_init s"
  shows "(DHCP_state s = DHCP_TIMEOUT \<longrightarrow> \<not> dhcp_running s \<and> nif_ip s = IP_ADDR \<and> nif_gw s = GW_ADDR) \<and>
    (DHCP_state s \<in> {DHCP_WAIT_ADDRESS, DHCP_ADDRESS_ASSIGNED} \<longrightarrow> dhcp_running s) \<and>
    (DHCP_state s = DHCP_ADDRESS_ASSIGNED \<longrightarrow> nif_ip s = zero_ip \<or> sntp_enabled s) \<and>
    DHCP_state (DHCP_turn None (Suc MAX_DHCP_TRIES) (DHCP_turn lease tries (User_notification True s))) = DHCP_TIMEOUT"
  using client_steps_ok [OF assms]
  by (auto simp: client_ok_def DHCP_turn_def User_notification_def)

theorem dhcp_client_invariant_witness:
  "DHCP_state (DHCP_turn None 5 (DHCP_turn None 0 (User_notification True client_init))) = DHCP_TIMEOUT"
  using dhcp_client_invariant [OF rtranclp.rtrancl_refl, of None 0] by (simp add: MAX_DHCP_TRIES_def)

text \<open>
  \<open>ping\<close> takes the echo of the request it has just sent for its answer, at every value of the
  16-bit sequence number including the one after which it wraps, and no packet with another
  sequence number; the whole command sends \<open>count\<close> requests, 65536 for a count of 0, and its result is that of
  the last one.
\<close>

theorem ping_accepts_its_echo:
  assumes "0 \<le> ping_seq_num s" "ping_seq_num s < 65536" "0 \<le> q" "q < 65536" "length ip_header = 20"
    and "0 \<le> count" "count < 65536"
  shows "ping_result (ping_round [\<lparr>pbuf_id = 0, tot_len = 84, chain = [ip_header @ ping_send q]\<rparr>] s) =
      (if q = ping_seq_num s then 0 else -1) \<and>
    snd (ping_loop net 0 count s) = (if count = 0 then 65536 else nat count)"
proof
  have "be16 (u16 (ping_seq_num s + 1) - 1) = be16 q \<longleftrightarrow> q = ping_seq_num s"
    using be16_inj [of "u16 (ping_seq_num s + 1) - 1" q] assms(1-4)
    by (auto simp: u16_def mod_diff_left_eq)
  then show "ping_result (ping_round [\<lparr>pbuf_id = 0, tot_len = 84, chain = [ip_header @ ping_send q]\<rparr>] s) =
      (if q = ping_seq_num s then 0 else -1)"
    using assms(5) by (auto simp: ping_round_def ping_recv_def ping_send_def PBUF_IP_HLEN_def be16_def Let_def)
next
  show "snd (ping_loop net 0 count s) = (if count = 0 then 65536 else nat count)"
  proof (cases "count = 0")
    case True
    then show ?thesis
      using ping_loop_rounds [of 65535 net 1] by (subst ping_loop.simps) (simp add: Let_def u16_def)
  next
    case False
    then show ?thesis using ping_loop_rounds [of count net 0 s] assms(6,7) by simp
  qed
qed

theorem ping_accepts_its_echo_witness:
  "ping_result (ping_round [\<lparr>pbuf_id = 0, tot_len = 84, chain = [replicate 20 0 @ ping_send 65535]\<rparr>]
     \<lparr>ping_result = 0, ping_seq_num = 65535\<rparr>) = 0"
  using ping_accepts_its_echo [of "\<lparr>ping_result = 0, ping_seq_num = 65535\<rparr>" 65535 "replicate 20 0" 1] by simp

text \<open>
  A connection is closed once its page is written, but one whose request cannot be read is never
  closed: after any series of connections exactly the sockets of those with a read error are
  still open.
\<close>

theorem read_errors_leak_sockets:
  assumes "distinct (map fst reqs)" "h_open s = {}"
  shows "h_open (fold (http_accept fs tasks) reqs s) = {conn. \<exists>ret buf. (conn, ret, buf) \<in> set reqs \<and> ret < 0}"
  using assms(1)
proof (induction reqs rule: rev_induct)
  case Nil
  then show ?case using assms(2) by simp
next
  case (snoc r reqs)
  obtain conn ret buf where r: "r = (conn, ret, buf)" by (cases r)
  have "conn \<notin> fst ` set reqs" using snoc.prems r by simp
  then have "conn \<notin> {conn. \<exists>ret buf. (conn, ret, buf) \<in> set reqs \<and> ret < 0}" by force
  then show ?case using snoc by (auto simp: r http_accept_open)
qed

theorem read_errors_leak_sockets_witness:
  "h_open (fold (http_accept (\<lambda>_. []) []) [(3, -1, []), (4, 6, ''GET / '')] \<lparr>h_open = {}, h_out = [], nPageHits = 0\<rparr>) = {3}"
  using read_errors_leak_sockets [of "[(3, -1, []), (4, 6, ''GET / '')]" "\<lparr>h_open = {}, h_out = [], nPageHits = 0\<rparr>"
      "\<lambda>_. []" "[]"]
  by auto

end
