(* ===== verification/DhcpServer.thy ===== *)
theory DhcpServer
  imports Datatypes "HOL-Library.Multiset"
begin

text \<open>
  \<open>dhcp_server.c\<close>: the reply the server builds, the search for the message type among the options of
  a request, and the hand-over of a request from the receive callback to the server thread.
  Messages are lists of bytes; addresses and the transaction number keep the byte order of the
  wire.  The thread's loop over the options may not end, then its value is \<open>None\<close>.
\<close>

section \<open>Messages\<close>

definition DHCP_MSG_LEN :: nat where "DHCP_MSG_LEN = 276"
definition DHCP_PAYLOAD_LEN :: nat where "DHCP_PAYLOAD_LEN = 240"
definition DHCP_CLIENT_PORT :: int where "DHCP_CLIENT_PORT = 68"
definition DHCPDISCOVER :: octet where "DHCPDISCOVER = 1"
definition DHCPOFFER :: octet where "DHCPOFFER = 2"
definition DHCPREQUEST :: octet where "DHCPREQUEST = 3"
definition DHCPACK :: octet where "DHCPACK = 5"
definition DHCPMAGIC :: "octet list" where "DHCPMAGIC = [0x63, 0x82, 0x53, 0x63]"

text \<open>The address every client is offered.\<close>

definition dst_ip :: "octet list" where "dst_ip = [192, 168, 0, 80]"

text \<open>
  The message of \<open>send_dhcp_reply\<close>, field after field: \<open>op\<close>, \<open>htype\<close>, \<open>hlen\<close>, \<open>hops\<close>, \<open>xid\<close>, \<open>secs\<close>, \<open>flags\<close>,
  \<open>ciaddr\<close>, \<open>yiaddr\<close>, \<open>siaddr\<close>, \<open>giaddr\<close>, \<open>chaddr\<close>, \<open>sname\<close>, \<open>file\<close>, \<open>magic\<close> and 36 bytes of options.
\<close>

definition dhcp_options :: "octet list \<Rightarrow> octet \<Rightarrow> octet list" where
  "dhcp_options ip msg_type =
     [53, 1, msg_type] @ [54, 4, ip ! 0, ip ! 1, ip ! 2, ip ! 3] @ [51, 4, 0, 0, 0x0e, 0x10] @
     [1, 4, 255, 255, 255, 0] @ [255] @ replicate 14 0"

definition dhcp_reply :: "octet list \<Rightarrow> octet list \<Rightarrow> octet \<Rightarrow> octet list \<Rightarrow> octet list" where
  "dhcp_reply ip xid msg_type chaddr =
     [2, 1, 6, 0] @ take 4 xid @ replicate 4 0 @ replicate 4 0 @ dst_ip @ take 4 ip @ replicate 4 0 @
     take 6 chaddr @ replicate 10 0 @ replicate 64 0 @ replicate 128 0 @ DHCPMAGIC @ dhcp_options ip msg_type"

text \<open>
  The bytes of a received message as the thread reads them: past the end of the payload it reads
  whatever memory holds there.
\<close>

definition msg_byte :: "(nat \<Rightarrow> octet) \<Rightarrow> octet list \<Rightarrow> nat \<Rightarrow> octet" where
  "msg_byte junk payload k = (if k < length payload then payload ! k else junk k)"

definition msg_option :: "(nat \<Rightarrow> octet) \<Rightarrow> octet list \<Rightarrow> nat \<Rightarrow> octet" where
  "msg_option junk payload i = msg_byte junk payload (DHCP_PAYLOAD_LEN + i)"

definition msg_xid :: "(nat \<Rightarrow> octet) \<Rightarrow> octet list \<Rightarrow> octet list" where
  "msg_xid junk payload = map (msg_byte junk payload) [4..<8]"

definition msg_chaddr :: "(nat \<Rightarrow> octet) \<Rightarrow> octet list \<Rightarrow> octet list" where
  "msg_chaddr junk payload = map (msg_byte junk payload) [28..<44]"

text \<open>The search for option 53.  The index is assigned, not advanced: \<open>i = options[i + 1] + 2\<close>.\<close>

partial_function (option) dhcp_scan :: "(nat \<Rightarrow> octet) \<Rightarrow> nat \<Rightarrow> octet option" where
  "dhcp_scan options i =
     (if i < DHCP_MSG_LEN then
        (if options i = 53 then Some (options (i + 2))
         else dhcp_scan options (unat (options (i + 1)) + 2))
      else Some 0)"

section \<open>The server\<close>

record dhcps_t =
  dh_pcb :: "nat option"
  dh_sem :: bool                        \<comment> \<open>the binary semaphore is given\<close>
  pending_buf :: "pbuf option"
  pending_addr :: int
  dh_ip :: "octet list"
  dh_busy :: bool                       \<comment> \<open>the thread is between reading a request and freeing it\<close>
  dh_freed :: "pbuf list"
  dh_sent :: "(int \<times> octet list) list"

text \<open>\<open>pbuf_alloc\<close> may fail; \<open>udp_sendto\<close>'s result is ignored.\<close>

definition send_dhcp_reply :: "bool \<Rightarrow> int \<Rightarrow> octet list \<Rightarrow> octet \<Rightarrow> octet list \<Rightarrow> dhcps_t \<Rightarrow> dhcps_t" where
  "send_dhcp_reply alloc addr xid msg_type chaddr s =
     (let msg = dhcp_reply (dh_ip s) xid msg_type chaddr
      in if alloc then s\<lparr>dh_sent := dh_sent s @ [(addr, msg)]\<rparr> else s)"

definition dhcp_recv_cb :: "pbuf option \<Rightarrow> int \<Rightarrow> dhcps_t \<Rightarrow> dhcps_t" where
  "dhcp_recv_cb p addr s =
     (case p of
        None \<Rightarrow> s
      | Some b \<Rightarrow>
          if length (hd (chain b)) \<ge> DHCP_PAYLOAD_LEN
          then s\<lparr>pending_buf := Some b, pending_addr := addr, dh_sem := True\<rparr>
          else s\<lparr>dh_freed := dh_freed s @ [b]\<rparr>)"

text \<open>
  One turn of \<open>dhcp_server_thread\<close> in two parts, between which the callback may run: take the semaphore and
  answer, then free what is pending.
\<close>

definition dhcp_serve :: "bool \<Rightarrow> (nat \<Rightarrow> octet) \<Rightarrow> dhcps_t \<Rightarrow> dhcps_t option" where
  "dhcp_serve alloc junk s =
     (let s = s\<lparr>dh_sem := False\<rparr>
      in case pending_buf s of
           None \<Rightarrow> Some s
         | Some b \<Rightarrow>
             (let payload = hd (chain b)
              in map_option (\<lambda>dhcp_type.
                   let s = (if dhcp_type = DHCPDISCOVER then
                              send_dhcp_reply alloc (pending_addr s) (msg_xid junk payload) DHCPOFFER (msg_chaddr junk payload) s
                            else if dhcp_type = DHCPREQUEST then
                              send_dhcp_reply alloc (pending_addr s) (msg_xid junk payload) DHCPACK (msg_chaddr junk payload) s
                            else s)
                   in s\<lparr>dh_busy := True\<rparr>)
                 (dhcp_scan (msg_option junk payload) 0)))"

definition dhcp_release :: "dhcps_t \<Rightarrow> dhcps_t" where
  "dhcp_release s =
     (case pending_buf s of
        None \<Rightarrow> s\<lparr>dh_busy := False\<rparr>
      | Some b \<Rightarrow> s\<lparr>dh_freed := dh_freed s @ [b], pending_buf := None, dh_busy := False\<rparr>)"

text \<open>\<open>dhcp_server_init\<close>: what the semaphore, \<open>udp_new\<close> and \<open>udp_bind\<close> return are parameters.\<close>

datatype osStatus = osOK | osErrorOS

definition dhcp_server_init :: "bool \<Rightarrow> nat option \<Rightarrow> bool \<Rightarrow> octet list \<Rightarrow> dhcps_t \<Rightarrow> osStatus \<times> dhcps_t" where
  "dhcp_server_init sem pcb bound addr s =
     (if \<not> sem then (osErrorOS, s)
      else
      let s = s\<lparr>dh_sem := False, dh_pcb := pcb\<rparr>
      in if dh_pcb s = None then (osErrorOS, s)
         else if \<not> bound then (osErrorOS, s)
         else (osOK, s\<lparr>dh_ip := addr\<rparr>))"

definition dhcp_server_cleanup :: "dhcps_t \<Rightarrow> dhcps_t" where
  "dhcp_server_cleanup s = s\<lparr>dh_pcb := None, dh_busy := False\<rparr>"

text \<open>Callback and thread interleave.\<close>

inductive dhcp_step :: "dhcps_t \<Rightarrow> dhcps_t \<Rightarrow> bool" where
  dhcp_receive: "dh_pcb s \<noteq> None \<Longrightarrow> dhcp_step s (dhcp_recv_cb p addr s)"
| dhcp_answer: "dh_sem s \<Longrightarrow> \<not> dh_busy s \<Longrightarrow> dhcp_serve alloc junk s = Some s' \<Longrightarrow> dhcp_step s s'"
| dhcp_finish: "dh_busy s \<Longrightarrow> dhcp_step s (dhcp_release s)"

inductive_cases dhcp_stepE: "dhcp_step s s'"

section \<open>The search for the message type\<close>

lemma dhcp_scan_bounded: "unat (b :: octet) + 2 < DHCP_MSG_LEN"
proof -
  have "unat b < 2 ^ LENGTH(8)" by (rule unsigned_less)
  then show ?thesis by (simp add: DHCP_MSG_LEN_def)
qed

definition next_option :: "(nat \<Rightarrow> octet) \<Rightarrow> nat \<Rightarrow> nat" where
  "next_option options i = unat (options (i + 1)) + 2"

lemma orbit_bounded: "(next_option options ^^ n) 0 < DHCP_MSG_LEN"
proof (cases n)
  case (Suc m)
  then show ?thesis
    using dhcp_scan_bounded [of "options ((next_option options ^^ m) 0 + 1)"] by (simp add: next_option_def)
qed (simp add: DHCP_MSG_LEN_def)

lemma dhcp_scan_step:
  assumes "i < DHCP_MSG_LEN"
  shows "dhcp_scan options i =
    (if options i = 53 then Some (options (i + 2)) else dhcp_scan options (next_option options i))"
  using assms by (subst dhcp_scan.simps) (simp add: next_option_def)

lemma dhcp_scan_orbit:
  assumes "\<forall>m < n. options ((next_option options ^^ m) 0) \<noteq> 53"
  shows "dhcp_scan options 0 = dhcp_scan options ((next_option options ^^ n) 0)"
  using assms
proof (induction n)
  case (Suc n)
  then have "dhcp_scan options 0 = dhcp_scan options ((next_option options ^^ n) 0)" by simp
  also have "\<dots> = dhcp_scan options (next_option options ((next_option options ^^ n) 0))"
    using Suc.prems by (subst dhcp_scan_step [OF orbit_bounded]) simp
  finally show ?case by simp
qed simp

lemma dhcp_scan_finds:
  assumes "\<forall>m < n. options ((next_option options ^^ m) 0) \<noteq> 53" "options ((next_option options ^^ n) 0) = 53"
  shows "dhcp_scan options 0 = Some (options ((next_option options ^^ n) 0 + 2))"
  unfolding dhcp_scan_orbit [OF assms(1)] using assms(2) by (subst dhcp_scan_step [OF orbit_bounded]) simp

lemma dhcp_scan_some:
  assumes "dhcp_scan options i = Some t" "i < DHCP_MSG_LEN"
  shows "\<exists>n. options ((next_option options ^^ n) i) = 53"
proof -
  have "i < DHCP_MSG_LEN \<longrightarrow> (\<exists>n. options ((next_option options ^^ n) i) = 53)"
  proof (rule dhcp_scan.raw_induct [where P = "\<lambda>options i t. i < DHCP_MSG_LEN \<longrightarrow>
      (\<exists>n. options ((next_option options ^^ n) i) = 53)", OF _ assms(1)])
    fix f :: "(nat \<Rightarrow> octet) \<Rightarrow> nat \<Rightarrow> octet option" and options i t
    assume ih: "\<And>options i t. f options i = Some t \<Longrightarrow> i < DHCP_MSG_LEN \<longrightarrow>
        (\<exists>n. options ((next_option options ^^ n) i) = 53)"
      and s: "(if i < DHCP_MSG_LEN then if options i = 53 then Some (options (i + 2))
        else f options (unat (options (i + 1)) + 2) else Some 0) = Some t"
    show "i < DHCP_MSG_LEN \<longrightarrow> (\<exists>n. options ((next_option options ^^ n) i) = 53)"
    proof
      assume i: "i < DHCP_MSG_LEN"
      show "\<exists>n. options ((next_option options ^^ n) i) = 53"
      proof (cases "options i = 53")
        case True
        then show ?thesis by (intro exI [of _ 0]) simp
      next
        case False
        then have "f options (next_option options i) = Some t" using s i by (simp add: next_option_def)
        from ih [OF this] obtain n where "options ((next_option options ^^ n) (next_option options i)) = 53"
          using dhcp_scan_bounded by (auto simp: next_option_def)
        then show ?thesis by (metis funpow_swap1 funpow.simps(2) comp_apply)
      qed
    qed
  qed
  with assms(2) show ?thesis by blast
qed


section \<open>The reply\<close>

lemma dhcp_reply_parts:
  assumes "length ip = 4" "length xid = 4" "length chaddr \<ge> 6"
  shows "length (dhcp_reply ip xid t chaddr) = DHCP_MSG_LEN"
    "take 4 (drop 4 (dhcp_reply ip xid t chaddr)) = xid"
    "take 4 (drop 16 (dhcp_reply ip xid t chaddr)) = dst_ip"
    "take 4 (drop 20 (dhcp_reply ip xid t chaddr)) = ip"
    "take 6 (drop 28 (dhcp_reply ip xid t chaddr)) = take 6 chaddr"
    "take 4 (drop 236 (dhcp_reply ip xid t chaddr)) = DHCPMAGIC"
    "drop 240 (dhcp_reply ip xid t chaddr) = dhcp_options ip t"
  using assms
  by (simp_all add: dhcp_reply_def dhcp_options_def DHCP_MSG_LEN_def DHCPMAGIC_def dst_ip_def drop_append take_append)

lemma dhcp_reply_options:
  assumes "length ip = 4" "length xid = 4" "length chaddr \<ge> 6" "i < 36"
  shows "msg_option junk (dhcp_reply ip xid t chaddr) i = dhcp_options ip t ! i"
proof -
  have "dhcp_reply ip xid t chaddr ! (240 + i) = drop 240 (dhcp_reply ip xid t chaddr) ! i"
    using dhcp_reply_parts(1) [OF assms(1-3), of t] assms(4) by (simp add: DHCP_MSG_LEN_def)
  then show ?thesis
    using dhcp_reply_parts [OF assms(1-3), of t] assms(4)
    by (simp add: msg_option_def msg_byte_def DHCP_PAYLOAD_LEN_def DHCP_MSG_LEN_def)
qed

section \<open>Buffers\<close>

text \<open>What the server holds or has freed.\<close>

definition dh_owned :: "dhcps_t \<Rightarrow> pbuf multiset" where
  "dh_owned s = mset (dh_freed s) + (case pending_buf s of None \<Rightarrow> {#} | Some b \<Rightarrow> {#b#})"

lemma send_dhcp_reply_frame [simp]:
  "pending_buf (send_dhcp_reply alloc addr xid t ch s) = pending_buf s"
  "dh_freed (send_dhcp_reply alloc addr xid t ch s) = dh_freed s"
  by (simp_all add: send_dhcp_reply_def Let_def)

lemma dhcp_serve_owned: "dhcp_serve alloc junk s = Some s' \<Longrightarrow> dh_owned s' = dh_owned s \<and> pending_buf s' = pending_buf s \<and> dh_freed s' = dh_freed s"
  by (auto simp: dhcp_serve_def dh_owned_def Let_def split: option.splits if_splits)

lemma dhcp_release_owned: "dh_owned (dhcp_release s) = dh_owned s" "pending_buf (dhcp_release s) = None"
  by (auto simp: dhcp_release_def dh_owned_def split: option.splits)

lemma dhcp_recv_owned:
  "dh_owned (dhcp_recv_cb (Some b) addr s) =
     (if length (hd (chain b)) \<ge> DHCP_PAYLOAD_LEN
      then add_mset b (mset (dh_freed s)) else add_mset b (dh_owned s))"
  by (auto simp: dhcp_recv_cb_def dh_owned_def split: option.splits)


section \<open>Properties\<close>

text \<open>
  A client, or the server itself, reads from a reply the type the server put there, its own
  transaction number and hardware address, and the magic cookie, whatever lies in memory behind
  the message.
\<close>

theorem dhcp_reply_roundtrip:
  assumes "length ip = 4" "length xid = 4" "length chaddr \<ge> 6"
  shows "dhcp_scan (msg_option junk (dhcp_reply ip xid t chaddr)) 0 = Some t \<and>
    msg_xid junk (dhcp_reply ip xid t chaddr) = xid \<and>
    take 6 (msg_chaddr junk (dhcp_reply ip xid t chaddr)) = take 6 chaddr \<and>
    length (dhcp_reply ip xid t chaddr) = DHCP_MSG_LEN"
proof -
  let ?r = "dhcp_reply ip xid t chaddr"
  have o: "msg_option junk ?r 0 = 53" "msg_option junk ?r 2 = t"
    using dhcp_reply_options [OF assms, of 0 junk t] dhcp_reply_options [OF assms, of 2 junk t]
    by (simp_all add: dhcp_options_def)
  have b: "map (msg_byte junk ?r) [m..<n] = take (n - m) (drop m ?r)" if "n \<le> DHCP_MSG_LEN" for m n
    using that dhcp_reply_parts(1) [OF assms, of t]
    by (intro nth_equalityI) (auto simp: msg_byte_def)
  have "take 6 (take 16 (drop 28 ?r)) = take 6 (drop 28 ?r)" by (simp add: min_def)
  then show ?thesis
    using o b [of 8 4] b [of 44 28] dhcp_reply_parts [OF assms, of t] dhcp_scan_finds [of 0 "msg_option junk ?r"]
    by (simp add: msg_xid_def msg_chaddr_def DHCP_MSG_LEN_def numeral_2_eq_2)
qed

theorem dhcp_reply_roundtrip_witness:
  "dhcp_scan (msg_option (\<lambda>_. 7) (dhcp_reply [192, 168, 0, 10] [1, 2, 3, 4] DHCPACK [0, 128, 225, 0, 0, 1])) 0 = Some 5"
  using dhcp_reply_roundtrip [of "[192, 168, 0, 10]" "[1, 2, 3, 4]" "[0, 128, 225, 0, 0, 1]" "\<lambda>_. 7" DHCPACK]
  by (simp add: DHCPACK_def)

text \<open>
  C38 (termination).  The search for the message type ends exactly if one of the positions it visits holds option
  53; the bound of its loop is never reached.  A message whose options are all zero keeps the
  server thread, which runs above normal priority, in this loop for ever.
\<close>

theorem option_search_ends_iff:
  "(dhcp_scan options 0 \<noteq> None \<longleftrightarrow> (\<exists>n. options ((next_option options ^^ n) 0) = 53)) \<and>
   (next_option options ^^ n) 0 < DHCP_MSG_LEN \<and>
   dhcp_scan (\<lambda>_. 0) 0 = None"
proof -
  have iff: "dhcp_scan options 0 \<noteq> None \<longleftrightarrow> (\<exists>n. options ((next_option options ^^ n) 0) = 53)" for options
  proof
    assume "dhcp_scan options 0 \<noteq> None"
    then show "\<exists>n. options ((next_option options ^^ n) 0) = 53"
      using dhcp_scan_some [of options 0] by (auto simp: DHCP_MSG_LEN_def)
  next
    assume ex: "\<exists>n. options ((next_option options ^^ n) 0) = 53"
    let ?n = "LEAST n. options ((next_option options ^^ n) 0) = 53"
    have "\<forall>m < ?n. options ((next_option options ^^ m) 0) \<noteq> 53" using not_less_Least by blast
    from dhcp_scan_finds [OF this LeastI_ex [OF ex]] show "dhcp_scan options 0 \<noteq> None" by simp
  qed
  show ?thesis using iff [of options] iff [of "\<lambda>_. 0"] orbit_bounded by simp
qed

text \<open>
  The type is found if option 53 is the first or the second option of the message.
\<close>

theorem leading_type_found:
  assumes "\<And>i. i < length os \<Longrightarrow> options i = os ! i"
    and "os = 53 # 1 # t # rest \<or>
      os = code # of_nat (length data) # data @ 53 # 1 # t # rest \<and> length data < 256 \<and> code \<noteq> 53"
  shows "dhcp_scan options 0 = Some t"
  using assms(2)
proof
  assume os: "os = 53 # 1 # t # rest"
  then have "options 0 = 53" "options 2 = t" using assms(1) [of 0] assms(1) [of 2] by simp_all
  then show ?thesis using dhcp_scan_finds [of 0 options] by (simp add: numeral_2_eq_2)
next
  assume o: "os = code # of_nat (length data) # data @ 53 # 1 # t # rest \<and> length data < 256 \<and> code \<noteq> 53"
  define n where "n = length data"
  have os: "os = (code # of_nat n # data) @ 53 # 1 # t # rest" "n < 256" "code \<noteq> 53" using o by (simp_all add: n_def)
  have i: "options 0 = code" "options 1 = of_nat n"
    using assms(1) [of 0] assms(1) [of 1] os by simp_all
  have "options (n + 2) = os ! (n + 2)" "options (n + 4) = os ! (n + 4)"
    by (rule assms(1); simp add: os n_def)+
  then have e: "options (n + 2) = 53" "options (n + 4) = t" by (simp_all add: os nth_append n_def)
  have "next_option options 0 = n + 2"
    using i(2) os(2) by (simp add: next_option_def unsigned_of_nat take_bit_nat_eq_self)
  then show ?thesis using dhcp_scan_finds [of 1 options] i(1) os(3) e by (simp add: numeral_eq_Suc)
qed

text \<open>A request that starts with a client identifier.\<close>

theorem leading_type_found_witness:
  "dhcp_scan (\<lambda>i. if i < 8 then [61, 2, 1, 9, 53, 1, 3, 255] ! i else 0) 0 = Some 3"
  by (rule leading_type_found [of "[61, 2, 1, 9, 53, 1, 3, 255]" _ _ "[255]" 61 "[1, 9]"])
    simp_all

text \<open>
  A request is answered and freed once the thread gets to it, but one that arrives while another is
  still pending replaces it: the earlier buffer is in nobody's hands any more and is never
  given back.
\<close>

theorem pending_request_leaks:
  assumes "length (hd (chain b)) \<ge> DHCP_PAYLOAD_LEN" "pending_buf s = Some a"
  shows "dh_owned (dhcp_recv_cb (Some b) addr s) = add_mset b (dh_owned s) - {#a#} \<and>
    (dhcp_serve alloc junk (dhcp_recv_cb (Some b) addr s) = Some s' \<longrightarrow>
      dh_freed (dhcp_release s') = dh_freed s @ [b] \<and> pending_buf (dhcp_release s') = None)"
  using assms dhcp_serve_owned [of alloc junk "dhcp_recv_cb (Some b) addr s" s']
  by (auto simp: dhcp_recv_cb_def dhcp_release_def dh_owned_def)

theorem pending_request_leaks_witness:
  "dh_owned (dhcp_recv_cb (Some \<lparr>pbuf_id = 2, tot_len = 276, chain = [replicate 276 0]\<rparr>) 7
     \<lparr>dh_pcb = Some 1, dh_sem = True, pending_buf = Some \<lparr>pbuf_id = 1, tot_len = 276, chain = [replicate 276 0]\<rparr>,
       pending_addr = 5, dh_ip = [192, 168, 0, 10], dh_busy = False, dh_freed = [], dh_sent = []\<rparr>) =
   {#\<lparr>pbuf_id = 2, tot_len = 276, chain = [replicate 276 0]\<rparr>#}"
  using conjunct1 [OF pending_request_leaks [of "\<lparr>pbuf_id = 2, tot_len = 276, chain = [replicate 276 0]\<rparr>"
     "\<lparr>dh_pcb = Some 1, dh_sem = True, pending_buf = Some \<lparr>pbuf_id = 1, tot_len = 276, chain = [replicate 276 0]\<rparr>,
       pending_addr = 5, dh_ip = [192, 168, 0, 10], dh_busy = False, dh_freed = [], dh_sent = []\<rparr>"
     "\<lparr>pbuf_id = 1, tot_len = 276, chain = [replicate 276 0]\<rparr>" 7]]
  by (simp add: dh_owned_def DHCP_PAYLOAD_LEN_def)

end
