(* ===== verification/Bringup.thy ===== *)
theory Bringup
  imports Lan8742 EthFrames AppNet DhcpServer
begin

text \<open>
  Bringing the board's interface up: the glue of \<open>ethernetif.c\<close> between the transceiver driver and the HAL,
  \<open>low_level_init_phy\<close>, \<open>low_level_init\<close> and \<open>ethernetif_init\<close>, the state lwIP's \<open>netif.c\<close> keeps of the interface,
  \<open>Netif_Config\<close> and \<open>APP_Setup\<close> of \<open>app.c\<close> in the configuration of the Makefile (console and DHCP client, no DHCP
  server at start-up), and the two threads of the driver.  The HAL, which is in an empty submodule, is a parameter.
\<close>

section \<open>The interface as lwIP keeps it\<close>

definition NETIF_FLAG_UP :: octet where "NETIF_FLAG_UP = 0x01"
definition NETIF_FLAG_BROADCAST :: octet where "NETIF_FLAG_BROADCAST = 0x02"
definition NETIF_FLAG_LINK_UP :: octet where "NETIF_FLAG_LINK_UP = 0x04"
definition NETIF_FLAG_ETHARP :: octet where "NETIF_FLAG_ETHARP = 0x08"
definition NETIF_FLAG_IGMP :: octet where "NETIF_FLAG_IGMP = 0x20"

lemmas netif_flag_defs = NETIF_FLAG_UP_def NETIF_FLAG_BROADCAST_def NETIF_FLAG_LINK_UP_def NETIF_FLAG_ETHARP_def
  NETIF_FLAG_IGMP_def

text \<open>What the set-up asks of others, in order: the HAL, the RTOS, and the rest of lwIP.\<close>

datatype board_call =
    HAL_ETH_Init "octet list"
  | HAL_ETH_SetMACConfig duplex speed
  | HAL_ETH_Start_IT
  | Thread string
  | Gratuitous_ARP
  | IGMP_report_groups
  | IGMP_start
  | DHCP_network_changed

text \<open>
  \<open>gnetif\<close>, with its addresses and the DHCP client's state in \<open>net\<close>, the driver's object, the transceiver \<open>phy\<close>, the
  receive pool and the DHCP server.
\<close>

record 'd board =
  netif_flags :: octet
  netif_name :: string
  hwaddr :: "octet list"
  mtu :: nat
  net :: netif_t
  lan :: lan8742_Object_t
  phy :: 'd
  pool :: rx_pool
  dhcps :: dhcps_t
  calls :: "board_call list"

definition call :: "board_call \<Rightarrow> 'd board \<Rightarrow> 'd board" where
  "call c b = b\<lparr>calls := calls b @ [c]\<rparr>"

definition has_flag :: "octet \<Rightarrow> 'd board \<Rightarrow> bool" where
  "has_flag f b \<longleftrightarrow> netif_flags b AND f \<noteq> 0"

definition netif_is_up :: "'d board \<Rightarrow> bool" where "netif_is_up = has_flag NETIF_FLAG_UP"
definition netif_is_link_up :: "'d board \<Rightarrow> bool" where "netif_is_link_up = has_flag NETIF_FLAG_LINK_UP"

definition netif_issue_reports :: "'d board \<Rightarrow> 'd board" where
  "netif_issue_reports b =
     (if \<not> has_flag NETIF_FLAG_LINK_UP b \<or> \<not> has_flag NETIF_FLAG_UP b then b
      else if nif_ip (net b) \<noteq> zero_ip then
        (let b = (if has_flag NETIF_FLAG_ETHARP b then call Gratuitous_ARP b else b)
         in if has_flag NETIF_FLAG_IGMP b then call IGMP_report_groups b else b)
      else b)"

definition netif_set_up :: "'d board \<Rightarrow> 'd board" where
  "netif_set_up b =
     (if \<not> has_flag NETIF_FLAG_UP b then netif_issue_reports (b\<lparr>netif_flags := netif_flags b OR NETIF_FLAG_UP\<rparr>) else b)"

definition netif_set_link_up :: "'d board \<Rightarrow> 'd board" where
  "netif_set_link_up b =
     (if \<not> has_flag NETIF_FLAG_LINK_UP b then
        netif_issue_reports (call DHCP_network_changed (b\<lparr>netif_flags := netif_flags b OR NETIF_FLAG_LINK_UP\<rparr>))
      else b)"

text \<open>No link callback is ever registered.\<close>

definition netif_set_link_down :: "'d board \<Rightarrow> 'd board" where
  "netif_set_link_down b =
     (if has_flag NETIF_FLAG_LINK_UP b then b\<lparr>netif_flags := netif_flags b AND NOT NETIF_FLAG_LINK_UP\<rparr> else b)"

text \<open>The clean-up of the ARP table is lwIP's own.\<close>

definition netif_set_down :: "'d board \<Rightarrow> 'd board" where
  "netif_set_down b =
     (if has_flag NETIF_FLAG_UP b then b\<lparr>netif_flags := netif_flags b AND NOT NETIF_FLAG_UP\<rparr> else b)"

definition netif_do_set_ipaddr :: "octet list \<Rightarrow> 'd board \<Rightarrow> 'd board" where
  "netif_do_set_ipaddr ipaddr b =
     (if ipaddr \<noteq> nif_ip (net b) then netif_issue_reports (b\<lparr>net := (net b)\<lparr>nif_ip := ipaddr\<rparr>\<rparr>) else b)"

definition netif_set_addr :: "octet list \<Rightarrow> octet list \<Rightarrow> octet list \<Rightarrow> 'd board \<Rightarrow> 'd board" where
  "netif_set_addr ipaddr netmask gw b =
     (let remove = (ipaddr = zero_ip);
          b = (if remove then netif_do_set_ipaddr ipaddr b else b);
          b = b\<lparr>net := (net b)\<lparr>nif_netmask := netmask, nif_gw := gw\<rparr>\<rparr>
      in if \<not> remove then netif_do_set_ipaddr ipaddr b else b)"

text \<open>
  \<open>netif_add\<close> for an initialisation function that succeeds, as the board's always does.  The number and the list of
  interfaces, which serve boards with several, are left out.
\<close>

definition netif_add :: "octet list \<Rightarrow> octet list \<Rightarrow> octet list \<Rightarrow> ('d board \<Rightarrow> 'd board) \<Rightarrow> 'd board \<Rightarrow> 'd board" where
  "netif_add ipaddr netmask gw init b =
     (let b = b\<lparr>net := (net b)\<lparr>nif_ip := zero_ip, nif_netmask := zero_ip, nif_gw := zero_ip\<rparr>, mtu := 0, netif_flags := 0\<rparr>;
          b = netif_set_addr ipaddr netmask gw b;
          b = init b
      in if has_flag NETIF_FLAG_IGMP b then call IGMP_start b else b)"

section \<open>The driver's initialisation\<close>

datatype HAL_StatusTypeDef = HAL_OK | HAL_ERROR | HAL_BUSY | HAL_TIMEOUT

text \<open>The HAL's access to the transceiver, what three seconds do to it, and the chip's revision.\<close>

record 'd hal =
  HAL_ETH_SetMDIOClockRange :: "'d \<Rightarrow> 'd"
  HAL_ETH_ReadPHYRegister :: "32 word \<Rightarrow> 32 word \<Rightarrow> 'd \<Rightarrow> (HAL_StatusTypeDef \<times> 32 word) \<times> 'd"
  HAL_ETH_WritePHYRegister :: "32 word \<Rightarrow> 32 word \<Rightarrow> 32 word \<Rightarrow> 'd \<Rightarrow> HAL_StatusTypeDef \<times> 'd"
  phy_delay :: "nat \<Rightarrow> 'd \<Rightarrow> 'd"
  HAL_GetREVID :: "32 word"

definition ETH_PHY_IO_ReadReg :: "'d hal \<Rightarrow> 32 word \<Rightarrow> 32 word \<Rightarrow> 'd \<Rightarrow> 32 word option \<times> 'd" where
  "ETH_PHY_IO_ReadReg hal dev RegAddr d =
     (let ((status, v), d) = HAL_ETH_ReadPHYRegister hal dev RegAddr d
      in (if status = HAL_OK then Some v else None, d))"

definition ETH_PHY_IO_WriteReg :: "'d hal \<Rightarrow> 32 word \<Rightarrow> 32 word \<Rightarrow> 32 word \<Rightarrow> 'd \<Rightarrow> bool \<times> 'd" where
  "ETH_PHY_IO_WriteReg hal dev RegAddr RegVal d =
     (let (status, d) = HAL_ETH_WritePHYRegister hal dev RegAddr RegVal d
      in (status = HAL_OK, d))"

definition LAN8742_IOCtx :: "'d hal \<Rightarrow> 'd lan8742_IOCtx_t" where
  "LAN8742_IOCtx hal =
     \<lparr>io_Init = HAL_ETH_SetMDIOClockRange hal,
      io_DeInit = (\<lambda>d. (True, d)),
      WriteReg = ETH_PHY_IO_WriteReg hal,
      ReadReg = ETH_PHY_IO_ReadReg hal\<rparr>"

definition low_level_init_phy :: "'d hal \<Rightarrow> 'd board \<Rightarrow> 'd board" where
  "low_level_init_phy hal b =
     (let io = LAN8742_IOCtx hal;
          (_, obj, d) = LAN8742_DeInit io (lan b) (phy b);
          (status, obj, d) = LAN8742_Init io obj d;
          b = b\<lparr>lan := obj, phy := d\<rparr>
      in if status \<noteq> LAN8742_STATUS_OK then netif_set_down (netif_set_link_down b)
         else
      let b = b\<lparr>phy := phy_delay hal 3000 (phy b)\<rparr>;
          (PHYLinkState, d) = LAN8742_GetLinkState io (lan b) (phy b);
          b = b\<lparr>phy := d\<rparr>;
          b = (case mac_mode PHYLinkState of
                 None \<Rightarrow> netif_set_down (netif_set_link_down b)
               | Some (duplex, speed) \<Rightarrow>
                   netif_set_link_up (netif_set_up (call HAL_ETH_Start_IT (call (HAL_ETH_SetMACConfig duplex speed) b))))
      in if HAL_GetREVID hal = 0x1000 then call (Thread ''RMII_Watchdog'') b else b)"

text \<open>What \<open>HAL_ETH_Init\<close> returns is not looked at.\<close>

definition low_level_init :: "'d hal \<Rightarrow> 'd board \<Rightarrow> 'd board" where
  "low_level_init hal b =
     (let b = call (HAL_ETH_Init (hwaddr b)) b;
          b = b\<lparr>pool := pool_init\<rparr>;
          b = call (Thread ''EthIf'') b
      in low_level_init_phy hal b)"

definition MAC_ADDR :: "octet list" where
  "MAC_ADDR = [0x44, 0x49, 0x53, 0x43, 0x4F, 0x56]"

text \<open>\<open>ETH_MAX_PAYLOAD\<close> is a constant of the HAL.\<close>

definition ethernetif_init :: "'d hal \<Rightarrow> nat \<Rightarrow> 'd board \<Rightarrow> 'd board" where
  "ethernetif_init hal ETH_MAX_PAYLOAD b =
     (let b = b\<lparr>netif_name := ''st''\<rparr>;
          b = b\<lparr>hwaddr := MAC_ADDR\<rparr>;
          b = b\<lparr>mtu := ETH_MAX_PAYLOAD\<rparr>;
          b = b\<lparr>netif_flags := netif_flags b OR (NETIF_FLAG_BROADCAST OR NETIF_FLAG_ETHARP)\<rparr>;
          b = b\<lparr>netif_flags := netif_flags b OR NETIF_FLAG_IGMP\<rparr>
      in low_level_init hal b)"

section \<open>The application's set-up\<close>

definition Netif_Config :: "'d hal \<Rightarrow> nat \<Rightarrow> 'd board \<Rightarrow> 'd board" where
  "Netif_Config hal max_payload b =
     (let b = netif_add zero_ip zero_ip zero_ip (ethernetif_init hal max_payload) b
      in if netif_is_link_up b then netif_set_up b else netif_set_down b)"

text \<open>\<open>sem\<close>, \<open>pcb\<close> and \<open>bound\<close>: what the calls of \<open>dhcp_server_init\<close> return.  Its own result is not looked at.\<close>

definition APP_Setup :: "'d hal \<Rightarrow> nat \<Rightarrow> bool \<Rightarrow> nat option \<Rightarrow> bool \<Rightarrow> 'd board \<Rightarrow> 'd board" where
  "APP_Setup hal max_payload sem pcb bound b =
     (let b = call (Thread ''CLI'') b;
          b = call (Thread ''TCP/IP'') b;
          b = Netif_Config hal max_payload b;
          b = call (Thread ''HTTP'') b;
          b = b\<lparr>net := User_notification (netif_is_up b) (net b)\<rparr>;
          b = b\<lparr>dhcps := snd (dhcp_server_init sem pcb bound (nif_ip (net b)) (dhcps b))\<rparr>
      in call (Thread ''DHCP'') b)"

text \<open>
  The static data before \<open>main\<close>, and what runs afterwards: turns of the DHCP client, and the DHCP server, once the
  console starts it.  Nothing else in the program touches the interface or looks at the transceiver again.
\<close>

definition lan_init :: lan8742_Object_t where "lan_init = \<lparr>DevAddr = 0, Is_Initialized = False\<rparr>"

definition dhcps_zero :: dhcps_t where
  "dhcps_zero = \<lparr>dh_pcb = None, dh_sem = False, pending_buf = None, pending_addr = 0, dh_ip = zero_ip, dh_busy = False,
     dh_freed = [], dh_sent = []\<rparr>"

definition board_init :: "'d \<Rightarrow> 'd board" where
  "board_init d = \<lparr>netif_flags = 0, netif_name = [], hwaddr = [], mtu = 0, net = client_init, lan = lan_init, phy = d,
     pool = pool_init, dhcps = dhcps_zero, calls = []\<rparr>"

inductive app_step :: "'d board \<Rightarrow> 'd board \<Rightarrow> bool" where
  app_client: "app_step b (b\<lparr>net := DHCP_turn lease tries (net b)\<rparr>)"
| app_server: "dhcp_step (dhcps b) s \<Longrightarrow> app_step b (b\<lparr>dhcps := s\<rparr>)"

section \<open>The driver's threads\<close>

text \<open>
  One wake-up of \<open>ethernetif_input_thread\<close>: \<open>ReadData k\<close> is the HAL at its \<open>k\<close>-th call, a frame is the list of its
  buffers, and \<open>input\<close> says whether lwIP takes it.  The result lists the frames given to lwIP.
\<close>

partial_function (option) input_loop ::
  "(nat \<Rightarrow> rx_pool \<Rightarrow> nat list option \<times> rx_pool) \<Rightarrow> (nat list \<Rightarrow> bool) \<Rightarrow> nat \<Rightarrow> nat list list \<Rightarrow> rx_pool \<Rightarrow>
     (nat list list \<times> rx_pool) option" where
  "input_loop ReadData input k given s =
     (case low_level_input (ReadData k) s of
        (None, s) \<Rightarrow> Some (given, s)
      | (Some p, s) \<Rightarrow>
          if input p then input_loop ReadData input (Suc k) (given @ [p]) s
          else input_loop ReadData input (Suc k) given (fold pbuf_free_custom p s))"

definition input_wake ::
  "(nat \<Rightarrow> rx_pool \<Rightarrow> nat list option \<times> rx_pool) \<Rightarrow> (nat list \<Rightarrow> bool) \<Rightarrow> rx_pool \<Rightarrow> (nat list list \<times> rx_pool) option" where
  "input_wake ReadData input s = input_loop ReadData input 0 [] (s\<lparr>RxPktSemaphore := False\<rparr>)"

text \<open>
  \<open>RMII_Thread\<close>: at its \<open>k\<close>-th turn the MAC has counted \<open>good k\<close> good frames and \<open>crc k\<close> frames with errors.  The state
  is the register \<open>PMC\<close> and the number of times the counters were reset.
\<close>

definition SYSCFG_PMC_MII_RMII_SEL :: "32 word" where "SYSCFG_PMC_MII_RMII_SEL = 0x00800000"

partial_function (option) RMII_Thread ::
  "(nat \<Rightarrow> 32 word) \<Rightarrow> (nat \<Rightarrow> 32 word) \<Rightarrow> nat \<Rightarrow> 32 word \<times> nat \<Rightarrow> (nat \<times> 32 word \<times> nat) option" where
  "RMII_Thread good crc k s =
     (if good k > 0 then Some (k, s)
      else if crc k > 10 then
        (let PMC = fst s AND NOT SYSCFG_PMC_MII_RMII_SEL;
             PMC = PMC OR SYSCFG_PMC_MII_RMII_SEL
         in RMII_Thread good crc (Suc k) (PMC, Suc (snd s)))
      else RMII_Thread good crc (Suc k) s)"

section \<open>Lemmas\<close>

text \<open>What the interface calls leave alone.\<close>

lemma call_frame [simp]:
  "netif_flags (call c b) = netif_flags b" "net (call c b) = net b" "dhcps (call c b) = dhcps b" "lan (call c b) = lan b"
  "phy (call c b) = phy b" "hwaddr (call c b) = hwaddr b" "calls (call c b) = calls b @ [c]"
  by (simp_all add: call_def)

lemma has_flag_call [simp]: "has_flag f (call c b) = has_flag f b"
  by (simp add: has_flag_def)

lemma issue_reports_frame [simp]:
  "netif_flags (netif_issue_reports b) = netif_flags b" "net (netif_issue_reports b) = net b"
  "dhcps (netif_issue_reports b) = dhcps b"
  "HAL_ETH_Start_IT \<in> set (calls (netif_issue_reports b)) \<longleftrightarrow> HAL_ETH_Start_IT \<in> set (calls b)"
  by (simp_all add: netif_issue_reports_def Let_def)

lemma netif_set_frame [simp]:
  "net (netif_set_up b) = net b" "net (netif_set_down b) = net b"
  "net (netif_set_link_up b) = net b" "net (netif_set_link_down b) = net b"
  "dhcps (netif_set_up b) = dhcps b" "dhcps (netif_set_down b) = dhcps b"
  "dhcps (netif_set_link_up b) = dhcps b" "dhcps (netif_set_link_down b) = dhcps b"
  "HAL_ETH_Start_IT \<in> set (calls (netif_set_up b)) \<longleftrightarrow> HAL_ETH_Start_IT \<in> set (calls b)"
  "HAL_ETH_Start_IT \<in> set (calls (netif_set_down b)) \<longleftrightarrow> HAL_ETH_Start_IT \<in> set (calls b)"
  "HAL_ETH_Start_IT \<in> set (calls (netif_set_link_up b)) \<longleftrightarrow> HAL_ETH_Start_IT \<in> set (calls b)"
  "HAL_ETH_Start_IT \<in> set (calls (netif_set_link_down b)) \<longleftrightarrow> HAL_ETH_Start_IT \<in> set (calls b)"
  by (simp_all add: netif_set_up_def netif_set_down_def netif_set_link_up_def netif_set_link_down_def)

text \<open>The flags of an interface that is up, or down, on both counts.\<close>

definition if_flags :: "bool \<Rightarrow> octet" where
  "if_flags up =
     NETIF_FLAG_BROADCAST OR NETIF_FLAG_ETHARP OR NETIF_FLAG_IGMP OR (if up then NETIF_FLAG_UP OR NETIF_FLAG_LINK_UP else 0)"

lemma if_flags_up: "netif_flags b = if_flags up \<Longrightarrow> has_flag NETIF_FLAG_UP b = up"
  "netif_flags b = if_flags up \<Longrightarrow> has_flag NETIF_FLAG_LINK_UP b = up"
  "netif_flags b = if_flags up \<Longrightarrow> has_flag NETIF_FLAG_IGMP b"
  by (cases up; simp add: has_flag_def if_flags_def netif_flag_defs)+

lemma going_up: "netif_flags b = if_flags False \<Longrightarrow> netif_flags (netif_set_link_up (netif_set_up b)) = if_flags True"
  by (simp add: netif_set_link_up_def netif_set_up_def has_flag_def if_flags_def netif_flag_defs)

lemma staying_down: "netif_flags b = if_flags False \<Longrightarrow> netif_set_down (netif_set_link_down b) = b"
  by (simp add: netif_set_link_down_def netif_set_down_def if_flags_up)

text \<open>The set-up finds a link if the transceiver answers at some address and, three seconds later, reports one.\<close>

definition link_found :: "'d hal \<Rightarrow> 'd \<Rightarrow> bool" where
  "link_found hal d =
     (let (status, obj, d) = LAN8742_Init (LAN8742_IOCtx hal) lan_init d
      in status = LAN8742_STATUS_OK \<and>
         fst (LAN8742_GetLinkState (LAN8742_IOCtx hal) obj (phy_delay hal 3000 d)) > LAN8742_STATUS_LINK_DOWN)"

lemma mac_mode_None: "mac_mode s = None \<longleftrightarrow> s \<le> LAN8742_STATUS_LINK_DOWN"
  by (simp add: mac_mode_def)

lemma phy_set_up:
  fixes b :: "'d board" and hal :: "'d hal"
  assumes "netif_flags b = if_flags False" "lan b = lan_init" "HAL_ETH_Start_IT \<notin> set (calls b)"
  defines "b' \<equiv> low_level_init_phy hal b" and "found \<equiv> link_found hal (phy b)"
  shows "netif_flags b' = if_flags found" "net b' = net b" "dhcps b' = dhcps b"
    "HAL_ETH_Start_IT \<in> set (calls b') \<longleftrightarrow> found"
proof -
  let ?io = "LAN8742_IOCtx hal"
  obtain status obj d where i: "LAN8742_Init ?io lan_init (phy b) = (status, obj, d)" by (metis prod_cases3)
  obtain st d' where g: "LAN8742_GetLinkState ?io obj (phy_delay hal 3000 d) = (st, d')" by (metis prod.collapse)
  let ?b = "b\<lparr>lan := obj, phy := d\<rparr>"
  have f: "found \<longleftrightarrow> status = LAN8742_STATUS_OK \<and> LAN8742_STATUS_LINK_DOWN < st"
    by (simp add: found_def link_found_def i g)
  have di: "LAN8742_DeInit ?io (lan b) (phy b) = (LAN8742_STATUS_OK, lan_init, phy b)"
    by (simp add: LAN8742_DeInit_def assms(2)) (simp add: lan_init_def)
  have u: "b' = (if status \<noteq> LAN8742_STATUS_OK then netif_set_down (netif_set_link_down ?b)
      else (let b = ?b\<lparr>phy := d'\<rparr>;
                b = (case mac_mode st of
                 None \<Rightarrow> netif_set_down (netif_set_link_down b)
               | Some (duplex, speed) \<Rightarrow>
                   netif_set_link_up (netif_set_up (call HAL_ETH_Start_IT (call (HAL_ETH_SetMACConfig duplex speed) b))))
            in if HAL_GetREVID hal = 0x1000 then call (Thread ''RMII_Watchdog'') b else b))"
    by (simp add: b'_def low_level_init_phy_def di i g)
  have "netif_flags b' = if_flags found \<and> net b' = net b \<and> dhcps b' = dhcps b \<and>
      (HAL_ETH_Start_IT \<in> set (calls b') \<longleftrightarrow> found)"
  proof (cases "status = LAN8742_STATUS_OK \<and> LAN8742_STATUS_LINK_DOWN < st")
    case True
    then obtain m where m: "mac_mode st = Some m" using mac_mode_None [of st] by fastforce
    show ?thesis using True f assms(1) by (cases m) (simp add: u m going_up Let_def)
  next
    case False
    then have n: "status = LAN8742_STATUS_OK \<Longrightarrow> mac_mode st = None" by (simp add: mac_mode_None not_less)
    show ?thesis using False f assms(1,3) n by (auto simp add: u staying_down Let_def)
  qed
  then show "netif_flags b' = if_flags found" "net b' = net b" "dhcps b' = dhcps b"
    "HAL_ETH_Start_IT \<in> set (calls b') \<longleftrightarrow> found" by simp_all
qed

lemma setting_up:
  fixes hal :: "'d hal" and d :: 'd and mp :: nat
  defines "b \<equiv> Netif_Config hal mp (call (Thread ''TCP/IP'') (call (Thread ''CLI'') (board_init d)))"
    and "up \<equiv> link_found hal d"
  shows "netif_flags b = if_flags up" "net b = client_init" "dhcps b = dhcps_zero"
    "HAL_ETH_Start_IT \<in> set (calls b) \<longleftrightarrow> up"
proof -
  let ?i = "\<lparr>netif_flags = if_flags False, netif_name = ''st'', hwaddr = MAC_ADDR, mtu = mp, net = client_init, lan = lan_init,
    phy = d, pool = pool_init, dhcps = dhcps_zero,
    calls = [Thread ''CLI'', Thread ''TCP/IP'', HAL_ETH_Init MAC_ADDR, Thread ''EthIf'']\<rparr>"
  let ?p = "low_level_init_phy hal ?i"
  have p: "netif_flags ?p = if_flags up" "net ?p = client_init" "dhcps ?p = dhcps_zero"
    "HAL_ETH_Start_IT \<in> set (calls ?p) \<longleftrightarrow> up"
    using phy_set_up [of ?i hal] by (simp_all add: up_def)
  have "b = (let b = call IGMP_start ?p in if netif_is_link_up b then netif_set_up b else netif_set_down b)"
    using if_flags_up(3) [OF p(1)]
    by (simp add: b_def Netif_Config_def netif_add_def netif_set_addr_def netif_do_set_ipaddr_def ethernetif_init_def
        low_level_init_def board_init_def client_init_def call_def if_flags_def Let_def ac_simps)
  then show "netif_flags b = if_flags up" "net b = client_init" "dhcps b = dhcps_zero"
    "HAL_ETH_Start_IT \<in> set (calls b) \<longleftrightarrow> up"
    using p if_flags_up [OF p(1)]
    by (auto simp: Let_def netif_is_link_up_def netif_set_up_def netif_set_down_def)
qed

text \<open>What stays of a board whose set-up found a link, or none.\<close>

definition at_rest :: "bool \<Rightarrow> 'd board \<Rightarrow> bool" where
  "at_rest up b \<longleftrightarrow> netif_flags b = if_flags up \<and> (HAL_ETH_Start_IT \<in> set (calls b) \<longleftrightarrow> up) \<and> dh_ip (dhcps b) = zero_ip \<and>
     (\<not> up \<longrightarrow> DHCP_state (net b) \<in> {DHCP_LINK_DOWN, DHCP_OFF} \<and> nif_ip (net b) = zero_ip \<and> \<not> dhcp_running (net b) \<and>
        \<not> sntp_enabled (net b))"

lemma set_up_at_rest: "at_rest (link_found hal d) (APP_Setup hal mp sem pcb bound (board_init d))"
  using setting_up [of hal mp d]
  by (auto simp: at_rest_def APP_Setup_def Let_def netif_is_up_def if_flags_up dhcp_server_init_def dhcps_zero_def
      client_init_def User_notification_def)

lemma client_turns: "app_step\<^sup>*\<^sup>* b (b\<lparr>net := DHCP_turn lease tries (net b)\<rparr>)"
  by (blast intro: app_client)

lemma dhcp_step_ip: "dhcp_step s t \<Longrightarrow> dh_ip t = dh_ip s"
  by (induction rule: dhcp_step.induct)
    (auto simp: dhcp_recv_cb_def dhcp_serve_def dhcp_release_def send_dhcp_reply_def Let_def split: option.splits if_splits)

lemma app_step_rest: "app_step b c \<Longrightarrow> at_rest up b \<Longrightarrow> at_rest up c"
  by (induction rule: app_step.induct) (auto simp: at_rest_def DHCP_turn_def dhcp_step_ip)

lemma app_steps_rest: "app_step\<^sup>*\<^sup>* b c \<Longrightarrow> at_rest up b \<Longrightarrow> at_rest up c"
  by (induction rule: rtranclp_induct) (auto intro: app_step_rest)

text \<open>Every reply of the server carries the address it was initialised with, twice.\<close>

definition names_server :: "octet list \<Rightarrow> octet list \<Rightarrow> bool" where
  "names_server ip m \<longleftrightarrow> take 4 (drop 16 m) = dst_ip \<and> take 4 (drop 20 m) = ip \<and> take 6 (drop 243 m) = [54, 4] @ ip"

lemma reply_names_server:
  assumes "length ip = 4" "length xid = 4" "length chaddr \<ge> 6"
  shows "names_server ip (dhcp_reply ip xid t chaddr)"
proof -
  obtain a b c e where ip: "ip = [a, b, c, e]"
    using assms(1) by (auto simp: length_Suc_conv numeral_eq_Suc)
  have "drop 243 (dhcp_reply ip xid t chaddr) = drop 3 (drop 240 (dhcp_reply ip xid t chaddr))" by simp
  also have "take 6 \<dots> = [54, 4] @ ip"
    by (subst dhcp_reply_parts(7) [OF assms]) (simp add: dhcp_options_def ip)
  finally show ?thesis
    using dhcp_reply_parts [OF assms, of t] by (simp add: names_server_def)
qed

lemma dhcp_step_names:
  assumes "dhcp_step s t" "length (dh_ip s) = 4" "\<forall>(a, m) \<in> set (dh_sent s). names_server (dh_ip s) m"
  shows "\<forall>(a, m) \<in> set (dh_sent t). names_server (dh_ip s) m"
  using assms
  by (induction rule: dhcp_step.induct)
    (auto simp: dhcp_recv_cb_def dhcp_serve_def dhcp_release_def send_dhcp_reply_def Let_def msg_xid_def msg_chaddr_def
      split: option.splits if_splits intro!: reply_names_server)

lemma app_steps_names:
  assumes "app_step\<^sup>*\<^sup>* b c" "dh_ip (dhcps b) = zero_ip" "dh_sent (dhcps b) = []"
  shows "dh_ip (dhcps c) = zero_ip \<and> (\<forall>(a, m) \<in> set (dh_sent (dhcps c)). names_server zero_ip m)"
  using assms
proof (induction rule: rtranclp_induct)
  case (step x y)
  from step(2) show ?case
  proof cases
    case (app_server s)
    then show ?thesis
      using step(3-5) dhcp_step_names [of "dhcps x" s] dhcp_step_ip [of "dhcps x" s] by (simp add: zero_ip_def)
  qed (use step(3-5) in simp)
qed simp

text \<open>The driver's threads: the input loop ends once the HAL has no frame left, the watchdog once a good frame arrived.\<close>

lemma input_loop_ends:
  assumes "\<And>k s. n \<le> k \<Longrightarrow> fst (ReadData k s) = None"
  shows "\<exists>r. input_loop ReadData input k given s = Some r"
proof (induction "n - k" arbitrary: k given s)
  case 0
  then obtain s' where "low_level_input (ReadData k) s = (None, s')"
    using assms [of k s] by (cases "ReadData k s"; cases "RxAllocStatus s") (simp_all add: low_level_input_def)
  then show ?case by (subst input_loop.simps) simp
next
  case (Suc x)
  have "x = n - Suc k" using Suc(2) by simp
  from Suc(1) [OF this] show ?case by (subst input_loop.simps) (auto split: prod.split option.split)
qed

lemma input_loop_dry:
  assumes "input_loop ReadData input k given s = Some (given', s')" "RxAllocStatus s"
  shows "given' = given \<and> s' = s"
  using assms by (subst (asm) input_loop.simps) (simp add: low_level_input_def)

lemma rmii_skip:
  "(\<forall>i < n. good (k + i) = 0) \<Longrightarrow> \<exists>PMC r. RMII_Thread good crc k s = RMII_Thread good crc (k + n) (PMC, r) \<and>
     r = snd s + card {i \<in> {k..<k + n}. crc i > 10} \<and>
     PMC = (if \<exists>i \<in> {k..<k + n}. crc i > 10 then fst s OR SYSCFG_PMC_MII_RMII_SEL else fst s)"
proof (induction n)
  case (Suc n)
  then obtain PMC r where i: "RMII_Thread good crc k s = RMII_Thread good crc (k + n) (PMC, r)"
      "r = snd s + card {i \<in> {k..<k + n}. crc i > 10}"
      "PMC = (if \<exists>i \<in> {k..<k + n}. crc i > 10 then fst s OR SYSCFG_PMC_MII_RMII_SEL else fst s)"
    by auto
  have g: "\<not> good (k + n) > 0" using Suc(2) by simp
  have e: "{k..<k + Suc n} = insert (k + n) {k..<k + n}" by auto
  have o: "w AND NOT m OR m = w OR m" for w m :: "32 word"
    by (simp add: bit_eq_iff bit_simps) blast
  have x: "(\<exists>i \<in> {k..<k + Suc n}. crc i > 10) \<longleftrightarrow> crc (k + n) > 10 \<or> (\<exists>i \<in> {k..<k + n}. crc i > 10)"
    unfolding e by simp
  have c: "card {i \<in> {k..<k + Suc n}. crc i > 10} = card {i \<in> {k..<k + n}. crc i > 10} + (if crc (k + n) > 10 then 1 else 0)"
  proof (cases "crc (k + n) > 10")
    case True
    have "{i \<in> {k..<k + Suc n}. crc i > 10} = insert (k + n) {i \<in> {k..<k + n}. crc i > 10}" using True e by auto
    then show ?thesis using True by simp
  next
    case False
    have "{i \<in> {k..<k + Suc n}. crc i > 10} = {i \<in> {k..<k + n}. crc i > 10}" using False e by auto
    then show ?thesis using False by simp
  qed
  have u: "RMII_Thread good crc (k + n) (PMC, r) = RMII_Thread good crc (k + Suc n)
      (if crc (k + n) > 10 then (PMC OR SYSCFG_PMC_MII_RMII_SEL, Suc r) else (PMC, r))"
    using g by (subst RMII_Thread.simps) (simp add: o Let_def)
  show ?case
    unfolding i(1) u c x by (cases "crc (k + n) > 10") (simp_all add: i(2,3) or.assoc)
qed auto

lemma rmii_some:
  assumes "RMII_Thread good crc k s = Some r"
  shows "good (fst r) > 0"
proof (rule RMII_Thread.raw_induct [where P = "\<lambda>good crc k s r. good (fst r) > 0", OF _ assms])
  fix f :: "(nat \<Rightarrow> 32 word) \<Rightarrow> (nat \<Rightarrow> 32 word) \<Rightarrow> nat \<Rightarrow> 32 word \<times> nat \<Rightarrow> (nat \<times> 32 word \<times> nat) option"
    and good crc :: "nat \<Rightarrow> 32 word" and k s r
  assume ih: "\<And>good crc k s r. f good crc k s = Some r \<Longrightarrow> good (fst r) > 0"
    and s: "(if good k > 0 then Some (k, s)
      else if crc k > 10 then
        let PMC = fst s AND NOT SYSCFG_PMC_MII_RMII_SEL; PMC = PMC OR SYSCFG_PMC_MII_RMII_SEL
        in f good crc (Suc k) (PMC, Suc (snd s))
      else f good crc (Suc k) s) = Some r"
  then show "good (fst r) > 0" by (auto simp: Let_def split: if_splits)
qed

text \<open>
  The watchdog deletes itself exactly if a good frame is ever counted, at the first turn that sees one.  By then it has
  reset the interface once for every turn with too many errors, and left it in RMII mode if it touched it.
\<close>

lemma rmii_ends_iff:
  "(\<exists>r. RMII_Thread good crc 0 (PMC, 0) = Some r) \<longleftrightarrow> (\<exists>k. good k > 0)"
  "RMII_Thread good crc 0 (PMC, 0) = Some (k, PMC', resets) \<Longrightarrow>
     k = (LEAST k. good k > 0) \<and> resets = card {i \<in> {0..<k}. crc i > 10} \<and>
     PMC' = (if resets > 0 then PMC OR SYSCFG_PMC_MII_RMII_SEL else PMC)"
proof -
  have run: "RMII_Thread good crc 0 (PMC, 0) = Some (k, if \<exists>i \<in> {0..<k}. crc i > 10 then PMC OR SYSCFG_PMC_MII_RMII_SEL else PMC,
      card {i \<in> {0..<k}. crc i > 10})" if "good n > 0" and k: "k = (LEAST k. good k > 0)" for n k
  proof -
    have g: "good k > 0" unfolding k using that(1) by (rule LeastI)
    have "\<forall>i < k. good (0 + i) = 0" unfolding k using not_less_Least by (auto simp: word_gt_0)
    from rmii_skip [OF this, of crc "(PMC, 0)"] obtain P r where
      r: "RMII_Thread good crc 0 (PMC, 0) = RMII_Thread good crc k (P, r)" "r = card {i \<in> {0..<k}. crc i > 10}"
        "P = (if \<exists>i \<in> {0..<k}. crc i > 10 then PMC OR SYSCFG_PMC_MII_RMII_SEL else PMC)"
      by auto
    show ?thesis unfolding r(1) by (subst RMII_Thread.simps) (simp add: g r(2,3))
  qed
  show "(\<exists>r. RMII_Thread good crc 0 (PMC, 0) = Some r) \<longleftrightarrow> (\<exists>k. good k > 0)"
    using run rmii_some by blast
  show "k = (LEAST k. good k > 0) \<and> resets = card {i \<in> {0..<k}. crc i > 10} \<and>
     PMC' = (if resets > 0 then PMC OR SYSCFG_PMC_MII_RMII_SEL else PMC)"
    if s: "RMII_Thread good crc 0 (PMC, 0) = Some (k, PMC', resets)"
  proof -
    have "good k > 0" using rmii_some [OF s] by simp
    from run [OF this refl] s show ?thesis by (auto simp: card_gt_0_iff)
  qed
qed

section \<open>Properties\<close>

text \<open>
  C32 (functional).  The interface is what the set-up found, for good: from power-up, whatever the HAL and the transceiver
  do and whatever leases and requests come later, the interface is up, its link is up and the MAC was started exactly
  if the transceiver answered at some address and reported a link three seconds after its initialisation.  Otherwise,
  a board started without its cable for instance, it never gets an address, since no one looks at the link again.
\<close>

theorem interface_is_what_setup_found:
  assumes "app_step\<^sup>*\<^sup>* (APP_Setup hal mp sem pcb bound (board_init d)) b"
  shows "(netif_is_up b \<longleftrightarrow> link_found hal d) \<and> (netif_is_link_up b \<longleftrightarrow> link_found hal d) \<and>
    (HAL_ETH_Start_IT \<in> set (calls b) \<longleftrightarrow> link_found hal d) \<and>
    (\<not> link_found hal d \<longrightarrow> nif_ip (net b) = zero_ip \<and> \<not> dhcp_running (net b) \<and> \<not> sntp_enabled (net b))"
  using app_steps_rest [OF assms set_up_at_rest]
  by (simp add: at_rest_def netif_is_up_def netif_is_link_up_def if_flags_up)

text \<open>A transceiver at address 0 whose link comes up only after the set-up has looked, and one that is linked at once.\<close>

definition test_hal :: "(32 word \<Rightarrow> 32 word) hal" where
  "test_hal =
     \<lparr>HAL_ETH_SetMDIOClockRange = (\<lambda>d. d),
      HAL_ETH_ReadPHYRegister = (\<lambda>a r d. ((if a = 0 then HAL_OK else HAL_TIMEOUT, d r), d)),
      HAL_ETH_WritePHYRegister = (\<lambda>a r v d. (HAL_OK, d(r := v))),
      phy_delay = (\<lambda>ms d. d),
      HAL_GetREVID = 0x1000\<rparr>"

theorem interface_is_what_setup_found_witness:
  "\<not> link_found test_hal (\<lambda>_. 0) \<and> link_found test_hal ((\<lambda>_. 0)(1 := 4)) \<and>
   (let b = APP_Setup test_hal 1500 True (Some 1) True (board_init (\<lambda>_. 0));
        b' = b\<lparr>net := DHCP_turn (Some ([10, 0, 0, 7], [255, 0, 0, 0], [10, 0, 0, 1])) 0 (net b)\<rparr>
    in \<not> netif_is_up b' \<and> nif_ip (net b') = zero_ip)"
proof -
  have l: "\<not> link_found test_hal (\<lambda>_. 0)" "link_found test_hal ((\<lambda>_. 0)(1 := 4))"
    by code_simp+
  show ?thesis
    using l interface_is_what_setup_found [OF client_turns [of "APP_Setup test_hal 1500 True (Some 1) True (board_init (\<lambda>_. 0))"
        "Some ([10, 0, 0, 7], [255, 0, 0, 0], [10, 0, 0, 1])" 0]]
    by (simp add: Let_def)
qed

text \<open>
  C33 (safety).  The address of the DHCP server is copied before the board has one: at every later moment, also when the
  board has got its own address from a lease or by the fallback, every reply the server has sent offers
  192.168.0.80 in the name of the server 0.0.0.0.
\<close>

theorem dhcp_server_has_no_address:
  assumes "app_step\<^sup>*\<^sup>* (APP_Setup hal mp sem pcb bound (board_init d)) b"
  shows "\<forall>(addr, m) \<in> set (dh_sent (dhcps b)). take 4 (drop 16 m) = [192, 168, 0, 80] \<and>
    take 4 (drop 20 m) = [0, 0, 0, 0] \<and> take 6 (drop 243 m) = [54, 4, 0, 0, 0, 0]"
proof -
  have "dh_sent (dhcps (APP_Setup hal mp sem pcb bound (board_init d))) = []"
    using setting_up(3) [of hal mp d] by (simp add: APP_Setup_def Let_def dhcp_server_init_def dhcps_zero_def)
  from app_steps_names [OF assms _ this] set_up_at_rest [of hal d mp sem pcb bound]
  show ?thesis by (fastforce simp: at_rest_def names_server_def zero_ip_def dst_ip_def)
qed

text \<open>A request, and the answer of a board that has got the address 10.0.0.7.\<close>

theorem dhcp_server_has_no_address_witness:
  "\<exists>b. app_step\<^sup>*\<^sup>* (APP_Setup test_hal 1500 True (Some 7) True (board_init ((\<lambda>_. 0)(1 := 4)))) b \<and>
     nif_ip (net b) = [10, 0, 0, 7] \<and> dh_sent (dhcps b) \<noteq> [] \<and>
     (\<forall>(addr, m) \<in> set (dh_sent (dhcps b)). take 4 (drop 16 m) = [192, 168, 0, 80] \<and>
        take 4 (drop 20 m) = [0, 0, 0, 0] \<and> take 6 (drop 243 m) = [54, 4, 0, 0, 0, 0])"
proof -
  let ?d = "(\<lambda>_. 0)(1 := 4) :: 32 word \<Rightarrow> 32 word"
  let ?b = "APP_Setup test_hal 1500 True (Some 7) True (board_init ?d)"
  let ?lease = "Some ([10, 0, 0, 7], [255, 0, 0, 0], [10, 0, 0, 1])"
  let ?req = "dhcp_reply zero_ip [1, 2, 3, 4] DHCPDISCOVER [0, 1, 2, 3, 4, 5]"
  let ?buf = "\<lparr>pbuf_id = 1, tot_len = 276, chain = [?req]\<rparr>"
  have "link_found test_hal ?d" by code_simp
  then have n: "DHCP_state (net ?b) = DHCP_START" and s: "dh_pcb (dhcps ?b) = Some 7" "dh_sent (dhcps ?b) = []"
    using setting_up [of test_hal 1500 ?d]
    by (simp_all add: APP_Setup_def Let_def User_notification_def netif_is_up_def if_flags_up dhcp_server_init_def dhcps_zero_def)
  let ?n = "DHCP_turn ?lease 0 (DHCP_turn ?lease 0 (net ?b))"
  let ?s = "dhcp_recv_cb (Some ?buf) 9 (dhcps ?b)"
  have r: "dhcp_scan (msg_option (\<lambda>_. 0) ?req) 0 = Some DHCPDISCOVER" "length ?req = DHCP_MSG_LEN"
    using dhcp_reply_roundtrip [of zero_ip "[1, 2, 3, 4]" "[0, 1, 2, 3, 4, 5]" "\<lambda>_. 0" DHCPDISCOVER]
    by (simp_all add: zero_ip_def)
  then obtain t where t: "dhcp_serve True (\<lambda>_. 0) ?s = Some t" "dh_sent t \<noteq> []"
    by (simp add: dhcp_serve_def dhcp_recv_cb_def DHCP_MSG_LEN_def DHCP_PAYLOAD_LEN_def send_dhcp_reply_def Let_def)
  have sem: "dh_sem ?s" using r(2) by (simp add: dhcp_recv_cb_def DHCP_MSG_LEN_def DHCP_PAYLOAD_LEN_def)
  have busy: "\<not> dh_busy ?s"
    using setting_up(3) [of test_hal 1500 ?d]
    by (simp add: dhcp_recv_cb_def APP_Setup_def Let_def dhcp_server_init_def dhcps_zero_def)
  have 1: "app_step\<^sup>*\<^sup>* b (b\<lparr>net := DHCP_turn l 0 (DHCP_turn l 0 (net b))\<rparr>)" for b :: "(32 word \<Rightarrow> 32 word) board" and l
    using rtranclp_trans [OF client_turns [of b l 0] client_turns [of _ l 0]] by simp
  have 2: "app_step (?b\<lparr>net := ?n\<rparr>) (?b\<lparr>net := ?n, dhcps := ?s\<rparr>)"
    using app_server [of "?b\<lparr>net := ?n\<rparr>" ?s] dhcp_receive [of "dhcps ?b" "Some ?buf" 9] s(1) by simp
  have 3: "app_step (?b\<lparr>net := ?n, dhcps := ?s\<rparr>) (?b\<lparr>net := ?n, dhcps := t\<rparr>)"
    using app_server [of "?b\<lparr>net := ?n, dhcps := ?s\<rparr>" t] dhcp_answer [OF sem busy t(1)] by simp
  have run: "app_step\<^sup>*\<^sup>* ?b (?b\<lparr>net := ?n, dhcps := t\<rparr>)"
    by (rule rtranclp.rtrancl_into_rtrancl, rule rtranclp.rtrancl_into_rtrancl, rule 1 [of ?b ?lease], rule 2, rule 3)
  have ip: "nif_ip ?n = [10, 0, 0, 7]"
    using n by (simp add: DHCP_turn_def app_network_sntp_start_def zero_ip_def Let_def)
  have "nif_ip (net (?b\<lparr>net := ?n, dhcps := t\<rparr>)) = [10, 0, 0, 7]" "dh_sent (dhcps (?b\<lparr>net := ?n, dhcps := t\<rparr>)) \<noteq> []"
    by (simp_all add: ip t(2))
  with run dhcp_server_has_no_address [OF run] show ?thesis by blast
qed

end
