(* ===== verification/SyncLoop.thy ===== *)
theory SyncLoop
  imports Servo
begin

text \<open>
  The control loop of a slave.  A Sync whose times are known runs \<open>updateOffset\<close> and then
  \<open>updateClock\<close> (\<open>handleSync\<close>, \<open>handleFollowUp\<close>); the rate it commands acts on the local clock until the next
  Sync, a second later with the default interval.  The clock is a plant outside the program: it
  gains \<open>d\<close> ns per second on its own and what was commanded, up to an error \<open>e\<close> that stands for
  the resolution of the hardware, for jitter of the time stamps and for the wander of the oscillator.
\<close>

section \<open>One round\<close>

definition sync_update :: "TimeInternal \<Rightarrow> TimeInternal \<Rightarrow> TimeInternal \<Rightarrow> world \<Rightarrow> world" where
  "sync_update rx origin corr w = updateClock (on_clock (updateOffset rx origin corr) w)"

text \<open>The rate last commanded.\<close>

definition rate :: "world \<Rightarrow> int" where
  "rate w = (case last (clock_cmds w) of AdjFreq a \<Rightarrow> a | _ \<Rightarrow> 0)"

text \<open>The part of the state the loop is about; anything else may change between two rounds.\<close>

definition servo_view :: "world \<Rightarrow> Filter \<times> int \<times> Servo \<times> int" where
  "servo_view w = (ofm_filt (ptp w), observedDrift (ptp w), servo (ptp w), logSyncInterval (portDS (ptp w)))"

text \<open>From the offset \<open>x\<close> at one Sync to the offset at the next.\<close>

inductive closed_loop :: "int \<Rightarrow> int \<Rightarrow> int \<times> world \<Rightarrow> int \<times> world \<Rightarrow> bool" for d e where
  round: "offset_inputs_ok rx origin corr (ptp w) \<Longrightarrow> raw_offset rx origin corr (ptp w) = x \<Longrightarrow>
    servo_view w' = servo_view (sync_update rx origin corr w) \<Longrightarrow> \<bar>err\<bar> \<le> e \<Longrightarrow>
    closed_loop d e (x, w) (x + d + rate (sync_update rx origin corr w) + err, w')"

inductive_cases closed_loopE: "closed_loop d e (x, w) (x', w')"

section \<open>Lemmas\<close>

text \<open>The settings a slave runs with by default, once \<open>ptpdStartup\<close> has raised the gains.\<close>

definition tracking :: "world \<Rightarrow> bool" where
  "tracking w \<longleftrightarrow> pass_through (ofm_filt (ptp w)) \<and> logSyncInterval (portDS (ptp w)) = 0 \<and>
     servo_ap (servo (ptp w)) = 1 \<and> servo_ai (servo (ptp w)) = 1 \<and> \<not> noAdjust (servo (ptp w))"

lemma tracking_view:
  "servo_view w' = servo_view w \<Longrightarrow> tracking w' = tracking w \<and> observedDrift (ptp w') = observedDrift (ptp w)"
  by (simp add: servo_view_def tracking_def)

text \<open>Away from saturation a round is linear.\<close>

lemma sync_update_linear:
  assumes "tracking w" "offset_inputs_ok rx origin corr (ptp w)" "raw_offset rx origin corr (ptp w) = x"
    and "observedDrift (ptp w) = u" "\<bar>x\<bar> < 2 ^ 24" "\<bar>u\<bar> \<le> ADJ_FREQ_MAX" "\<bar>u + x\<bar> \<le> ADJ_FREQ_MAX"
    and "\<bar>u + 2 * x\<bar> \<le> ADJ_FREQ_MAX"
  shows "tracking (sync_update rx origin corr w)" "observedDrift (ptp (sync_update rx origin corr w)) = u + x"
    "rate (sync_update rx origin corr w) = - (u + 2 * x)"
proof -
  let ?v = "on_clock (updateOffset rx origin corr) w"
  note exact = updateOffset_exact [OF assms(2), unfolded assms(3)]
  have off: "offsetFromMaster (currentDS (ptp ?v)) = \<lparr>seconds = 0, nanoseconds = x\<rparr>"
    using exact(1) assms(1,5) by (simp add: tracking_def time_of_ns_small)
  have "updateClock ?v = ?v\<lparr>ptp := (ptp ?v)\<lparr>observedDrift := clamp_drift (observedDrift (ptp ?v) + x)\<rparr>,
      clock_cmds := clock_cmds ?v @ [AdjFreq (clamp_drift (- (x + clamp_drift (observedDrift (ptp ?v) + x))))]\<rparr>"
    using off assms by (intro updateClock_pi_exact) (simp_all add: tracking_def drift_ok_def)
  then have u: "sync_update rx origin corr w = ?v\<lparr>ptp := (ptp ?v)\<lparr>observedDrift := u + x\<rparr>,
      clock_cmds := clock_cmds w @ [AdjFreq (- (u + 2 * x))]\<rparr>"
    using assms(4-8) clamp_drift_bound(2) [of "u + x"] clamp_drift_bound(2) [of "- (u + 2 * x)"]
    by (simp add: sync_update_def add.commute)
  show "tracking (sync_update rx origin corr w)" "observedDrift (ptp (sync_update rx origin corr w)) = u + x"
    "rate (sync_update rx origin corr w) = - (u + 2 * x)"
    using assms(1) exact(2) by (simp_all add: u tracking_def rate_def)
qed

text \<open>So is a step of the loop: the integral absorbs the offset, which becomes the error of the integral.\<close>

lemma closed_loop_linear:
  assumes "closed_loop d e (x, w) (x', w')" "tracking w" "observedDrift (ptp w) = u"
    and "\<bar>x\<bar> < 2 ^ 24" "\<bar>u\<bar> \<le> ADJ_FREQ_MAX" "\<bar>u + x\<bar> \<le> ADJ_FREQ_MAX" "\<bar>u + 2 * x\<bar> \<le> ADJ_FREQ_MAX"
  shows "tracking w' \<and> observedDrift (ptp w') = u + x \<and> \<bar>x' - (d - (u + x))\<bar> \<le> e"
  using assms(1)
proof (rule closed_loopE)
  fix rx origin corr err
  assume s: "x' = x + d + rate (sync_update rx origin corr w) + err" "\<bar>err\<bar> \<le> e"
    "offset_inputs_ok rx origin corr (ptp w)" "raw_offset rx origin corr (ptp w) = x"
    "servo_view w' = servo_view (sync_update rx origin corr w)"
  note lin = sync_update_linear [OF assms(2) s(3,4) assms(3-7)]
  show ?thesis using tracking_view [OF s(5)] lin s(1,2) by simp
qed

text \<open>What holds after one round, and after two and more.\<close>

lemma loop_first:
  assumes "closed_loop d e (x0, w0) (x, w)" "tracking w0" "observedDrift (ptp w0) = 0" "2 * \<bar>x0\<bar> \<le> ADJ_FREQ_MAX"
  shows "tracking w \<and> observedDrift (ptp w) = x0 \<and> \<bar>x - (d - x0)\<bar> \<le> e"
  using closed_loop_linear [OF assms(1,2,3)] assms(4) by (simp add: ADJ_FREQ_MAX_def)

definition settled_loop :: "int \<Rightarrow> int \<Rightarrow> int \<times> world \<Rightarrow> bool" where
  "settled_loop d e s \<longleftrightarrow> tracking (snd s) \<and> \<bar>fst s - (d - observedDrift (ptp (snd s)))\<bar> \<le> e \<and>
     \<bar>d - observedDrift (ptp (snd s))\<bar> \<le> e"

lemma loop_second:
  assumes "closed_loop d e (x, w) (x', w')" "tracking w" "observedDrift (ptp w) = u" "\<bar>x - (d - u)\<bar> \<le> e"
    and "\<bar>u\<bar> + 2 * \<bar>d\<bar> + 3 * e \<le> ADJ_FREQ_MAX" "0 \<le> e"
  shows "settled_loop d e (x', w')"
proof -
  have b: "\<bar>u + 2 * x\<bar> \<le> \<bar>u\<bar> + 2 * \<bar>d\<bar> + 2 * e" "\<bar>u + x\<bar> \<le> \<bar>d\<bar> + e" "\<bar>x\<bar> \<le> \<bar>u\<bar> + \<bar>d\<bar> + e"
    using assms(4) by auto
  have "tracking w' \<and> observedDrift (ptp w') = u + x \<and> \<bar>x' - (d - (u + x))\<bar> \<le> e"
  proof (rule closed_loop_linear [OF assms(1-3)])
    have "\<bar>x\<bar> \<le> ADJ_FREQ_MAX" using b(3) assms(5,6) by linarith
    then show "\<bar>x\<bar> < 2 ^ 24" by (simp add: ADJ_FREQ_MAX_def)
  qed (use b assms(5,6) in linarith)+
  then show ?thesis using assms(4) by (auto simp: settled_loop_def)
qed

lemma loop_stays:
  assumes "closed_loop d e s s'" "settled_loop d e s" "2 * \<bar>d\<bar> + 3 * e + (\<bar>d\<bar> + e) \<le> ADJ_FREQ_MAX" "0 \<le> e"
  shows "settled_loop d e s'"
proof -
  obtain x w x' w' where s: "s = (x, w)" "s' = (x', w')" by fastforce
  have "\<bar>observedDrift (ptp w)\<bar> \<le> \<bar>d\<bar> + e" using assms(2) by (auto simp: settled_loop_def s)
  then show ?thesis
    unfolding s using assms by (intro loop_second [of d e x w x' w' "observedDrift (ptp w)"]) (auto simp: settled_loop_def s)
qed

text \<open>\<open>updateClock\<close> keeps the measured data; within the range it steers it also keeps the filters.\<close>

lemma updateClock_data: "currentDS (ptp (updateClock w)) = currentDS (ptp w)"
  unfolding updateClock_def updateClock_far_def updateClock_pi_def Let_def split_beta
  by (simp add: adjTime_clamp DEFAULT_PARENTS_STATS_def initClock_unfold del: ask_simps)

lemma updateClock_steers:
  assumes "offsetFromMaster (currentDS (ptp w)) = \<lparr>seconds = 0, nanoseconds = x\<rparr>" "\<bar>x\<bar> \<le> MAX_ADJ_OFFSET_NS"
  shows "Tms (ptp (updateClock w)) = Tms (ptp w)" "ofm_filt (ptp (updateClock w)) = ofm_filt (ptp w)"
    "owd_filt (ptp (updateClock w)) = owd_filt (ptp w)" "portDS (ptp (updateClock w)) = portDS (ptp w)"
proof -
  have "updateClock w = updateClock_pi w"
    using assms by (simp add: updateClock_def i32_exact MAX_ADJ_OFFSET_NS_def)
  then show "Tms (ptp (updateClock w)) = Tms (ptp w)" "ofm_filt (ptp (updateClock w)) = ofm_filt (ptp w)"
    "owd_filt (ptp (updateClock w)) = owd_filt (ptp w)" "portDS (ptp (updateClock w)) = portDS (ptp w)"
    by (simp_all add: updateClock_pi_def Let_def adjTime_clamp DEFAULT_PARENTS_STATS_def)
qed

text \<open>A Sync whose offset is steered leaves all that \<open>updateDelay\<close> reads as \<open>updateOffset\<close> left it.\<close>

lemma sync_update_steers:
  assumes "offset_inputs_ok rx origin corr (ptp w)" "pass_through (ofm_filt (ptp w))"
    "\<bar>raw_offset rx origin corr (ptp w)\<bar> \<le> MAX_ADJ_OFFSET_NS"
  shows "Tms (ptp (sync_update rx origin corr w)) = Tms (updateOffset rx origin corr (ptp w))"
    "ofm_filt (ptp (sync_update rx origin corr w)) = ofm_filt (updateOffset rx origin corr (ptp w))"
    "owd_filt (ptp (sync_update rx origin corr w)) = owd_filt (updateOffset rx origin corr (ptp w))"
    "portDS (ptp (sync_update rx origin corr w)) = portDS (updateOffset rx origin corr (ptp w))"
proof -
  let ?v = "on_clock (updateOffset rx origin corr) w"
  have "offsetFromMaster (currentDS (ptp ?v)) = \<lparr>seconds = 0, nanoseconds = raw_offset rx origin corr (ptp w)\<rparr>"
    using updateOffset_exact(1) [OF assms(1,2)] assms(3) by (simp add: time_of_ns_small MAX_ADJ_OFFSET_NS_def)
  from updateClock_steers [OF this assms(3)]
  show "Tms (ptp (sync_update rx origin corr w)) = Tms (updateOffset rx origin corr (ptp w))"
    "ofm_filt (ptp (sync_update rx origin corr w)) = ofm_filt (updateOffset rx origin corr (ptp w))"
    "owd_filt (ptp (sync_update rx origin corr w)) = owd_filt (updateOffset rx origin corr (ptp w))"
    "portDS (ptp (sync_update rx origin corr w)) = portDS (updateOffset rx origin corr (ptp w))"
    by (simp_all add: sync_update_def)
qed

lemma sync_update_data:
  "currentDS (ptp (sync_update rx origin corr w)) = currentDS (updateOffset rx origin corr (ptp w))"
  by (simp add: sync_update_def updateClock_data)

lemma updateDelay_reads:
  assumes "Tms u = Tms c" "ofm_filt u = ofm_filt c" "owd_filt u = owd_filt c" "currentDS u = currentDS c"
  shows "currentDS (updateDelay tx rx corr u) = currentDS (updateDelay tx rx corr c)"
  unfolding updateDelay_def Let_def using assms by (simp add: set_meanPathDelay_def split_beta)

section \<open>Properties\<close>




text \<open>A clock 1000 ns ahead that gains 300 ns per second: after two undisturbed rounds the integral is 300.\<close>

definition sample_slave :: world where
  "sample_slave = (boot_world calm_env)\<lparr>ptp := sample_clock\<rparr>"


end
