(* ===== verification/Exchange.thy ===== *)
theory Exchange
  imports Invariants SyncLoop
begin

text \<open>
  Two daemons and the wire between them.  What \<open>issueSync\<close> of a master puts on the wire, followed
  through lwIP's buffers, the receive queues, \<open>netRecv\<close>, \<open>handle\<close> and the handlers of a slave, into the servo.
\<close>

section \<open>The sender\<close>

text \<open>lwIP accepts every datagram and both control blocks are bound to the ports of PTP.\<close>

definition link_up :: "world \<Rightarrow> bool" where
  "link_up w \<longleftrightarrow> (\<forall>n. e_alloc (env w) n \<and> e_take (env w) n \<and> e_send (env w) n) \<and>
     (\<exists>k. eventPcb (netPath (ptp w)) = Some k \<and> local_port k w = PTP_EVENT_PORT) \<and>
     (\<exists>k. generalPcb (netPath (ptp w)) = Some k \<and> local_port k w = PTP_GENERAL_PORT)"

lemma send_up:
  assumes "link_up w"
  shows "netSendEvent buf len True time w = ((int len, e_tx (env w) (tick w + 3)),
      w\<lparr>tick := tick w + 4, sent := sent w @ [Packet (multicastAddr (netPath (ptp w))) PTP_EVENT_PORT (take len buf)]\<rparr>)"
    "netSendGeneral buf len time w = ((int len, time),
      w\<lparr>tick := tick w + 3, sent := sent w @ [Packet (multicastAddr (netPath (ptp w))) PTP_GENERAL_PORT (take len buf)]\<rparr>)"
proof -
  obtain k k' where k: "eventPcb (netPath (ptp w)) = Some k" "local_port k w = PTP_EVENT_PORT"
    "generalPcb (netPath (ptp w)) = Some k'" "local_port k' w = PTP_GENERAL_PORT"
    using assms by (auto simp: link_up_def)
  have e: "\<And>n. e_alloc (env w) n \<and> e_take (env w) n \<and> e_send (env w) n" using assms by (simp add: link_up_def)
  show "netSendEvent buf len True time w = ((int len, e_tx (env w) (tick w + 3)),
      w\<lparr>tick := tick w + 4, sent := sent w @ [Packet (multicastAddr (netPath (ptp w))) PTP_EVENT_PORT (take len buf)]\<rparr>)"
    unfolding netSendEvent_def k(1)
    by (subst netSend_bound [OF k(2)]) (simp_all add: e PTP_EVENT_PORT_def eval_nat_numeral)
  show "netSendGeneral buf len time w = ((int len, time),
      w\<lparr>tick := tick w + 3, sent := sent w @ [Packet (multicastAddr (netPath (ptp w))) PTP_GENERAL_PORT (take len buf)]\<rparr>)"
    unfolding netSendGeneral_def k(3)
    by (subst netSend_bound [OF k(4)]) (simp_all add: e PTP_GENERAL_PORT_def eval_nat_numeral)
qed

lemma link_up_frame:
  "link_up (w\<lparr>tick := n\<rparr>) = link_up w" "link_up (w\<lparr>tick := n, sent := ps\<rparr>) = link_up w"
  "netPath (f (ptp w)) = netPath (ptp w) \<Longrightarrow> link_up (on_clock f w) = link_up w"
  by (simp_all add: link_up_def local_port_def)

text \<open>The two messages of a Sync; \<open>departure\<close> is the time stamp of the frame plus the outbound latency.\<close>

definition departure :: "world \<Rightarrow> TimeInternal" where
  "departure m = addTime (e_tx (env m) (tick m + 5)) (outboundLatency (ptp m))"

definition sync_buffer :: "world \<Rightarrow> octet list" where
  "sync_buffer m = msgPackSync (ptp m) (msgObuf (ptp m))
     (fromInternalTime (e_now (env m) (tick m)) (e_timestamp (env m) (tick m + 1)))"

definition followup_buffer :: "world \<Rightarrow> octet list" where
  "followup_buffer m = msgPackFollowUp ((ptp m)\<lparr>sentSyncSequenceId := i16 (sentSyncSequenceId (ptp m) + 1)\<rparr>)
     (sync_buffer m) (fromInternalTime (departure m) (e_timestamp (env m) (tick m + 6)))"

lemma pack_obuf [simp]:
  "msgPackSync (c\<lparr>msgObuf := b\<rparr>) = msgPackSync c" "msgPackFollowUp (c\<lparr>msgObuf := b\<rparr>) = msgPackFollowUp c"
  "msgPackFollowUp (c\<lparr>msgObuf := b, sentSyncSequenceId := s\<rparr>) = msgPackFollowUp (c\<lparr>sentSyncSequenceId := s\<rparr>)"
  by (simp_all add: fun_eq_iff msgPackSync_def msgPackFollowUp_def)

lemma issueSync_sends:
  assumes "link_up m" "twoStepFlag (defaultDS (ptp m))" "seconds (e_tx (env m) (tick m + 5)) \<noteq> 0"
  shows "sent (issueSync m) = sent m @
    [Packet (multicastAddr (netPath (ptp m))) PTP_EVENT_PORT (take SYNC_LENGTH (sync_buffer m)),
     Packet (multicastAddr (netPath (ptp m))) PTP_GENERAL_PORT (take FOLLOW_UP_LENGTH (followup_buffer m))]"
proof -
  let ?m1 = "on_clock (\<lambda>c. c\<lparr>msgObuf := sync_buffer m\<rparr>) (m\<lparr>tick := tick m + 2\<rparr>)"
  let ?m2 = "on_clock (\<lambda>c. c\<lparr>sentSyncSequenceId := i16 (sentSyncSequenceId c + 1)\<rparr>)
    (?m1\<lparr>tick := tick m + 6, sent := sent m @ [Packet (multicastAddr (netPath (ptp m))) PTP_EVENT_PORT
       (take SYNC_LENGTH (sync_buffer m))]\<rparr>)"
  let ?m3 = "on_clock (\<lambda>c. c\<lparr>msgObuf := followup_buffer m\<rparr>) (?m2\<lparr>tick := tick m + 7\<rparr>)"
  have up: "link_up ?m1" "link_up ?m3" using assms(1) by (simp_all add: link_up_def local_port_def)
  have m1: "set_obuf (\<lambda>c buf. msgPackSync c buf (fromInternalTime (e_now (env m) (tick m)) (e_timestamp (env m) (Suc (tick m)))))
      (m\<lparr>tick := Suc (Suc (tick m))\<rparr>) = ?m1"
    by (simp add: set_obuf_def on_clock_def sync_buffer_def)
  have m3: "set_obuf (\<lambda>c buf. msgPackFollowUp c buf (fromInternalTime (departure m) (e_timestamp (env m) (tick m + 6))))
      (?m2\<lparr>tick := Suc (tick m + 6)\<rparr>) = ?m3"
    by (simp add: set_obuf_def on_clock_def followup_buffer_def add.commute)
  have f: "sent (issueFollowup (departure m) ?m2) = sent ?m2 @ [Packet (multicastAddr (netPath (ptp m))) PTP_GENERAL_PORT
       (take FOLLOW_UP_LENGTH (followup_buffer m))]"
    using m3 send_up(2) [OF up(2), of "followup_buffer m" FOLLOW_UP_LENGTH zero_time]
    by (simp add: issueFollowup_def Let_def split_beta FOLLOW_UP_LENGTH_def)
  have "issueSync m = issueFollowup (departure m) ?m2"
    using m1 send_up(1) [OF up(1), of "sync_buffer m" SYNC_LENGTH] assms(2,3)
    by (simp add: issueSync_def getTime_def Let_def split_beta SYNC_LENGTH_def departure_def on_clock_def
        add.commute [of "numeral _" "tick m"])
  with f show ?thesis by simp
qed

section \<open>The wire\<close>

text \<open>Unpacking reads the first bytes of the buffer only.\<close>

lemma peek_prefix:
  assumes "take n a = take n b" "n \<le> length a" "n \<le> length b"
  shows "k < n \<Longrightarrow> peek8 a k = peek8 b k" "k + 1 < n \<Longrightarrow> peek16 a k = peek16 b k"
    "k + 3 < n \<Longrightarrow> peek32 a k = peek32 b k" "k + j \<le> n \<Longrightarrow> peek_list a k j = peek_list b k j"
proof -
  have "a ! i = b ! i" if "i < n" for i
    using that assms by (metis nth_take)
  then show "k < n \<Longrightarrow> peek8 a k = peek8 b k" "k + 1 < n \<Longrightarrow> peek16 a k = peek16 b k"
    "k + 3 < n \<Longrightarrow> peek32 a k = peek32 b k" "k + j \<le> n \<Longrightarrow> peek_list a k j = peek_list b k j"
    by (auto simp: peek8_def peek16_def peek32_def peek_list_def)
qed

lemma unpack_prefix:
  assumes "take n a = take n b" "44 \<le> n" "n \<le> length a" "n \<le> length b"
  shows "msgUnpackHeader a = msgUnpackHeader b" "msgUnpackFollowUp a = msgUnpackFollowUp b"
  using peek_prefix [OF assms(1,3,4)] assms(2)
  by (simp_all add: msgUnpackHeader_def msgUnpackFollowUp_def unpackTimestamp_def CLOCK_IDENTITY_LENGTH_def)

section \<open>The receiver\<close>

text \<open>A packet as lwIP hands it over: the payload of a datagram, in any number of segments.\<close>

definition carries :: "pbuf \<Rightarrow> octet list \<Rightarrow> bool" where
  "carries p payload \<longleftrightarrow> wf_pbuf p \<and> concat (chain p) = payload \<and> 0 < length payload \<and> length payload \<le> PACKET_SIZE"

definition net_stored :: "pbuf \<Rightarrow> NetPath \<Rightarrow> nat \<Rightarrow> world \<Rightarrow> world" where
  "net_stored p net n w = on_clock (\<lambda>c. store_rx (int (tot_len p)) (concat (chain p) @ drop (tot_len p) (msgIbuf c))
     (c\<lparr>netPath := net\<rparr>)) (pbuf_free p (w\<lparr>tick := n\<rparr>))"

lemma on_clock_compose: "on_clock f (on_clock g w) = on_clock (\<lambda>c. f (g c)) w"
  by (simp add: on_clock_def)

lemma on_clock_cong: "f (ptp w) = g (ptp w) \<Longrightarrow> on_clock f w = on_clock g w"
  by (simp add: on_clock_def)

lemma on_clock_past:
  "(on_clock f w)\<lparr>tick := n\<rparr> = on_clock f (w\<lparr>tick := n\<rparr>)" "pbuf_free p (on_clock f w) = on_clock f (pbuf_free p w)"
  by (simp_all add: on_clock_def pbuf_free_def)

lemma pbuf_free_ptp [simp]: "ptp (pbuf_free p w) = ptp w" "tick (pbuf_free p w) = tick w" "env (pbuf_free p w) = env w"
  by (simp_all add: pbuf_free_def)

lemma poll_event:
  assumes "net_good w" "q_contents (eventQ (netPath (ptp w))) = p # ps" "carries p payload"
    and "length (msgIbuf (ptp w)) = PACKET_SIZE"
  shows "handle_poll w = handle_message (e_rx (env w) (tick w))
    (net_stored p ((netPath (ptp w))\<lparr>eventQ := snd (netQGet (eventQ (netPath (ptp w))))\<rparr>) (Suc (tick w)) w)"
proof -
  have g: "q_good (eventQ (netPath (ptp w)))" using assms(1) by (simp add: net_good_def)
  have f: "fst (netQGet (eventQ (netPath (ptp w)))) = Some p" using ring_get(2) [OF g] assms(2) by simp
  have t: "wf_pbuf p" "0 < tot_len p" "tot_len p \<le> PACKET_SIZE" using assms(3) by (auto simp: carries_def wf_pbuf_def)
  have "netRecvEvent (msgIbuf (ptp w)) True zero_time w =
      ((int (tot_len p), concat (chain p) @ drop (tot_len p) (msgIbuf (ptp w)), e_rx (env w) (tick w)),
       on_net (\<lambda>net. net\<lparr>eventQ := snd (netQGet (eventQ (netPath (ptp w))))\<rparr>)
         (pbuf_free p (w\<lparr>tick := Suc (tick w)\<rparr>)))"
    using f t assms(4) copy_pbuf_all [OF t(1), of "msgIbuf (ptp w)"]
    by (simp add: netRecvEvent_def netRecv_def Let_def split_beta ask_def)
  then show ?thesis
    using t(2) unfolding handle_poll_def net_stored_def
    by (simp add: on_net_def on_clock_compose) (intro arg_cong [of _ _ "handle_message _"] on_clock_cong; simp add: store_rx_def)
qed

lemma poll_general:
  assumes "net_good w" "q_contents (eventQ (netPath (ptp w))) = []"
    and "q_contents (generalQ (netPath (ptp w))) = p # ps" "carries p payload"
    and "length (msgIbuf (ptp w)) = PACKET_SIZE"
  shows "handle_poll w = handle_message (e_rx (env w) (tick w))
    (net_stored p ((netPath (ptp w))\<lparr>generalQ := snd (netQGet (generalQ (netPath (ptp w))))\<rparr>) (Suc (tick w)) w)"
proof -
  have g: "q_good (eventQ (netPath (ptp w)))" "q_good (generalQ (netPath (ptp w)))"
    using assms(1) by (simp_all add: net_good_def)
  have f: "fst (netQGet (generalQ (netPath (ptp w)))) = Some p" using ring_get(2) [OF g(2)] assms(3) by simp
  have t: "wf_pbuf p" "0 < tot_len p" "tot_len p \<le> PACKET_SIZE" using assms(4) by (auto simp: carries_def wf_pbuf_def)
  have e: "netRecvEvent (msgIbuf (ptp w)) True zero_time w = ((0, msgIbuf (ptp w), zero_time), w)"
    by (simp add: netRecvEvent_def netRecv_empty [OF g(1) assms(2)] on_net_def on_clock_def)
  let ?v = "on_clock (store_rx 0 (msgIbuf (ptp w))) w"
  have "netRecvGeneral (msgIbuf (ptp ?v)) True zero_time ?v =
      ((int (tot_len p), concat (chain p) @ drop (tot_len p) (msgIbuf (ptp w)), e_rx (env w) (tick w)),
       on_net (\<lambda>net. net\<lparr>generalQ := snd (netQGet (generalQ (netPath (ptp w))))\<rparr>)
         (pbuf_free p (?v\<lparr>tick := Suc (tick w)\<rparr>)))"
    using f t assms(5) copy_pbuf_all [OF t(1), of "msgIbuf (ptp w)"]
    by (simp add: netRecvGeneral_def netRecv_def Let_def split_beta ask_def store_rx_def)
  then show ?thesis
    using t(2) unfolding handle_poll_def net_stored_def
    by (simp add: e on_net_def on_clock_past on_clock_compose)
      (intro arg_cong [of _ _ "handle_message _"] on_clock_cong; simp add: store_rx_def)
qed

text \<open>The message that a port in one of the slave's states accepts from its master.\<close>

definition from_master :: "int \<Rightarrow> MsgHeader \<Rightarrow> PtpClock \<Rightarrow> bool" where
  "from_master t h c \<longleftrightarrow> messageType h = t \<and> versionPTP h = versionNumber (portDS c) \<and>
     h_domainNumber h = d_domainNumber (defaultDS c) \<and>
     \<not> isSamePortIdentity (portIdentity (portDS c)) (sourcePortIdentity h) \<and>
     isSamePortIdentity (parentPortIdentity (parentDS c)) (sourcePortIdentity h) \<and>
     (portState (portDS c) = PTP_UNCALIBRATED \<or> portState (portDS c) = PTP_SLAVE)"

definition arrival :: "TimeInternal \<Rightarrow> PtpClock \<Rightarrow> TimeInternal" where
  "arrival time c = (if seconds time > 0 then subTime time (inboundLatency c) else time)"

definition opened :: "MsgHeader \<Rightarrow> PtpClock \<Rightarrow> PtpClock" where
  "opened h c = c\<lparr>messageActivity := True, msgTmpHeader := h\<rparr>"

lemma opened_simps [simp]:
  "portDS (opened h c) = portDS c" "defaultDS (opened h c) = defaultDS c" "parentDS (opened h c) = parentDS c"
  "inboundLatency (opened h c) = inboundLatency c" "msgTmpHeader (opened h c) = h" "msgIbuf (opened h c) = msgIbuf c"
  "msgIbufLength (opened h c) = msgIbufLength c" "waitingForFollowUp (opened h c) = waitingForFollowUp c"
  "recvSyncSequenceId (opened h c) = recvSyncSequenceId c" "correctionField_sync (opened h c) = correctionField_sync c"
  "timestamp_syncRecieve (opened h c) = timestamp_syncRecieve c"
  by (simp_all add: opened_def)

lemma handle_message_opens:
  assumes "versionPTP h = versionNumber (portDS (ptp v))" "h_domainNumber h = d_domainNumber (defaultDS (ptp v))"
    and "msgUnpackHeader (msgIbuf (ptp v)) = h" "int HEADER_LENGTH \<le> msgIbufLength (ptp v)"
  shows "handle_message time v = dispatch time (on_clock (opened h) v)"
proof -
  have "on_clock (\<lambda>c. c\<lparr>msgTmpHeader := msgUnpackHeader (msgIbuf c)\<rparr>) (on_clock (\<lambda>c. c\<lparr>messageActivity := True\<rparr>) v) =
      on_clock (opened h) v"
    unfolding on_clock_compose by (rule on_clock_cong) (simp add: assms(3) opened_def)
  then show ?thesis
    using assms unfolding handle_message_def Let_def by (simp add: hdr_def)
qed

lemma from_masterD:
  "from_master t h c \<Longrightarrow> versionPTP h = versionNumber (portDS c)"
  "from_master t h c \<Longrightarrow> h_domainNumber h = d_domainNumber (defaultDS c)"
  by (simp_all add: from_master_def)

lemma dispatch_master:
  assumes "from_master t h (ptp v)"
  shows "t = SYNC \<Longrightarrow> dispatch time (on_clock (opened h) v) =
      handleSync (arrival time (ptp v)) False (on_clock (opened h) v)"
    "t = FOLLOW_UP \<Longrightarrow> dispatch time (on_clock (opened h) v) = handleFollowUp False (on_clock (opened h) v)"
  using assms unfolding dispatch_def Let_def
  by (simp_all add: hdr_def from_master_def arrival_def msg_type_defs)

lemma handle_message_sync:
  assumes "from_master SYNC h (ptp v)" "msgUnpackHeader (msgIbuf (ptp v)) = h"
    and "getFlag (uint (flagField h ! 0)) FLAG0_TWO_STEP" "int SYNC_LENGTH \<le> msgIbufLength (ptp v)"
  shows "handle_message time v = on_clock (\<lambda>c. (opened h c)\<lparr>
    timestamp_syncRecieve := arrival time c, waitingForFollowUp := True, recvSyncSequenceId := sequenceId h,
    correctionField_sync := scaledNanosecondsToInternalTime (correctionfield h)\<rparr>) v"
proof -
  let ?v = "on_clock (opened h) v"
  have l: "int HEADER_LENGTH \<le> msgIbufLength (ptp v)" using assms(4) by (simp add: HEADER_LENGTH_def SYNC_LENGTH_def)
  have "handle_message time v = handleSync (arrival time (ptp v)) False ?v"
    by (simp only: handle_message_opens [OF from_masterD [OF assms(1)] assms(2) l] dispatch_master(1) [OF assms(1) refl])
  also have "\<dots> = handleSync_slave (arrival time (ptp v)) False ?v"
    using assms(1,4) unfolding handleSync_def by (auto simp: from_master_def port_state_def)
  also have "\<dots> = on_clock (\<lambda>c. (opened h c)\<lparr>
    timestamp_syncRecieve := arrival time c, waitingForFollowUp := True, recvSyncSequenceId := sequenceId h,
    correctionField_sync := scaledNanosecondsToInternalTime (correctionfield h)\<rparr>) v"
    using assms(1,3) unfolding handleSync_slave_def Let_def
    by (simp add: from_master_def from_parent_def two_step_msg_def hdr_def on_clock_compose)
  finally show ?thesis .
qed

lemma handle_message_followup:
  assumes "from_master FOLLOW_UP h (ptp v)" "msgUnpackHeader (msgIbuf (ptp v)) = h"
    and "waitingForFollowUp (ptp v)" "recvSyncSequenceId (ptp v) = sequenceId h"
    and "int FOLLOW_UP_LENGTH \<le> msgIbufLength (ptp v)"
  defines "u \<equiv> on_clock (\<lambda>c. (opened h c)\<lparr>msgTmp := TmpFollow (msgUnpackFollowUp (msgIbuf (ptp v))),
      waitingForFollowUp := False\<rparr>) v"
  shows "handle_message time v = issueDelayReqTimerExpired (sync_update (timestamp_syncRecieve (ptp v))
      (toInternalTime (e_time (env v) (tick v)) (preciseOriginTimestamp (msgUnpackFollowUp (msgIbuf (ptp v)))))
      (addTime (scaledNanosecondsToInternalTime (correctionfield h)) (correctionField_sync (ptp v)))
      (u\<lparr>tick := Suc (tick v)\<rparr>))"
proof -
  let ?v = "on_clock (opened h) v"
  have l: "int HEADER_LENGTH \<le> msgIbufLength (ptp v)" using assms(5) by (simp add: HEADER_LENGTH_def FOLLOW_UP_LENGTH_def)
  have "handle_message time v = handleFollowUp False ?v"
    by (simp only: handle_message_opens [OF from_masterD [OF assms(1)] assms(2) l] dispatch_master(2) [OF assms(1) refl])
  also have "\<dots> = handleFollowUp_slave ?v"
    using assms(1,5) unfolding handleFollowUp_def by (auto simp: from_master_def port_state_def)
  also have "\<dots> = issueDelayReqTimerExpired (sync_update (timestamp_syncRecieve (ptp v))
      (toInternalTime (e_time (env v) (tick v)) (preciseOriginTimestamp (msgUnpackFollowUp (msgIbuf (ptp v)))))
      (addTime (scaledNanosecondsToInternalTime (correctionfield h)) (correctionField_sync (ptp v)))
      (u\<lparr>tick := Suc (tick v)\<rparr>))"
    using assms(1,3,4) unfolding handleFollowUp_slave_def Let_def sync_update_def u_def
    by (simp add: from_master_def from_parent_def hdr_def on_clock_compose on_clock_past split_beta)
      (intro arg_cong [of _ _ issueDelayReqTimerExpired] arg_cong [of _ _ updateClock] on_clock_cong, simp)
  finally show ?thesis .
qed

section \<open>From end to end\<close>

definition slave_of :: "PtpClock \<Rightarrow> PtpClock \<Rightarrow> bool" where
  "slave_of m c \<longleftrightarrow> versionNumber (portDS c) = versionNumber (portDS m) \<and>
     d_domainNumber (defaultDS c) = d_domainNumber (defaultDS m) \<and>
     \<not> isSamePortIdentity (portIdentity (portDS c)) (portIdentity (portDS m)) \<and>
     isSamePortIdentity (parentPortIdentity (parentDS c)) (portIdentity (portDS m)) \<and>
     (portState (portDS c) = PTP_UNCALIBRATED \<or> portState (portDS c) = PTP_SLAVE)"

lemma slave_from_master: "slave_of m c \<Longrightarrow> from_master t (port_header m fl t len cf seq ctrl lmi) c"
  by (simp add: slave_of_def from_master_def port_header_def)

text \<open>The headers on the wire.\<close>

lemma sync_headers:
  assumes "packed_header (ptp m) (msgObuf (ptp m))" "wf_port_header (ptp m)" "twoStepFlag (defaultDS (ptp m))"
  obtains fl s where "msgUnpackHeader (sync_buffer m) = port_header (ptp m) fl SYNC SYNC_LENGTH 0 s CTRL_SYNC
      (i8 (logSyncInterval (portDS (ptp m))))"
    "msgUnpackHeader (followup_buffer m) = port_header (ptp m) fl FOLLOW_UP FOLLOW_UP_LENGTH 0 s CTRL_FOLLOW_UP
      (i8 (logSyncInterval (portDS (ptp m))))"
    "uint (fl ! 0) = FLAG0_TWO_STEP" "length (sync_buffer m) = PACKET_SIZE" "length (followup_buffer m) = PACKET_SIZE"
proof -
  let ?c = "(ptp m)\<lparr>sentSyncSequenceId := i16 (sentSyncSequenceId (ptp m) + 1)\<rparr>"
  let ?b = "msgObuf (ptp m)"
  note s = header_msgPackSync [OF assms(1,2), of "fromInternalTime (e_now (env m) (tick m)) (e_timestamp (env m) (tick m + 1))",
      folded sync_buffer_def]
  have c: "packed_header ?c (sync_buffer m)" "wf_port_header ?c"
    using s(1) assms(2) by (simp_all add: packed_header_def wf_port_header_def)
  note f = header_msgPackFollowUp [OF c, of "fromInternalTime (departure m) (e_timestamp (env m) (tick m + 6))",
      folded followup_buffer_def]
  have wrap: "i16 (i16 (x + 1) - 1) = i16 x" for x :: int
    by (simp add: c_conv mod_diff_left_eq algebra_simps)
  have fl: "peek_list (sync_buffer m) 6 2 = peek_list ?b 6 2"
    using arg_cong [OF s(2), of flagField] by (simp add: msgUnpackHeader_def port_header_def)
  have "port_header ?c = port_header (ptp m)" by (simp add: fun_eq_iff port_header_def)
  then have "msgUnpackHeader (followup_buffer m) = port_header (ptp m) (peek_list ?b 6 2) FOLLOW_UP FOLLOW_UP_LENGTH 0
      (i16 (sentSyncSequenceId (ptp m))) CTRL_FOLLOW_UP (i8 (logSyncInterval (portDS (ptp m))))"
    using f(2) s(2) by (simp add: fl wrap) (simp add: port_header_def)
  moreover have "uint (peek_list ?b 6 2 ! 0) = FLAG0_TWO_STEP"
    using assms(1,3) by (simp add: packed_header_def peek_list_def peek8_def)
  ultimately show ?thesis using that s f(1) by (auto simp: packed_header_def)
qed

lemma received_prefix:
  assumes "carries p (take n b)" "n \<le> length b" "44 \<le> n" "length ibuf = PACKET_SIZE" "n \<le> PACKET_SIZE"
  shows "tot_len p = n" "msgUnpackHeader (concat (chain p) @ drop (tot_len p) ibuf) = msgUnpackHeader b"
    "msgUnpackFollowUp (concat (chain p) @ drop (tot_len p) ibuf) = msgUnpackFollowUp b"
    "length (concat (chain p) @ drop (tot_len p) ibuf) = PACKET_SIZE"
proof -
  show t: "tot_len p = n" using assms(1,2) by (simp add: carries_def wf_pbuf_def)
  have c: "concat (chain p) = take n b" using assms(1) by (simp add: carries_def)
  have "take n (concat (chain p) @ drop (tot_len p) ibuf) = take n b" using assms(2) by (simp add: c)
  from unpack_prefix [OF this assms(3)] assms(2,4,5)
  show "msgUnpackHeader (concat (chain p) @ drop (tot_len p) ibuf) = msgUnpackHeader b"
    "msgUnpackFollowUp (concat (chain p) @ drop (tot_len p) ibuf) = msgUnpackFollowUp b"
    "length (concat (chain p) @ drop (tot_len p) ibuf) = PACKET_SIZE"
    by (simp_all add: c t)
qed

lemma handle_polls: "net_good w \<Longrightarrow> messageActivity (ptp w) \<or> backlog w > 0 \<Longrightarrow> handle w = handle_poll w"
  using ring_get(4) [of "eventQ (netPath (ptp w))"] ring_get(4) [of "generalQ (netPath (ptp w))"]
  by (auto simp: handle_def netSelect_def net_good_def backlog_def Let_def)

text \<open>What runs after the servo leaves the offset alone.\<close>

lemma updateClock_currentDS [simp]: "currentDS (ptp (updateClock w)) = currentDS (ptp w)"
  unfolding updateClock_def updateClock_far_def updateClock_pi_def Let_def split_beta
  by (simp add: adjTime_clamp DEFAULT_PARENTS_STATS_def del: ask_simps)

lemma issueDelayReqTimerExpired_currentDS [simp]:
  "currentDS (ptp (issueDelayReqTimerExpired w)) = currentDS (ptp w)"
proof -
  have t: "currentDS (ptp (timerStartRand k n v)) = currentDS (ptp v)" "currentDS (ptp (snd (timerExpired k v))) = currentDS (ptp v)"
    for k n v by (simp_all add: timerStartRand_def Let_def split_beta)
  have "currentDS (ptp (issueDelayReq v)) = currentDS (ptp v)" "currentDS (ptp (issuePDelayReq v)) = currentDS (ptp v)" for v
    unfolding issueDelayReq_def issuePDelayReq_def Let_def split_beta netSendEvent_def netSendPeerEvent_def
    by (simp_all add: netSend_length DELAY_REQ_LENGTH_def PDELAY_REQ_LENGTH_def set_obuf_def getTime_def)
  then show ?thesis
    unfolding issueDelayReqTimerExpired_def Let_def split_beta by (simp add: t split: delay_mechanism.split)
qed

lemma time_roundtrip:
  assumes "wf_time t" "0 \<le> seconds t" "0 \<le> nanoseconds t" "seconds t < INT_MAX"
  shows "wf_Timestamp (fromInternalTime t ext)" "toInternalTime old (fromInternalTime t ext) = t"
  using assms to_from_InternalTime [OF assms]
  by (auto simp: fromInternalTime_nonneg wf_Timestamp_def wf_time_def is_i32_def is_u32_def is_u16_def)

text \<open>The first of the two messages: the Sync is on record.\<close>

lemma sync_recorded:
  assumes "slave_of m (ptp w)" "length (msgIbuf (ptp w)) = PACKET_SIZE" "net_good w"
    and "q_contents (eventQ (netPath (ptp w))) = p # ps" "carries p (take SYNC_LENGTH b)" "length b = PACKET_SIZE"
    and "msgUnpackHeader b = port_header m fl SYNC SYNC_LENGTH 0 s ctrl lmi" "uint (fl ! 0) = FLAG0_TWO_STEP"
  obtains f n where "handle w = on_clock f (pbuf_free p (w\<lparr>tick := n\<rparr>))"
    "slave_of m (f (ptp w))" "messageActivity (f (ptp w))" "length (msgIbuf (f (ptp w))) = PACKET_SIZE"
    "timestamp_syncRecieve (f (ptp w)) = arrival (e_rx (env w) (tick w)) (ptp w)" "waitingForFollowUp (f (ptp w))"
    "recvSyncSequenceId (f (ptp w)) = s" "correctionField_sync (f (ptp w)) = zero_time"
    "netPath (f (ptp w)) = (netPath (ptp w))\<lparr>eventQ := snd (netQGet (eventQ (netPath (ptp w))))\<rparr>"
    "currentDS (f (ptp w)) = currentDS (ptp w)" "portDS (f (ptp w)) = portDS (ptp w)" "ofm_filt (f (ptp w)) = ofm_filt (ptp w)"
    "events (f (ptp w)) = events (ptp w)" "recommendedState (f (ptp w)) = recommendedState (ptp w)"
proof -
  let ?net = "(netPath (ptp w))\<lparr>eventQ := snd (netQGet (eventQ (netPath (ptp w))))\<rparr>"
  let ?v = "net_stored p ?net (Suc (tick w)) w"
  have r: "tot_len p = SYNC_LENGTH" "msgUnpackHeader (concat (chain p) @ drop (tot_len p) (msgIbuf (ptp w))) = msgUnpackHeader b"
    "length (concat (chain p) @ drop (tot_len p) (msgIbuf (ptp w))) = PACKET_SIZE"
    using received_prefix [OF assms(5) _ _ assms(2)] assms(6) by (simp_all add: SYNC_LENGTH_def PACKET_SIZE_def)
  define h where "h = port_header m fl SYNC SYNC_LENGTH 0 s ctrl lmi"
  have p: "ptp ?v = store_rx (int (tot_len p)) (concat (chain p) @ drop (tot_len p) (msgIbuf (ptp w))) ((ptp w)\<lparr>netPath := ?net\<rparr>)"
    by (simp add: net_stored_def)
  have "slave_of m (ptp ?v)" using assms(1) by (simp add: p slave_of_def store_rx_def)
  then have "from_master SYNC h (ptp ?v)" unfolding h_def by (rule slave_from_master)
  moreover have "msgUnpackHeader (msgIbuf (ptp ?v)) = h" by (simp only: p store_rx_def) (simp add: r(2) assms(7) h_def)
  moreover have "getFlag (uint (flagField h ! 0)) FLAG0_TWO_STEP"
    using assms(8) by (simp add: h_def port_header_def getFlag_def)
  moreover have "int SYNC_LENGTH \<le> msgIbufLength (ptp ?v)" by (simp add: p store_rx_def r(1))
  ultimately have hm: "handle_message (e_rx (env w) (tick w)) ?v = on_clock (\<lambda>c. (opened h c)\<lparr>
      timestamp_syncRecieve := arrival (e_rx (env w) (tick w)) c, waitingForFollowUp := True,
      recvSyncSequenceId := sequenceId h,
      correctionField_sync := scaledNanosecondsToInternalTime (correctionfield h)\<rparr>) ?v"
    by (rule handle_message_sync)
  have "backlog w > 0" using assms(4) by (simp add: backlog_def)
  then have "handle w = handle_message (e_rx (env w) (tick w)) ?v"
    using handle_polls [OF assms(3)] poll_event [OF assms(3,4,5,2)] by simp
  note run = this [unfolded hm, unfolded net_stored_def on_clock_compose]
  show ?thesis
    by (rule that [OF run])
      (use assms(1) r(3) in \<open>simp_all add: slave_of_def store_rx_def opened_def h_def port_header_def arrival_def
        scaledNanosecondsToInternalTime_def zero_time_def\<close>)
qed

text \<open>The second one is what the servo is run with.\<close>

lemma followup_applied:
  assumes "slave_of m (ptp v)" "length (msgIbuf (ptp v)) = PACKET_SIZE" "net_good v"
    and "q_contents (eventQ (netPath (ptp v))) = []" "q_contents (generalQ (netPath (ptp v))) = q # qs"
    and "carries q (take FOLLOW_UP_LENGTH b)" "length b = PACKET_SIZE"
    and "msgUnpackHeader b = port_header m fl FOLLOW_UP FOLLOW_UP_LENGTH 0 s ctrl lmi"
    and "waitingForFollowUp (ptp v)" "recvSyncSequenceId (ptp v) = s" "correctionField_sync (ptp v) = zero_time"
  obtains u old where "handle v = issueDelayReqTimerExpired (sync_update (timestamp_syncRecieve (ptp v))
      (toInternalTime old (preciseOriginTimestamp (msgUnpackFollowUp b))) zero_time u)"
    "currentDS (ptp u) = currentDS (ptp v)" "portDS (ptp u) = portDS (ptp v)" "ofm_filt (ptp u) = ofm_filt (ptp v)"
    "events (ptp u) = events (ptp v)" "recommendedState (ptp u) = recommendedState (ptp v)"
proof -
  let ?buf = "concat (chain q) @ drop (tot_len q) (msgIbuf (ptp v))"
  let ?net = "(netPath (ptp v))\<lparr>generalQ := snd (netQGet (generalQ (netPath (ptp v))))\<rparr>"
  define x where "x = net_stored q ?net (Suc (tick v)) v"
  have r: "tot_len q = FOLLOW_UP_LENGTH" "msgUnpackHeader ?buf = msgUnpackHeader b" "msgUnpackFollowUp ?buf = msgUnpackFollowUp b"
    using received_prefix [OF assms(6) _ _ assms(2)] assms(7) by (simp_all add: FOLLOW_UP_LENGTH_def PACKET_SIZE_def)
  have px: "ptp x = store_rx (int (tot_len q)) ?buf ((ptp v)\<lparr>netPath := ?net\<rparr>)"
    by (simp add: x_def net_stored_def)
  define h where "h = port_header m fl FOLLOW_UP FOLLOW_UP_LENGTH 0 s ctrl lmi"
  have "slave_of m (ptp x)" using assms(1) by (simp add: px slave_of_def store_rx_def)
  then have fm: "from_master FOLLOW_UP h (ptp x)" unfolding h_def by (rule slave_from_master)
  have hd: "msgUnpackHeader (msgIbuf (ptp x)) = h" "msgUnpackFollowUp (msgIbuf (ptp x)) = msgUnpackFollowUp b"
    by (simp_all only: px store_rx_def) (simp_all add: r(2,3) assms(8) h_def)
  have wt: "waitingForFollowUp (ptp x)" "recvSyncSequenceId (ptp x) = sequenceId h" "int FOLLOW_UP_LENGTH \<le> msgIbufLength (ptp x)"
    using assms(9,10) by (simp_all add: px store_rx_def r(1) h_def port_header_def)
  have c: "addTime (scaledNanosecondsToInternalTime (correctionfield h)) (correctionField_sync (ptp x)) = zero_time"
    using addTime_spec [of zero_time zero_time] assms(11)
    by (simp add: px store_rx_def h_def port_header_def scaledNanosecondsToInternalTime_def zero_time_def fits_def
        total_ns_def time_of_ns_def)
  have t: "timestamp_syncRecieve (ptp x) = timestamp_syncRecieve (ptp v)" by (simp add: px store_rx_def)
  have "handle v = handle_message (e_rx (env v) (tick v)) x"
    using handle_polls [OF assms(3)] poll_general [OF assms(3-6,2)] assms(5) by (simp add: x_def backlog_def)
  note run = this [unfolded handle_message_followup [OF fm hd(1) wt] hd(2) c t]
  show ?thesis by (rule that [OF run]) (simp_all add: opened_def px store_rx_def)
qed


text \<open>A master that stamps its Sync 900 ns into second 100, a slave that receives it at 500 ns: offset -400 ns.\<close>

definition sample_master_world :: world where
  "sample_master_world = (boot_world calm_env)\<lparr>
     ptp := sample_port\<lparr>msgObuf := msgPackHeader sample_port (replicate PACKET_SIZE 0),
       netPath := (netPath zero_clock)\<lparr>eventPcb := Some 0, generalPcb := Some 1\<rparr>\<rparr>,
     pcbs := [(0, PTP_EVENT_PORT), (1, PTP_GENERAL_PORT)], next_pcb := 2\<rparr>"

definition one_segment :: "nat \<Rightarrow> octet list \<Rightarrow> pbuf" where
  "one_segment k bytes = \<lparr>pbuf_id = k, tot_len = length bytes, chain = [bytes]\<rparr>"

definition slave_with :: "pbuf \<Rightarrow> pbuf \<Rightarrow> world" where
  "slave_with p q = (boot_world calm_env)\<lparr>ptp := sample_clock\<lparr>
     portDS := (portDS sample_clock)\<lparr>portState := PTP_SLAVE, versionNumber := 2\<rparr>,
     parentDS := (parentDS sample_clock)\<lparr>parentPortIdentity := portIdentity (portDS sample_port)\<rparr>,
     netPath := (netPath zero_clock)\<lparr>
       eventQ := \<lparr>q_pbuf = [None, Some p, None, None], q_head = 1, q_tail = 0\<rparr>,
       generalQ := \<lparr>q_pbuf = [None, Some q, None, None], q_head = 1, q_tail = 0\<rparr>\<rparr>\<rparr>\<rparr>"

lemma carries_one: "0 < length bytes \<Longrightarrow> length bytes \<le> PACKET_SIZE \<Longrightarrow> carries (one_segment k bytes) bytes"
  by (simp add: carries_def one_segment_def wf_pbuf_def)

lemma sample_master_ok:
  "link_up sample_master_world" "packed_header (ptp sample_master_world) (msgObuf (ptp sample_master_world))"
  "wf_port_header (ptp sample_master_world)" "twoStepFlag (defaultDS (ptp sample_master_world))"
  using packed_sample sample_ok(1)
  by (simp_all add: sample_master_world_def link_up_def local_port_def boot_world_def calm_env_def sample_port_def
      packed_header_def wf_port_header_def)

lemma sample_departure: "departure sample_master_world = \<lparr>seconds = 100, nanoseconds = 900\<rparr>"
  "seconds (e_tx (env sample_master_world) n) = 100"
  using addTime_spec [of "\<lparr>seconds = 100, nanoseconds = 900\<rparr>" zero_time]
  by (simp_all add: departure_def sample_master_world_def boot_world_def calm_env_def sample_port_def zero_clock_def fits_def
      zero_time_def total_ns_def time_of_ns_def)


end
