(* ===== verification/DelayExchange.thy ===== *)
theory DelayExchange
  imports Exchange
begin

text \<open>
  The other half of a two-way exchange: the Delay_Req of a slave, the answer of its master and what the slave
  makes of it.  The request and its answer run through the same buffers and queues as in \<open>Exchange\<close>.
\<close>

section \<open>Packets that arrive\<close>

text \<open>The ports of the two daemons, and queues that stay as they are.\<close>

definition same_ports :: "NetPath \<Rightarrow> NetPath \<Rightarrow> bool" where
  "same_ports a b \<longleftrightarrow> eventPcb a = eventPcb b \<and> generalPcb a = generalPcb b \<and> multicastAddr a = multicastAddr b"

definition same_queues :: "NetPath \<Rightarrow> NetPath \<Rightarrow> bool" where
  "same_queues a b \<longleftrightarrow> q_good (eventQ a) \<and> q_good (generalQ a) \<and>
     q_contents (eventQ a) = q_contents (eventQ b) \<and> q_contents (generalQ a) = q_contents (generalQ b)"

text \<open>
  A callback of lwIP into an empty queue, followed by \<open>handle\<close>: in \<open>v\<close>, which \<open>handle_message\<close> is called with, the buffer
  starts with the bytes of the packet, and the rest of \<open>w\<close> is as it was.
\<close>

definition received :: "pbuf \<Rightarrow> octet list \<Rightarrow> world \<Rightarrow> world \<Rightarrow> bool" where
  "received p b w v \<longleftrightarrow> (\<exists>ib net al fr. v = w\<lparr>tick := Suc (tick w), alerts := al, freed := fr,
      ptp := (ptp w)\<lparr>msgIbuf := ib, msgIbufLength := int (tot_len p), netPath := net\<rparr>\<rparr> \<and>
     same_ports net (netPath (ptp w)) \<and> same_queues net (netPath (ptp w)) \<and> length b = PACKET_SIZE \<and>
     length ib = PACKET_SIZE \<and> tot_len p \<le> PACKET_SIZE \<and> 44 \<le> tot_len p \<and> take (tot_len p) ib = take (tot_len p) b)"

lemma unpack_longer_prefix:
  assumes "take n a = take n b" "n \<le> length a" "n \<le> length b"
  shows "54 \<le> n \<Longrightarrow> msgUnpackDelayResp a = msgUnpackDelayResp b" "64 \<le> n \<Longrightarrow> msgUnpackAnnounce a = msgUnpackAnnounce b"
  using peek_prefix [OF assms]
  by (simp_all add: msgUnpackDelayResp_def msgUnpackAnnounce_def unpackTimestamp_def unpackRequestingPort_def CLOCK_IDENTITY_LENGTH_def)

lemma receivedE:
  assumes "received p b w v"
  obtains ib net al fr where "v = w\<lparr>tick := Suc (tick w), alerts := al, freed := fr,
      ptp := (ptp w)\<lparr>msgIbuf := ib, msgIbufLength := int (tot_len p), netPath := net\<rparr>\<rparr>"
    "same_ports net (netPath (ptp w))" "same_queues net (netPath (ptp w))" "msgUnpackHeader ib = msgUnpackHeader b"
    "54 \<le> tot_len p \<Longrightarrow> msgUnpackDelayResp ib = msgUnpackDelayResp b" "64 \<le> tot_len p \<Longrightarrow> msgUnpackAnnounce ib = msgUnpackAnnounce b"
    "length ib = PACKET_SIZE"
proof -
  obtain ib net al fr where v: "v = w\<lparr>tick := Suc (tick w), alerts := al, freed := fr,
      ptp := (ptp w)\<lparr>msgIbuf := ib, msgIbufLength := int (tot_len p), netPath := net\<rparr>\<rparr>"
    "same_ports net (netPath (ptp w))" "same_queues net (netPath (ptp w))"
    and l: "length b = PACKET_SIZE" "length ib = PACKET_SIZE" "tot_len p \<le> PACKET_SIZE" "44 \<le> tot_len p"
      "take (tot_len p) ib = take (tot_len p) b"
    using assms unfolding received_def by blast
  show ?thesis
    using that [OF v unpack_prefix(1) [OF l(5,4)] unpack_longer_prefix [OF l(5)] l(2)] l by simp
qed

lemma net_stored_received:
  assumes "carries p (take n b)" "length b = PACKET_SIZE" "44 \<le> n" "n \<le> PACKET_SIZE" "length (msgIbuf (ptp w)) = PACKET_SIZE"
    and "same_ports net (netPath (ptp u))" "same_queues net (netPath (ptp u))"
    and "w = u\<lparr>alerts := al, ptp := (ptp u)\<lparr>netPath := net'\<rparr>\<rparr>"
  shows "received p b u (net_stored p net (Suc (tick w)) w)"
proof -
  have c: "concat (chain p) = take n b" "tot_len p = n" using assms(1,2,4) by (simp_all add: carries_def wf_pbuf_def)
  show ?thesis
    unfolding received_def net_stored_def
    by (intro exI [of _ "concat (chain p) @ drop (tot_len p) (msgIbuf (ptp w))"] exI [of _ net] exI [of _ al] exI [of _ "freed u @ [p]"])
      (use assms c in \<open>simp add: store_rx_def pbuf_free_def on_clock_def\<close>)
qed

lemma event_arrives:
  assumes "net_good w" "q_contents (eventQ (netPath (ptp w))) = []" "carries p (take n b)" "44 \<le> n" "n \<le> PACKET_SIZE"
    and "length b = PACKET_SIZE" "length (msgIbuf (ptp w)) = PACKET_SIZE"
  obtains v where "handle (netRecvEventCallback p w) = handle_message (e_rx (env w) (tick w)) v" "received p b w v"
proof -
  let ?w = "netRecvEventCallback p w" and ?q = "snd (netQPut (eventQ (netPath (ptp w))) p)"
  have g: "q_good (eventQ (netPath (ptp w)))" "q_good (generalQ (netPath (ptp w)))" using assms(1) by (simp_all add: net_good_def)
  have w: "?w = w\<lparr>alerts := Suc (alerts w), ptp := (ptp w)\<lparr>netPath := (netPath (ptp w))\<lparr>eventQ := ?q\<rparr>\<rparr>\<rparr>"
    using ring_put(2) [OF g(1)] assms(2)
    by (simp add: netRecvEventCallback_def Let_def split_beta ptpd_alert_def on_net_def on_clock_def)
  have q: "q_contents (eventQ (netPath (ptp ?w))) = [p]" "net_good ?w" "backlog ?w > 0"
    using ring_put [OF g(1)] assms(1,2) by (simp_all add: w net_good_def backlog_def)
  have f: "env ?w = env w" "tick ?w = tick w" "length (msgIbuf (ptp ?w)) = PACKET_SIZE" "netPath (ptp ?w) = (netPath (ptp w))\<lparr>eventQ := ?q\<rparr>"
    using assms(7) by (simp_all add: w)
  let ?net = "(netPath (ptp ?w))\<lparr>eventQ := snd (netQGet (eventQ (netPath (ptp ?w))))\<rparr>"
  have n: "same_ports ?net (netPath (ptp w))" "same_queues ?net (netPath (ptp w))"
    using g ring_put [OF g(1)] assms(2) ring_get by (auto simp: f(4) same_ports_def same_queues_def)
  have "received p b w (net_stored p ?net (Suc (tick ?w)) ?w)"
    by (rule net_stored_received [OF assms(3,6,4,5) f(3) n w])
  moreover have "handle ?w = handle_message (e_rx (env w) (tick w)) (net_stored p ?net (Suc (tick ?w)) ?w)"
    using handle_polls [OF q(2)] q(3) poll_event [OF q(2,1) assms(3) f(3)] by (simp add: f)
  ultimately show ?thesis using that by blast
qed

lemma general_arrives:
  assumes "net_good w" "q_contents (eventQ (netPath (ptp w))) = []" "q_contents (generalQ (netPath (ptp w))) = []"
    and "carries p (take n b)" "44 \<le> n" "n \<le> PACKET_SIZE" "length b = PACKET_SIZE" "length (msgIbuf (ptp w)) = PACKET_SIZE"
  obtains v where "handle (netRecvGeneralCallback p w) = handle_message (e_rx (env w) (tick w)) v" "received p b w v"
proof -
  let ?w = "netRecvGeneralCallback p w" and ?q = "snd (netQPut (generalQ (netPath (ptp w))) p)"
  have g: "q_good (generalQ (netPath (ptp w)))" "q_good (eventQ (netPath (ptp w)))" using assms(1) by (simp_all add: net_good_def)
  have w: "?w = w\<lparr>alerts := Suc (alerts w), ptp := (ptp w)\<lparr>netPath := (netPath (ptp w))\<lparr>generalQ := ?q\<rparr>\<rparr>\<rparr>"
    using ring_put(2) [OF g(1)] assms(3)
    by (simp add: netRecvGeneralCallback_def Let_def split_beta ptpd_alert_def on_net_def on_clock_def)
  have q: "q_contents (eventQ (netPath (ptp ?w))) = []" "q_contents (generalQ (netPath (ptp ?w))) = [p]" "net_good ?w" "backlog ?w > 0"
    using ring_put [OF g(1)] assms(1-3) by (simp_all add: w net_good_def backlog_def)
  have f: "env ?w = env w" "tick ?w = tick w" "length (msgIbuf (ptp ?w)) = PACKET_SIZE" "netPath (ptp ?w) = (netPath (ptp w))\<lparr>generalQ := ?q\<rparr>"
    using assms(8) by (simp_all add: w)
  let ?net = "(netPath (ptp ?w))\<lparr>generalQ := snd (netQGet (generalQ (netPath (ptp ?w))))\<rparr>"
  have n: "same_ports ?net (netPath (ptp w))" "same_queues ?net (netPath (ptp w))"
    using g ring_put [OF g(1)] assms(3) ring_get by (auto simp: f(4) same_ports_def same_queues_def)
  have "received p b w (net_stored p ?net (Suc (tick ?w)) ?w)"
    by (rule net_stored_received [OF assms(4,7,5,6) f(3) n w])
  moreover have "handle ?w = handle_message (e_rx (env w) (tick w)) (net_stored p ?net (Suc (tick ?w)) ?w)"
    using handle_polls [OF q(3)] q(4) poll_general [OF q(3,1,2) assms(4) f(3)] by (simp add: f)
  ultimately show ?thesis using that by blast
qed

section \<open>The request\<close>

definition request_buffer :: "world \<Rightarrow> octet list" where
  "request_buffer w = msgPackDelayReq (ptp w) (msgObuf (ptp w))
     (fromInternalTime (e_now (env w) (tick w)) (e_timestamp (env w) (tick w + 1)))"

lemma pack_request_obuf [simp]: "msgPackDelayReq (c\<lparr>msgObuf := b\<rparr>) = msgPackDelayReq c"
  by (simp add: fun_eq_iff msgPackDelayReq_def)

lemma issueDelayReq_sends:
  assumes "link_up w" "seconds (e_tx (env w) (tick w + 5)) \<noteq> 0"
  shows "issueDelayReq w = on_clock (\<lambda>c. c\<lparr>msgObuf := request_buffer w,
      sentDelayReqSequenceId := i16 (sentDelayReqSequenceId c + 1), timestamp_delayReqSend := departure w\<rparr>)
    (w\<lparr>tick := tick w + 6, sent := sent w @
      [Packet (multicastAddr (netPath (ptp w))) PTP_EVENT_PORT (take DELAY_REQ_LENGTH (request_buffer w))]\<rparr>)"
proof -
  let ?w1 = "on_clock (\<lambda>c. c\<lparr>msgObuf := request_buffer w\<rparr>) (w\<lparr>tick := tick w + 2\<rparr>)"
  have up: "link_up ?w1" using assms(1) by (simp add: link_up_def local_port_def)
  have w1: "set_obuf (\<lambda>c buf. msgPackDelayReq c buf (fromInternalTime (e_now (env w) (tick w)) (e_timestamp (env w) (Suc (tick w)))))
      (w\<lparr>tick := Suc (Suc (tick w))\<rparr>) = ?w1"
    by (simp add: set_obuf_def on_clock_def request_buffer_def)
  show ?thesis
    using w1 send_up(1) [OF up, of "request_buffer w" DELAY_REQ_LENGTH] assms(2)
    by (simp add: issueDelayReq_def getTime_def Let_def split_beta DELAY_REQ_LENGTH_def departure_def on_clock_def
        add.commute [of "numeral _" "tick w"])
qed

section \<open>The answer\<close>

definition response_buffer :: "world \<Rightarrow> MsgHeader \<Rightarrow> octet list" where
  "response_buffer m h = msgPackDelayResp (ptp m) (msgObuf (ptp m)) h
     (fromInternalTime (arrival (e_rx (env m) (tick m)) (ptp m)) (e_timestamp (env m) (Suc (tick m))))"

text \<open>A master answers whoever speaks its version in its domain.\<close>

definition master_for :: "PtpClock \<Rightarrow> PtpClock \<Rightarrow> bool" where
  "master_for c m \<longleftrightarrow> portState (portDS m) = PTP_MASTER \<and> delayMechanism (portDS m) = E2E \<and>
     versionNumber (portDS m) = versionNumber (portDS c) \<and> d_domainNumber (defaultDS m) = d_domainNumber (defaultDS c) \<and>
     \<not> isSamePortIdentity (portIdentity (portDS m)) (portIdentity (portDS c))"

lemma request_answered:
  assumes "link_up m" "master_for c (ptp m)" "received p b m v" "tot_len p = DELAY_REQ_LENGTH"
    and "msgUnpackHeader b = h" "h = port_header c fl DELAY_REQ len cf s ctrl lmi"
  shows "sent (handle_message time v) = sent m @ [Packet (multicastAddr (netPath (ptp m))) PTP_GENERAL_PORT
      (take PDELAY_RESP_LENGTH (msgPackDelayResp (ptp m) (msgObuf (ptp m)) h
         (fromInternalTime (arrival time (ptp m)) (e_timestamp (env m) (Suc (tick m))))))]"
proof -
  obtain ib net al freed' where v0: "v = m\<lparr>tick := Suc (tick m), alerts := al, freed := freed',
      ptp := (ptp m)\<lparr>msgIbuf := ib, msgIbufLength := int (tot_len p), netPath := net\<rparr>\<rparr>"
    and net: "same_ports net (netPath (ptp m))" and hd: "msgUnpackHeader ib = msgUnpackHeader b"
    by (rule receivedE [OF assms(3)])
  have v: "ptp v = (ptp m)\<lparr>msgIbuf := ib, msgIbufLength := int (tot_len p), netPath := net\<rparr>"
    and fr: "env v = env m" "tick v = Suc (tick m)" "sent v = sent m" "pcbs v = pcbs m"
    by (simp_all add: v0)
  let ?v = "on_clock (opened h) v" and ?t = "arrival time (ptp m)"
  let ?b = "msgPackDelayResp (ptp m) (msgObuf (ptp m)) h (fromInternalTime ?t (e_timestamp (env m) (Suc (tick m))))"
  let ?u = "on_clock (\<lambda>c. c\<lparr>msgObuf := ?b\<rparr>) (?v\<lparr>tick := Suc (tick v)\<rparr>)"
  have "handle_message time v = dispatch time ?v"
    using assms(2,4-6) by (intro handle_message_opens) (simp_all add: v hd master_for_def port_header_def HEADER_LENGTH_def DELAY_REQ_LENGTH_def)
  also have "\<dots> = handleDelayReq ?t False ?v"
    using assms(2,6) unfolding dispatch_def Let_def
    by (simp add: v hdr_def master_for_def port_header_def arrival_def msg_type_defs opened_def)
  also have "\<dots> = issueDelayResp ?t h ?v"
    using assms(2,4) by (simp add: handleDelayReq_def v master_for_def port_state_def hdr_def opened_def)
  finally have r: "handle_message time v = issueDelayResp ?t h ?v" .
  have o: "set_obuf (\<lambda>c buf. msgPackDelayResp c buf h (fromInternalTime ?t (e_timestamp (env m) (Suc (tick m)))))
      (?v\<lparr>tick := Suc (tick v)\<rparr>) = ?u"
    by (simp add: set_obuf_def on_clock_def v opened_def msgPackDelayResp_def)
  have "link_up ?u" using assms(1) net by (simp add: link_up_def local_port_def v fr same_ports_def opened_def)
  note s = send_up(2) [OF this, of ?b PDELAY_RESP_LENGTH zero_time]
  show ?thesis
    unfolding r using o s net
    by (simp add: issueDelayResp_def Let_def split_beta fr PDELAY_RESP_LENGTH_def v opened_def same_ports_def)
qed

section \<open>The measurement\<close>

definition delay_inputs_ok :: "TimeInternal \<Rightarrow> TimeInternal \<Rightarrow> PtpClock \<Rightarrow> bool" where
  "delay_inputs_ok tx rx c \<longleftrightarrow> filt_n (ofm_filt c) \<noteq> 0 \<and> fits tx \<and> fits rx \<and> fits (Tms c) \<and>
     \<bar>total_ns rx - total_ns tx\<bar> \<le> 1073741822000000000 \<and>
     \<bar>total_ns (Tms c) + (total_ns rx - total_ns tx)\<bar> \<le> 1073741822000000000"

text \<open>Half the round trip: what the last Sync took plus what the request took.\<close>

definition half_round_trip :: "TimeInternal \<Rightarrow> TimeInternal \<Rightarrow> PtpClock \<Rightarrow> int" where
  "half_round_trip tx rx c = (total_ns (Tms c) + (total_ns rx - total_ns tx)) sdiv 2"

lemma updateDelay_half:
  assumes "delay_inputs_ok tx rx c"
  shows "meanPathDelay (currentDS (updateDelay tx rx zero_time c)) = filtered (half_round_trip tx rx c) (owd_filt c)"
  using updateDelay_exact [of c tx rx zero_time] assms
  by (simp add: delay_inputs_ok_def half_round_trip_def fits_def zero_time_def total_ns_def)

lemma isSame_refl [simp]: "isSamePortIdentity p p"
  by (simp add: isSamePortIdentity_def memcmp_refl)

lemma response_measured:
  assumes "slave_of m (ptp w)" "delayMechanism (portDS (ptp w)) = E2E" "received q b w v" "tot_len q = PDELAY_RESP_LENGTH"
    and "msgUnpackHeader b = port_header m fl DELAY_RESP len 0 s ctrl lmi"
    and "msgUnpackDelayResp b = \<lparr>receiveTimestamp = ts, resp_requestingPortIdentity = portIdentity (portDS (ptp w))\<rparr>"
    and "sentDelayReqSequenceId (ptp w) - 1 = s"
    and "delay_inputs_ok (timestamp_delayReqSend (ptp w)) (toInternalTime (timestamp_delayReqRecieve (ptp w)) ts) (ptp w)"
  shows "meanPathDelay (currentDS (ptp (handle_message time v))) =
    filtered (half_round_trip (timestamp_delayReqSend (ptp w)) (toInternalTime (timestamp_delayReqRecieve (ptp w)) ts) (ptp w))
      (owd_filt (ptp w))"
proof -
  obtain ib net al freed' where v0: "v = w\<lparr>tick := Suc (tick w), alerts := al, freed := freed',
      ptp := (ptp w)\<lparr>msgIbuf := ib, msgIbufLength := int (tot_len q), netPath := net\<rparr>\<rparr>"
    and hd: "msgUnpackHeader ib = msgUnpackHeader b" and body: "54 \<le> tot_len q \<Longrightarrow> msgUnpackDelayResp ib = msgUnpackDelayResp b"
    by (rule receivedE [OF assms(3)]) (rule that)
  have v: "ptp v = (ptp w)\<lparr>msgIbuf := ib, msgIbufLength := int (tot_len q), netPath := net\<rparr>" by (simp add: v0)
  have body: "msgUnpackDelayResp ib = msgUnpackDelayResp b" using body assms(4) by (simp add: PDELAY_RESP_LENGTH_def)
  define h where "h = port_header m fl DELAY_RESP len 0 s ctrl lmi"
  have fm: "from_master DELAY_RESP h (ptp v)"
    unfolding h_def using assms(1) by (intro slave_from_master) (simp add: v slave_of_def)
  let ?v = "on_clock (opened h) v" and ?tx = "timestamp_delayReqSend (ptp w)"
  let ?rx = "toInternalTime (timestamp_delayReqRecieve (ptp w)) ts"
  let ?c = "(opened h (ptp v))\<lparr>msgTmp := TmpResp (msgUnpackDelayResp b), timestamp_delayReqRecieve := ?rx\<rparr>"
  have "handle_message time v = dispatch time ?v"
    by (rule handle_message_opens [OF from_masterD [OF fm]])
      (simp_all add: v hd assms(4,5) h_def HEADER_LENGTH_def PDELAY_RESP_LENGTH_def)
  also have "\<dots> = handleDelayResp False ?v"
    using fm unfolding dispatch_def Let_def by (simp add: hdr_def from_master_def msg_type_defs)
  finally have r: "handle_message time v = handleDelayResp False ?v" .
  have "currentDS (ptp (handleDelayResp False ?v)) = currentDS (updateDelay ?tx ?rx zero_time ?c)"
    using fm assms(2,4,7) unfolding handleDelayResp_def Let_def
    by (auto simp: from_master_def from_parent_def hdr_def port_state_def v body assms(6) opened_def h_def port_header_def
        PDELAY_RESP_LENGTH_def DELAY_RESP_LENGTH_def scaledNanosecondsToInternalTime_def zero_time_def on_clock_def)
  moreover have "delay_inputs_ok ?tx ?rx ?c" using assms(8) by (simp add: delay_inputs_ok_def v opened_def)
  ultimately show ?thesis
    unfolding r by (simp add: updateDelay_half) (simp add: half_round_trip_def v opened_def)
qed

text \<open>What a master puts on the wire when a request reaches it.\<close>

lemma request_brings_response:
  assumes "packed_header (ptp w) (msgObuf (ptp w))" "wf_port_header (ptp w)" "is_i16 (sentDelayReqSequenceId (ptp w))"
    and "carries p (take DELAY_REQ_LENGTH (request_buffer w))"
    and "link_up m" "packed_header (ptp m) (msgObuf (ptp m))" "wf_port_header (ptp m)" "master_for (ptp w) (ptp m)"
    and "length (msgIbuf (ptp m)) = PACKET_SIZE" "net_good m" "q_contents (eventQ (netPath (ptp m))) = []"
    and "t4 = arrival (e_rx (env m) (tick m)) (ptp m)"
    and "wf_time t4" "0 \<le> seconds t4" "0 \<le> nanoseconds t4" "seconds t4 < INT_MAX"
  obtains b fl ext where "sent (handle (netRecvEventCallback p m)) = sent m @
      [Packet (multicastAddr (netPath (ptp m))) PTP_GENERAL_PORT (take PDELAY_RESP_LENGTH b)]" "length b = PACKET_SIZE"
    "msgUnpackHeader b = port_header (ptp m) fl DELAY_RESP DELAY_RESP_LENGTH 0 (sentDelayReqSequenceId (ptp w)) CTRL_DELAY_RESP
      (i8 (logMinDelayReqInterval (portDS (ptp m))))"
    "msgUnpackDelayResp b = \<lparr>receiveTimestamp = fromInternalTime t4 ext, resp_requestingPortIdentity = portIdentity (portDS (ptp w))\<rparr>"
proof -
  obtain fl0 where h: "msgUnpackHeader (request_buffer w) =
      port_header (ptp w) fl0 DELAY_REQ DELAY_REQ_LENGTH 0 (sentDelayReqSequenceId (ptp w)) CTRL_DELAY_REQ 0x7F"
    and l: "length (request_buffer w) = PACKET_SIZE"
    using header_msgPackDelayReq [OF assms(1,2)] assms(3) unfolding request_buffer_def packed_header_def by simp
  define hd where "hd = port_header (ptp w) fl0 DELAY_REQ DELAY_REQ_LENGTH 0 (sentDelayReqSequenceId (ptp w)) CTRL_DELAY_REQ 0x7F"
  have hd: "wf_PortIdentity (sourcePortIdentity hd)" "is_i64 (correctionfield hd)" "is_i16 (sequenceId hd)"
    "correctionfield hd = 0" "sequenceId hd = sentDelayReqSequenceId (ptp w)" "sourcePortIdentity hd = portIdentity (portDS (ptp w))"
    using assms(2,3) by (simp_all add: hd_def port_header_def wf_PortIdentity_def wf_port_header_def is_i64_def)
  let ?ts = "fromInternalTime t4 (e_timestamp (env m) (Suc (tick m)))"
  let ?b = "msgPackDelayResp (ptp m) (msgObuf (ptp m)) hd ?ts"
  obtain v where v: "handle (netRecvEventCallback p m) = handle_message (e_rx (env m) (tick m)) v" "received p (request_buffer w) m v"
    by (rule event_arrives [OF assms(10,11,4) _ _ l assms(9)]) (simp_all add: DELAY_REQ_LENGTH_def PACKET_SIZE_def)
  have "tot_len p = DELAY_REQ_LENGTH"
    using assms(4) l by (simp add: carries_def wf_pbuf_def DELAY_REQ_LENGTH_def PACKET_SIZE_def)
  from request_answered [OF assms(5,8) v(2) this h [folded hd_def] hd_def]
  have sent: "sent (handle (netRecvEventCallback p m)) = sent m @
      [Packet (multicastAddr (netPath (ptp m))) PTP_GENERAL_PORT (take PDELAY_RESP_LENGTH ?b)]"
    by (simp add: v(1) assms(12))
  note r = header_msgPackDelayResp [OF assms(6,7) hd(1-3), of ?ts, unfolded hd(4,5)]
  have "wf_Timestamp ?ts" "length (msgObuf (ptp m)) = PACKET_SIZE"
    using time_roundtrip(1) [OF assms(13-16)] assms(6) by (simp_all add: packed_header_def)
  note body = body_msgPack_response(1) [OF this(2,1) hd(1), unfolded hd(6)]
  show ?thesis using that [OF sent _ r(2) body] r(1) by (simp add: packed_header_def)
qed


text \<open>A slave of the master of \<open>Exchange\<close>, whose last Sync took 1000 ns: the request takes -400 ns, half the sum is 300 ns.\<close>

definition slave_port :: PtpClock where
  "slave_port = sample_port\<lparr>
     portDS := (portDS sample_port)\<lparr>portState := PTP_SLAVE, portIdentity := \<lparr>clockIdentity = [9,1,2,255,254,3,4,5], portNumber = 1\<rparr>\<rparr>,
     parentDS := (parentDS sample_port)\<lparr>parentPortIdentity := portIdentity (portDS sample_port)\<rparr>,
     ofm_filt := zero_filter\<lparr>filt_n := 1\<rparr>, owd_filt := zero_filter\<lparr>filt_s := 6\<rparr>, Tms := \<lparr>seconds = 0, nanoseconds = 1000\<rparr>\<rparr>"

definition slave_world :: world where
  "slave_world = sample_master_world\<lparr>ptp := slave_port\<lparr>msgObuf := msgPackHeader slave_port (replicate PACKET_SIZE 0),
     netPath := netPath (ptp sample_master_world)\<rparr>\<rparr>"

lemma slave_world_ok:
  "link_up slave_world" "wf_port_header (ptp slave_world)" "packed_header (ptp slave_world) (msgObuf (ptp slave_world))"
  "slave_of (ptp sample_master_world) (ptp slave_world)" "master_for (ptp slave_world) (ptp sample_master_world)"
  "departure slave_world = \<lparr>seconds = 100, nanoseconds = 900\<rparr>" "seconds (e_tx (env slave_world) n) = 100"
proof -
  show "link_up slave_world" using sample_master_ok(1) by (simp add: link_up_def local_port_def slave_world_def)
  have wf: "wf_port_header slave_port"
    by (simp add: wf_port_header_def slave_port_def sample_port_def c_range CLOCK_IDENTITY_LENGTH_def)
  then show "wf_port_header (ptp slave_world)" by (simp add: slave_world_def wf_port_header_def)
  have "packed_header slave_port (msgPackHeader slave_port (replicate PACKET_SIZE 0))"
    by (rule packed_msgPackHeader) (simp_all add: wf)
  then show "packed_header (ptp slave_world) (msgObuf (ptp slave_world))" by (simp add: slave_world_def packed_header_def)
  show "slave_of (ptp sample_master_world) (ptp slave_world)"
    by (simp add: slave_of_def slave_world_def sample_master_world_def) code_simp
  show "master_for (ptp slave_world) (ptp sample_master_world)"
    by (simp add: master_for_def slave_world_def sample_master_world_def) code_simp
  show "departure slave_world = \<lparr>seconds = 100, nanoseconds = 900\<rparr>"
    using sample_departure by (simp add: departure_def slave_world_def slave_port_def sample_master_world_def)
  show "seconds (e_tx (env slave_world) n) = 100" using sample_departure(2) by (simp add: slave_world_def)
qed

lemma sample_arrival: "arrival (e_rx (env sample_master_world) n) (ptp sample_master_world) = \<lparr>seconds = 100, nanoseconds = 500\<rparr>"
  using subTime_spec [of "\<lparr>seconds = 100, nanoseconds = 500\<rparr>" zero_time]
  by (simp add: arrival_def sample_master_world_def boot_world_def calm_env_def sample_port_def zero_clock_def
      fits_def total_ns_def time_of_ns_def zero_time_def)

lemma sample_worlds_idle:
  "length (msgIbuf (ptp slave_world)) = PACKET_SIZE" "net_good slave_world" "q_contents (eventQ (netPath (ptp slave_world))) = []"
  "q_contents (generalQ (netPath (ptp slave_world))) = []" "length (msgIbuf (ptp sample_master_world)) = PACKET_SIZE"
  "net_good sample_master_world" "q_contents (eventQ (netPath (ptp sample_master_world))) = []"
  by (simp_all add: slave_world_def slave_port_def sample_master_world_def sample_port_def zero_clock_def zero_queue_def net_good_def ring_defs)


end
