(* ===== verification/Acquire.thy ===== *)
theory Acquire
  imports DelayExchange Rounds
begin

text \<open>
  How a listening port finds its master: the Announce of a better clock, from \<open>issueAnnounce\<close> of the one daemon
  through the table of foreign masters and the best master clock algorithm of the other.
\<close>

section \<open>The announcement\<close>

definition announce_buffer :: "world \<Rightarrow> octet list" where
  "announce_buffer m = msgPackAnnounce (ptp m) (msgObuf (ptp m))"

definition announced :: "PtpClock \<Rightarrow> MsgAnnounce" where
  "announced c = \<lparr>a_originTimestamp = \<lparr>secondsField = \<lparr>u48_lsb = 0, u48_msb = 0\<rparr>, nanosecondsField = 0\<rparr>,
     a_currentUtcOffset = t_currentUtcOffset (timePropertiesDS c), a_grandmasterPriority1 = p_grandmasterPriority1 (parentDS c),
     a_grandmasterClockQuality = d_clockQuality (defaultDS c), a_grandmasterPriority2 = p_grandmasterPriority2 (parentDS c),
     a_grandmasterIdentity = p_grandmasterIdentity (parentDS c), a_stepsRemoved = c_stepsRemoved (currentDS c),
     a_timeSource = t_timeSource (timePropertiesDS c)\<rparr>"

lemma issueAnnounce_sends:
  assumes "link_up m"
  shows "sent (issueAnnounce m) = sent m @
    [Packet (multicastAddr (netPath (ptp m))) PTP_GENERAL_PORT (take ANNOUNCE_LENGTH (announce_buffer m))]"
proof -
  let ?m = "on_clock (\<lambda>c. c\<lparr>msgObuf := announce_buffer m\<rparr>) m"
  have m: "set_obuf msgPackAnnounce m = ?m" by (simp add: set_obuf_def on_clock_def announce_buffer_def)
  have "link_up ?m" using assms by (simp add: link_up_def local_port_def)
  note s = send_up(2) [OF this, of "announce_buffer m" ANNOUNCE_LENGTH zero_time]
  show ?thesis
    unfolding issueAnnounce_def m Let_def using s by (simp add: ANNOUNCE_LENGTH_def)
qed

text \<open>A port that may hear another one.\<close>

definition hears :: "PtpClock \<Rightarrow> PtpClock \<Rightarrow> bool" where
  "hears m c \<longleftrightarrow> versionNumber (portDS c) = versionNumber (portDS m) \<and> d_domainNumber (defaultDS c) = d_domainNumber (defaultDS m) \<and>
     \<not> isSamePortIdentity (portIdentity (portDS c)) (portIdentity (portDS m))"

text \<open>The announced grandmaster is better than the clock itself, in the order of the best master clock algorithm.\<close>

definition outranks :: "MsgAnnounce \<Rightarrow> PtpClock \<Rightarrow> bool" where
  "outranks a c \<longleftrightarrow> gm_key a < gm_key (copyD0_announce c a)"


lemma outranks_decides:
  assumes "outranks a c" "gm_id_ok a" "length (d_clockIdentity (defaultDS c)) = CLOCK_IDENTITY_LENGTH"
    "a_grandmasterIdentity a \<noteq> d_clockIdentity (defaultDS c)"
  shows "\<not> own_better c h a"
proof -
  have "gm_id_ok (copyD0_announce c a)" "a_grandmasterIdentity (copyD0_announce c a) \<noteq> a_grandmasterIdentity a"
    using assms(3,4) by (simp_all add: copyD0_announce_def gm_id_ok_def)
  with assms(1,2) show ?thesis
    by (simp add: own_better_def comparison_key outranks_def A_better_then_B_def)
qed

section \<open>The first step: the announcement is on record\<close>

text \<open>A port that listens and has heard nothing.\<close>

definition listening :: "world \<Rightarrow> bool" where
  "listening w \<longleftrightarrow> port_state w = PTP_LISTENING \<and> recommendedState (ptp w) = PTP_LISTENING \<and> events (ptp w) = 0 \<and>
     \<not> expired ANNOUNCE_RECEIPT_TIMER w \<and> timers_good w \<and> net_good w \<and> backlog w = 0 \<and>
     length (msgIbuf (ptp w)) = PACKET_SIZE \<and> table_ok w \<and> fm_count (foreignMasterDS (ptp w)) = 0"

lemma not_expired_passive:
  assumes "timers_good w" "\<not> expired ANNOUNCE_RECEIPT_TIMER w"
  shows "doState_passive w = handle w"
proof -
  have "fst (timerExpired ANNOUNCE_RECEIPT_TIMER w) = False" "snd (timerExpired ANNOUNCE_RECEIPT_TIMER w) = w"
    using assms(2) by (simp_all add: timerExpired_def expired_def timer_ix_defs)
  then show ?thesis by (simp add: doState_passive_def Let_def split_beta)
qed

lemma callback_activity:
  "on_clock (\<lambda>c. c\<lparr>messageActivity := x\<rparr>) (netRecvGeneralCallback p w) = netRecvGeneralCallback p (on_clock (\<lambda>c. c\<lparr>messageActivity := x\<rparr>) w)"
  by (simp add: netRecvGeneralCallback_def Let_def split_beta on_clock_def on_net_def pbuf_free_def ptpd_alert_def)

lemma listening_handles:
  assumes "listening w"
  shows "doState (netRecvGeneralCallback p w) = handle (netRecvGeneralCallback p (on_clock (\<lambda>c. c\<lparr>messageActivity := False\<rparr>) w))"
proof -
  let ?w = "netRecvGeneralCallback p w"
  have "settled ?w"
    using assms by (simp add: settled_def listening_def port_state_def netRecvGeneralCallback_def Let_def split_beta
        ptpd_alert_def on_net_def pbuf_free_def)
  moreover have "timers ?w = timers w"
    by (simp add: netRecvGeneralCallback_def Let_def split_beta ptpd_alert_def on_net_def pbuf_free_def)
  then have "timers_good ?w" "\<not> expired ANNOUNCE_RECEIPT_TIMER ?w"
    using assms timer_view [of ?w w] by (simp_all add: listening_def)
  then have "doState_passive (on_clock (\<lambda>c. c\<lparr>messageActivity := False\<rparr>) ?w) = handle (on_clock (\<lambda>c. c\<lparr>messageActivity := False\<rparr>) ?w)"
    by (intro not_expired_passive) (simp_all add: timers_good_def expired_def)
  ultimately show ?thesis by (simp add: settled_doState callback_activity)
qed

lemma announce_recorded:
  assumes "versionPTP h = versionNumber (portDS (ptp v))" "h_domainNumber h = d_domainNumber (defaultDS (ptp v))"
    and "\<not> isSamePortIdentity (portIdentity (portDS (ptp v))) (sourcePortIdentity h)" "messageType h = ANNOUNCE"
    and "msgUnpackHeader (msgIbuf (ptp v)) = h" "int ANNOUNCE_LENGTH \<le> msgIbufLength (ptp v)" "port_state v = PTP_LISTENING"
  shows "handle_message time v = on_clock (\<lambda>c. addForeign h (msgUnpackAnnounce (msgIbuf c))
    (raise_event STATE_DECISION_EVENT ((opened h c)\<lparr>msgTmp := TmpAnnounce (msgUnpackAnnounce (msgIbuf c))\<rparr>))) v"
proof -
  let ?v = "on_clock (opened h) v"
  have "handle_message time v = dispatch time ?v"
    using assms by (intro handle_message_opens) (simp_all add: HEADER_LENGTH_def ANNOUNCE_LENGTH_def)
  also have "\<dots> = handleAnnounce False ?v"
    using assms unfolding dispatch_def Let_def by (simp add: hdr_def)
  also have "\<dots> = on_clock (\<lambda>c. addForeign h (msgUnpackAnnounce (msgIbuf c))
    (raise_event STATE_DECISION_EVENT ((opened h c)\<lparr>msgTmp := TmpAnnounce (msgUnpackAnnounce (msgIbuf c))\<rparr>))) v"
    using assms unfolding handleAnnounce_def Let_def
    by (simp add: port_state_def hdr_def on_clock_compose) (rule on_clock_cong, simp add: raise_event_def)
  finally show ?thesis .
qed

text \<open>The first record of an empty table.\<close>

lemma addForeign_first:
  assumes "fm_ok (foreignMasterDS c)" "fm_dense (foreignMasterDS c)" "fm_count (foreignMasterDS c) = 0"
  shows "fm_count (foreignMasterDS (addForeign h a c)) = 1"
    "f_header (fm_records (foreignMasterDS (addForeign h a c)) ! 0) = h"
    "f_announce (fm_records (foreignMasterDS (addForeign h a c)) ! 0) = a"
  using assms by (simp_all add: addForeign_def Let_def fm_ok_def fm_dense_def is_i16_def)

definition heard :: "MsgHeader \<Rightarrow> MsgAnnounce \<Rightarrow> world \<Rightarrow> world \<Rightarrow> bool" where
  "heard h a w v \<longleftrightarrow> port_state v = PTP_LISTENING \<and> events (ptp v) = STATE_DECISION_EVENT \<and>
     timers v = timers w \<and> net_good v \<and> backlog v = 0 \<and> table_ok v \<and> fm_count (foreignMasterDS (ptp v)) = 1 \<and>
     f_header (fm_records (foreignMasterDS (ptp v)) ! 0) = h \<and> f_announce (fm_records (foreignMasterDS (ptp v)) ! 0) = a \<and>
     defaultDS (ptp v) = defaultDS (ptp w) \<and> portDS (ptp v) = portDS (ptp w)"

lemma first_step:
  assumes "listening w" "hears m (ptp w)" "carries p (take ANNOUNCE_LENGTH b)" "length b = PACKET_SIZE"
    and "msgUnpackHeader b = port_header m fl ANNOUNCE len cf s ctrl lmi"
  shows "heard (msgUnpackHeader b) (msgUnpackAnnounce b) w (doState (netRecvGeneralCallback p w))"
proof -
  let ?w = "on_clock (\<lambda>c. c\<lparr>messageActivity := False\<rparr>) w" and ?h = "msgUnpackHeader b"
  have n: "net_good ?w" "q_contents (eventQ (netPath (ptp ?w))) = []" "q_contents (generalQ (netPath (ptp ?w))) = []"
    "length (msgIbuf (ptp ?w)) = PACKET_SIZE"
    using assms(1) by (simp_all add: listening_def net_good_def backlog_def)
  obtain v t where v: "handle (netRecvGeneralCallback p ?w) = handle_message t v" "received p b ?w v"
    by (rule general_arrives [OF n(1-3) assms(3) _ _ assms(4) n(4)]) (auto simp: ANNOUNCE_LENGTH_def PACKET_SIZE_def)
  obtain ib net al fr where e: "v = ?w\<lparr>tick := Suc (tick ?w), alerts := al, freed := fr,
      ptp := (ptp ?w)\<lparr>msgIbuf := ib, msgIbufLength := int (tot_len p), netPath := net\<rparr>\<rparr>"
    "same_queues net (netPath (ptp ?w))" "msgUnpackHeader ib = ?h" "64 \<le> tot_len p \<Longrightarrow> msgUnpackAnnounce ib = msgUnpackAnnounce b"
    by (rule receivedE [OF v(2)]) (rule that)
  have l: "tot_len p = ANNOUNCE_LENGTH" using assms(3,4) by (simp add: carries_def wf_pbuf_def ANNOUNCE_LENGTH_def PACKET_SIZE_def)
  have p: "ptp v = (ptp w)\<lparr>messageActivity := False, msgIbuf := ib, msgIbufLength := int ANNOUNCE_LENGTH, netPath := net\<rparr>"
    by (simp add: e(1) l)
  have a: "msgUnpackAnnounce ib = msgUnpackAnnounce b" using e(4) l by (simp add: ANNOUNCE_LENGTH_def)
  have "handle_message t v = on_clock (\<lambda>c. addForeign ?h (msgUnpackAnnounce (msgIbuf c))
    (raise_event STATE_DECISION_EVENT ((opened ?h c)\<lparr>msgTmp := TmpAnnounce (msgUnpackAnnounce (msgIbuf c))\<rparr>))) v"
    using assms(1,2,5) by (intro announce_recorded) (simp_all add: p e(3) hears_def listening_def port_header_def port_state_def)
  then have d: "doState (netRecvGeneralCallback p w) = on_clock (\<lambda>c. addForeign ?h (msgUnpackAnnounce b)
    (raise_event STATE_DECISION_EVENT ((opened ?h c)\<lparr>msgTmp := TmpAnnounce (msgUnpackAnnounce b)\<rparr>))) v"
    by (simp add: listening_handles [OF assms(1)] v(1)) (rule on_clock_cong, simp add: p a)
  let ?c = "raise_event STATE_DECISION_EVENT ((opened ?h (ptp v))\<lparr>msgTmp := TmpAnnounce (msgUnpackAnnounce b)\<rparr>)"
  have c: "foreignMasterDS ?c = foreignMasterDS (ptp w)" "netPath ?c = net" "portDS ?c = portDS (ptp w)" "defaultDS ?c = defaultDS (ptp w)"
    "events ?c = STATE_DECISION_EVENT" "recommendedState ?c = recommendedState (ptp w)"
    using assms(1) by (simp_all add: raise_event_def opened_def p listening_def setFlag_def)
  have t: "fm_ok (foreignMasterDS ?c)" "fm_dense (foreignMasterDS ?c)" "fm_count (foreignMasterDS ?c) = 0"
    using assms(1) by (simp_all add: c listening_def table_ok_def)
  have q: "net_good (doState (netRecvGeneralCallback p w))" "backlog (doState (netRecvGeneralCallback p w)) = 0"
    using e(2) assms(1) by (simp_all add: d net_good_def backlog_def c same_queues_def listening_def)
  have "timers (doState (netRecvGeneralCallback p w)) = timers w" by (simp add: d e(1))
  moreover have "table_ok (doState (netRecvGeneralCallback p w))"
    using addForeign_ok [OF t(1)] addForeign_dense [OF t(1,2)] by (simp add: d table_ok_def)
  ultimately show ?thesis
    using q addForeign_first [OF t] assms(1) c unfolding heard_def
    by (simp add: d port_state_def listening_def)
qed

section \<open>The second step: the decision\<close>

text \<open>What the port knows of its master, which a change of state does not touch.\<close>

definition followed :: "PtpClock \<Rightarrow> PortIdentity \<times> ClockIdentity \<times> int" where
  "followed c = (parentPortIdentity (parentDS c), p_grandmasterIdentity (parentDS c), c_stepsRemoved (currentDS c))"

lemma initClock_followed [simp]: "followed (ptp (initClock w)) = followed (ptp w)"
  by (simp add: initClock_unfold followed_def)

lemma followed_frame [simp]:
  "followed (set_portState s c) = followed c" "followed (set_recommended s c) = followed c" "followed (c\<lparr>messageActivity := x\<rparr>) = followed c"
  "followed (c\<lparr>portDS := d\<rparr>) = followed c"
  by (simp_all add: followed_def set_portState_def set_recommended_def)

lemma toState_followed [simp]: "followed (ptp (toState s w)) = followed (ptp w)"
proof -
  have r: "ptp (timerStartRand k n v) = ptp v" for k n v by (simp add: timerStartRand_def Let_def split_beta)
  have "followed (ptp (enterMaster v)) = followed (ptp v)" for v
    by (simp add: enterMaster_def Let_def r split: delay_mechanism.split)
  then have e: "followed (ptp (enterState s v)) = followed (ptp v)" for v
    by (simp add: enterState_def Let_def r split: ptp_state.split delay_mechanism.split)
  have "followed (ptp (leaveState s v)) = followed (ptp v)" for v
    by (simp add: leaveState_def leaveSlave_def Let_def split: ptp_state.split delay_mechanism.split)
  then show ?thesis by (simp add: toState_def e)
qed

lemma handle_idle:
  assumes "net_good w" "backlog w = 0"
  shows "port_state (handle w) = port_state w" "recommendedState (ptp (handle w)) = recommendedState (ptp w)"
    "followed (ptp (handle w)) = followed (ptp w)"
proof -
  have q: "q_good (eventQ (netPath (ptp w)))" "q_contents (eventQ (netPath (ptp w))) = []"
    "q_good (generalQ (netPath (ptp w)))" "q_contents (generalQ (netPath (ptp w))) = []"
    using assms by (simp_all add: net_good_def backlog_def)
  have e: "netRecvEvent p s t w = ((0, p, t), w)" for p s t
    by (simp add: netRecvEvent_def netRecv_empty [OF q(1,2)] on_net_def on_clock_def)
  let ?w = "on_clock (store_rx 0 (msgIbuf (ptp w))) w"
  have g: "netRecvGeneral p s t ?w = ((0, p, t), ?w)" for p s t
    using netRecv_empty [OF q(3,4)] by (simp add: netRecvGeneral_def store_rx_def on_net_def on_clock_def)
  have "handle_poll w = on_clock (store_rx 0 (msgIbuf (ptp w))) ?w"
    by (simp add: handle_poll_def e g) (simp add: store_rx_def)
  moreover have "netSelect w = 0" using q ring_get(4) by (simp add: netSelect_def)
  ultimately show "port_state (handle w) = port_state w" "recommendedState (ptp (handle w)) = recommendedState (ptp w)"
    "followed (ptp (handle w)) = followed (ptp w)"
    by (simp_all add: handle_def port_state_def store_rx_def followed_def)
qed

text \<open>The decision for the one foreign master on record.\<close>

lemma one_master:
  assumes "fm_count (foreignMasterDS (ptp w)) = 1" "f_header (fm_records (foreignMasterDS (ptp w)) ! 0) = h"
    "f_announce (fm_records (foreignMasterDS (ptp w)) ! 0) = a" "\<And>c. defaultDS c = defaultDS (ptp w) \<Longrightarrow> \<not> own_better c h a"
    "\<not> clockClass (d_clockQuality (defaultDS (ptp w))) < 128"
  shows "fst (bmc w) = PTP_SLAVE" "followed (ptp (snd (bmc w))) = (sourcePortIdentity h, a_grandmasterIdentity a, i16 (a_stepsRemoved a + 1))"
proof -
  have b: "bmc_best (ptp w) = 0" by (simp add: bmc_best_def assms(1))
  let ?c = "(ptp w)\<lparr>foreignMasterDS := (foreignMasterDS (ptp w))\<lparr>fm_best := 0\<rparr>\<rparr>"
  have "\<not> own_better ?c h a" using assms(4) by simp
  then have d: "\<exists>x. bmcStateDecision junk h a ?c = (PTP_SLAVE, s1 h a x)" for junk
    using assms(1,5) by (auto simp: bmcStateDecision_unfold Let_def)
  obtain junk where j: "bmc w = (fst (bmcStateDecision junk h a ?c), w\<lparr>tick := Suc (tick w), ptp := snd (bmcStateDecision junk h a ?c)\<rparr>)"
    by (simp add: bmc_def Let_def split_beta b on_clock_def assms(2,3))
  have "followed (s1 h a x) = (sourcePortIdentity h, a_grandmasterIdentity a, i16 (a_stepsRemoved a + 1))" for x
    by (simp add: followed_def s1_def Let_def raise_event_def)
  then show "fst (bmc w) = PTP_SLAVE" "followed (ptp (snd (bmc w))) = (sourcePortIdentity h, a_grandmasterIdentity a, i16 (a_stepsRemoved a + 1))"
    using d [of junk] by (auto simp: j)
qed

lemma second_step:
  assumes "heard h a w v" "timers_good w" "\<not> expired ANNOUNCE_RECEIPT_TIMER w"
    and "\<And>c. defaultDS c = defaultDS (ptp w) \<Longrightarrow> \<not> own_better c h a" "\<not> clockClass (d_clockQuality (defaultDS (ptp w))) < 128"
  shows "port_state (doState v) = PTP_UNCALIBRATED \<and> recommendedState (ptp (doState v)) = PTP_SLAVE \<and>
    followed (ptp (doState v)) = (sourcePortIdentity h, a_grandmasterIdentity a, i16 (a_stepsRemoved a + 1))"
proof -
  let ?w1 = "on_clock (\<lambda>c. c\<lparr>messageActivity := False\<rparr>) v"
  let ?w2 = "on_clock (clear_event STATE_DECISION_EVENT) ?w1"
  let ?w4 = "on_clock (set_recommended PTP_SLAVE) (snd (bmc ?w2))"
  let ?u = "toState PTP_UNCALIBRATED ?w4"
  have pv: "port_state v = PTP_LISTENING" using assms(1) unfolding heard_def by blast
  then have ps: "port_state ?w1 = PTP_LISTENING" "port_state ?w2 = PTP_LISTENING" "port_state ?w4 = PTP_LISTENING"
    by (simp_all add: port_state_def clear_event_def set_recommended_def)
  have w2: "fm_count (foreignMasterDS (ptp ?w2)) = 1" "f_header (fm_records (foreignMasterDS (ptp ?w2)) ! 0) = h"
    "f_announce (fm_records (foreignMasterDS (ptp ?w2)) ! 0) = a" "defaultDS (ptp ?w2) = defaultDS (ptp w)"
    using assms(1) by (simp_all add: heard_def clear_event_def)
  note one = one_master [OF w2(1-3), unfolded w2(4), OF assms(4,5)]
  have "getFlag (events (ptp ?w1)) STATE_DECISION_EVENT"
    using assms(1) by (simp add: heard_def getFlag_def STATE_DECISION_EVENT_def)
  then have d: "doState_decide ?w1 = ?w4"
    using one(1) ps(1) by (simp add: doState_decide_def active_states_def Let_def split_beta)
  have p4: "recommendedState (ptp ?w4) = PTP_SLAVE" "netPath (ptp ?w4) = netPath (ptp v)"
    "timers ?w4 = timers w" "freed ?w4 = freed v"
    using assms(1) by (simp_all add: set_recommended_def heard_def clear_event_def)
  then have r: "doState_recommended ?w4 = ?u"
    using ps(3) by (simp add: doState_recommended_def)
  have u: "port_state ?u = PTP_UNCALIBRATED" "recommendedState (ptp ?u) = PTP_SLAVE" "followed (ptp ?u) = followed (ptp (snd (bmc ?w2)))"
    using p4(1) by (simp_all add: toState_recommends)
  have "keeps_receipt ?w4 ?u" "keeps_buffers ?w4 ?u" by (rule receipt.toState buffers.toState)+
  moreover have "timers_good ?w4" "\<not> expired ANNOUNCE_RECEIPT_TIMER ?w4"
    using timer_view [OF p4(3)] assms(2,3) by simp_all
  moreover have "net_good ?w4" "backlog ?w4 = 0" using assms(1) by (simp_all add: heard_def net_good_def backlog_def set_recommended_def clear_event_def)
  ultimately have t: "timers_good ?u" "\<not> expired ANNOUNCE_RECEIPT_TIMER ?u" "net_good ?u" "backlog ?u = 0"
    by (auto simp: keeps_receipt_def keeps_buffers_def)
  have "doState v = handle ?u"
    using u(1) by (simp add: doState_def d r doState_act_def not_expired_passive [OF t(1,2)])
  then show ?thesis using handle_idle [OF t(3,4)] u one(2) by simp
qed

section \<open>The property\<close>

text \<open>
  C15 (liveness).  A better clock is followed.  The Announce a master hands to lwIP, delivered in buffers cut in any way to
  a port that listens and has heard nothing, makes that port leave LISTENING in the second \<open>doState\<close>
  from then: it calibrates as a slave of the master that sent it, with the announced grandmaster and one more step
  removed; provided the announced grandmaster outranks the port's own clock, which must not be of a class below 128.
\<close>

theorem better_master_is_followed:
  assumes master: "link_up m" "packed_header (ptp m) (msgObuf (ptp m))" "wf_port_header (ptp m)" "wf_announced (ptp m)"
    and wire: "sent (issueAnnounce m) = sent m @ [Packet addr PTP_GENERAL_PORT ann]" "carries p ann"
    and slave: "listening w" "hears (ptp m) (ptp w)" "\<not> clockClass (d_clockQuality (defaultDS (ptp w))) < 128"
      "length (d_clockIdentity (defaultDS (ptp w))) = CLOCK_IDENTITY_LENGTH"
    and better: "outranks (announced (ptp m)) (ptp w)" "p_grandmasterIdentity (parentDS (ptp m)) \<noteq> d_clockIdentity (defaultDS (ptp w))"
    and steps: "v = doState (doState (netRecvGeneralCallback p w))"
  shows "port_state v = PTP_UNCALIBRATED \<and> recommendedState (ptp v) = PTP_SLAVE \<and>
    parentPortIdentity (parentDS (ptp v)) = portIdentity (portDS (ptp m)) \<and>
    p_grandmasterIdentity (parentDS (ptp v)) = p_grandmasterIdentity (parentDS (ptp m)) \<and>
    c_stepsRemoved (currentDS (ptp v)) = i16 (c_stepsRemoved (currentDS (ptp m)) + 1)"
proof -
  let ?b = "announce_buffer m"
  have id: "length (p_grandmasterIdentity (parentDS (ptp m))) = CLOCK_IDENTITY_LENGTH"
    using master(4) by (simp add: wf_announced_def)
  note h = header_msgPackAnnounce [OF master(2,3) id, folded announce_buffer_def]
  have a: "msgUnpackAnnounce ?b = announced (ptp m)"
    using body_msgPackAnnounce [OF _ master(4)] master(2) by (simp add: packed_header_def announce_buffer_def announced_def)
  have c: "carries p (take ANNOUNCE_LENGTH ?b)" using wire issueAnnounce_sends [OF master(1)] by simp
  have l: "length ?b = PACKET_SIZE" using h(1) by (simp add: packed_header_def)
  have "\<not> own_better c (msgUnpackHeader ?b) (announced (ptp m))" if "defaultDS c = defaultDS (ptp w)" for c
  proof (rule outranks_decides)
    show "outranks (announced (ptp m)) c" using better(1) that by (simp add: outranks_def copyD0_announce_def)
    show "gm_id_ok (announced (ptp m))" using id by (simp add: gm_id_ok_def announced_def)
  qed (use that slave(4) better(2) in \<open>simp_all add: announced_def\<close>)
  then have "port_state v = PTP_UNCALIBRATED \<and> recommendedState (ptp v) = PTP_SLAVE \<and> followed (ptp v) =
      (sourcePortIdentity (msgUnpackHeader ?b), a_grandmasterIdentity (announced (ptp m)), i16 (a_stepsRemoved (announced (ptp m)) + 1))"
    unfolding steps using slave(1,3) second_step [OF first_step [OF slave(1,2) c l h(2)]] by (simp add: a listening_def)
  then show ?thesis by (simp add: followed_def h(2) port_header_def announced_def)
qed

text \<open>A listener of priority 200 and the master of \<open>Exchange\<close>, of priority 128.\<close>

definition listener :: world where
  "listener = (boot_world calm_env)\<lparr>ptp := sample_port\<lparr>
     defaultDS := (defaultDS sample_port)\<lparr>d_clockIdentity := [9,1,2,255,254,3,4,5], d_priority1 := 200\<rparr>,
     portDS := (portDS sample_port)\<lparr>portState := PTP_LISTENING, portIdentity := \<lparr>clockIdentity = [9,1,2,255,254,3,4,5], portNumber = 1\<rparr>\<rparr>,
     foreignMasterDS := \<lparr>fm_records = [zero_record], fm_count = 0, fm_capacity = 1, fm_i = 0, fm_best = 0\<rparr>,
     recommendedState := PTP_LISTENING\<rparr>\<rparr>"

lemma listener_ok:
  "listening listener" "hears (ptp sample_master_world) (ptp listener)" "\<not> clockClass (d_clockQuality (defaultDS (ptp listener))) < 128"
  "length (d_clockIdentity (defaultDS (ptp listener))) = CLOCK_IDENTITY_LENGTH"
  "outranks (announced (ptp sample_master_world)) (ptp listener)"
  "p_grandmasterIdentity (parentDS (ptp sample_master_world)) \<noteq> d_clockIdentity (defaultDS (ptp listener))"
proof -
  show "listening listener"
    by (simp add: listening_def listener_def port_state_def sample_port_def zero_clock_def boot_world_def expired_def timers_good_def
        timer_ix_defs zero_queue_def net_good_def backlog_def table_ok_def fm_ok_def fm_dense_def ring_defs)
  show "hears (ptp sample_master_world) (ptp listener)"
    by (simp add: hears_def listener_def sample_master_world_def) code_simp
  show "outranks (announced (ptp sample_master_world)) (ptp listener)"
    by (simp add: outranks_def listener_def sample_master_world_def announced_def copyD0_announce_def gm_key_def sample_port_def)
qed (simp_all add: listener_def sample_master_world_def sample_port_def CLOCK_IDENTITY_LENGTH_def)

theorem better_master_is_followed_witness:
  "\<exists>p. port_state (doState (doState (netRecvGeneralCallback p listener))) = PTP_UNCALIBRATED"
proof -
  let ?m = sample_master_world and ?b = "announce_buffer sample_master_world"
  have a: "wf_announced (ptp ?m)"
    by (simp add: wf_announced_def sample_master_world_def sample_port_def c_range CLOCK_IDENTITY_LENGTH_def)
  have "length ?b = PACKET_SIZE"
    using header_msgPackAnnounce(1) [OF sample_master_ok(2,3)] a by (simp add: announce_buffer_def wf_announced_def packed_header_def)
  then have c: "carries (one_segment 1 (take ANNOUNCE_LENGTH ?b)) (take ANNOUNCE_LENGTH ?b)"
    by (intro carries_one) (simp_all add: ANNOUNCE_LENGTH_def PACKET_SIZE_def)
  show ?thesis
    using better_master_is_followed [OF sample_master_ok(1-3) a issueAnnounce_sends [OF sample_master_ok(1)] c listener_ok refl] by blast
qed

end
