(* ===== verification/Calibrate.thy ===== *)
theory Calibrate
  imports Acquire
begin

text \<open>
  From UNCALIBRATED to SLAVE: the Sync and the Follow_Up of the master a port follows, through three calls of
  \<open>doState\<close>.
\<close>

section \<open>What the servo does to the events\<close>

definition decision :: "PtpClock \<Rightarrow> int \<times> ptp_state \<times> PortDS" where
  "decision c = (events c, recommendedState c, portDS c)"

lemma decision_simps [simp]:
  "decision (set_offset t c) = decision c" "decision (c\<lparr>ofm_filt := x\<rparr>) = decision c" "decision (c\<lparr>Tms := t\<rparr>) = decision c"
  "decision (c\<lparr>msgObuf := b\<rparr>) = decision c" "decision (c\<lparr>messageActivity := y\<rparr>) = decision c"
  by (simp_all add: decision_def set_offset_def)

lemma updateClock_decision [simp]: "decision (ptp (updateClock w)) = decision (ptp w)"
proof -
  have r: "decision (ptp (initClock v)) = decision (ptp v)" for v by (simp add: initClock_unfold decision_def)
  have "decision (ptp (updateClock_far w)) = decision (ptp w)"
    unfolding updateClock_far_def Let_def split_beta by (simp add: adjTime_clamp r del: ask_simps initClock_frame)
  moreover have "decision (ptp (updateClock_pi w)) = decision (ptp w)"
    unfolding updateClock_pi_def Let_def by (simp add: DEFAULT_PARENTS_STATS_def adjTime_clamp decision_def)
  ultimately show ?thesis by (simp add: updateClock_def Let_def)
qed

lemma issueDelayReqTimerExpired_decision [simp]: "decision (ptp (issueDelayReqTimerExpired w)) = decision (ptp w)"
proof -
  have t: "decision (ptp (timerStartRand k n v)) = decision (ptp v)" "decision (ptp (snd (timerExpired k v))) = decision (ptp v)"
    for k n v by (simp_all add: timerStartRand_def Let_def split_beta)
  have "decision (ptp (issueDelayReq v)) = decision (ptp v)" "decision (ptp (issuePDelayReq v)) = decision (ptp v)" for v
    unfolding issueDelayReq_def issuePDelayReq_def Let_def split_beta netSendEvent_def netSendPeerEvent_def
    by (simp_all add: netSend_length DELAY_REQ_LENGTH_def PDELAY_REQ_LENGTH_def set_obuf_def getTime_def) (simp_all add: decision_def)
  then show ?thesis
    unfolding issueDelayReqTimerExpired_def Let_def split_beta by (simp add: t split: delay_mechanism.split)
qed

text \<open>A small offset selects the master.\<close>

lemma small_offset_selects:
  assumes "offset_inputs_ok rx origin corr (ptp w)" "raw_offset rx origin corr (ptp w) = x" "\<bar>x\<bar> < DEFAULT_CALIBRATED_OFFSET_NS"
    and "pass_through (ofm_filt (ptp w))" "port_state w = PTP_UNCALIBRATED" "events (ptp w) = 0"
  shows "decision (ptp (sync_update rx origin corr w)) = (MASTER_CLOCK_SELECTED, recommendedState (ptp w), portDS (ptp w))"
proof -
  let ?c = "updateOffset rx origin corr (ptp w)"
  note f = filter_pass_through(1) [OF assms(4), of x]
  have x: "\<bar>x\<bar> < 10000" "i32 \<bar>x\<bar> = \<bar>x\<bar>" using assms(3) by (simp_all add: DEFAULT_CALIBRATED_OFFSET_NS_def is_i32_def)
  then have e: "?c = raise_event MASTER_CLOCK_SELECTED (set_offset ((time_of_ns x)\<lparr>nanoseconds := x\<rparr>)
      ((ptp w)\<lparr>Tms := subTime (subTime rx origin) corr, ofm_filt := snd (filter_ptp x (ofm_filt (ptp w)))\<rparr>))"
    using f assms(3,5)
    by (simp add: updateOffset_unfold updateOffset_raw [OF assms(1)] assms(2) Let_def seconds_time_of_ns time_of_ns_small port_state_def)
  have "decision ?c = (MASTER_CLOCK_SELECTED, recommendedState (ptp w), portDS (ptp w))"
    using assms(6) unfolding e by (simp add: decision_def raise_event_def setFlag_def set_offset_def)
  then show ?thesis by (simp add: sync_update_def)
qed

section \<open>Into SLAVE\<close>

lemma selected_enters_slave:
  assumes "decision (ptp w) = (MASTER_CLOCK_SELECTED, PTP_SLAVE, d)" "portState d = PTP_UNCALIBRATED"
    and "timers_good w" "\<not> expired ANNOUNCE_RECEIPT_TIMER w" "net_good w" "backlog w = 0"
  shows "port_state (doState w) = PTP_SLAVE \<and> recommendedState (ptp (doState w)) = PTP_SLAVE"
proof -
  let ?w = "on_clock (\<lambda>c. c\<lparr>messageActivity := False\<rparr>) w"
  have d: "events (ptp ?w) = MASTER_CLOCK_SELECTED" "recommendedState (ptp ?w) = PTP_SLAVE" "portState (portDS (ptp ?w)) = PTP_UNCALIBRATED"
    using assms(1,2) by (simp_all add: decision_def)
  have fl: "\<not> getFlag MASTER_CLOCK_SELECTED STATE_DECISION_EVENT" "getFlag MASTER_CLOCK_SELECTED MASTER_CLOCK_SELECTED"
    "\<not> getFlag (clearFlag MASTER_CLOCK_SELECTED MASTER_CLOCK_SELECTED) MASTER_CLOCK_CHANGED"
    by (simp_all add: getFlag_def clearFlag_def STATE_DECISION_EVENT_def MASTER_CLOCK_SELECTED_def MASTER_CLOCK_CHANGED_def)
  define u where "u = on_clock (\<lambda>c. set_portState PTP_SLAVE ((clear_event MASTER_CLOCK_SELECTED c)\<lparr>messageActivity := True\<rparr>)) ?w"
  have "doState_decide ?w = ?w" using d(1) fl(1) by (simp add: doState_decide_def)
  moreover have "toState PTP_SLAVE (on_clock (clear_event MASTER_CLOCK_SELECTED) ?w) = u"
    using d(3) by (simp add: toState_def leaveState_def leaveSlave_def enterState_def port_state_def u_def on_clock_compose clear_event_def)
  moreover have "events (ptp u) = clearFlag MASTER_CLOCK_SELECTED MASTER_CLOCK_SELECTED"
    using d(1) by (simp add: u_def set_portState_def clear_event_def)
  ultimately have r: "doState_recommended (doState_decide ?w) = u"
    using d fl by (simp add: doState_recommended_def port_state_def)
  have u: "port_state u = PTP_SLAVE" "recommendedState (ptp u) = PTP_SLAVE" "netPath (ptp u) = netPath (ptp w)" "timers u = timers w"
    using d(2) by (simp_all add: u_def port_state_def set_portState_def clear_event_def)
  have g: "net_good u" "backlog u = 0" "timers_good u" "\<not> expired ANNOUNCE_RECEIPT_TIMER u"
    using assms(3-6) u(3,4) timer_view [OF u(4)] by (simp_all add: net_good_def backlog_def)
  have "doState w = handle u"
    by (simp add: doState_def r doState_act_def u(1) not_expired_passive [OF g(3,4)])
  then show ?thesis using handle_idle [OF g(1,2)] u(1,2) by simp
qed

section \<open>The two messages\<close>

text \<open>A port that waits for its master's next Sync.\<close>

definition awaiting :: "PtpClock \<Rightarrow> world \<Rightarrow> bool" where
  "awaiting m w \<longleftrightarrow> slave_of m (ptp w) \<and> port_state w = PTP_UNCALIBRATED \<and> recommendedState (ptp w) = PTP_SLAVE \<and>
     events (ptp w) = 0 \<and> length (msgIbuf (ptp w)) = PACKET_SIZE \<and> net_good w \<and> timers_good w \<and>
     \<not> expired ANNOUNCE_RECEIPT_TIMER w"

lemma awaiting_handles:
  assumes "awaiting m w"
  shows "doState w = handle (on_clock (\<lambda>c. c\<lparr>messageActivity := False\<rparr>) w)"
    "awaiting m (on_clock (\<lambda>c. c\<lparr>messageActivity := False\<rparr>) w)"
proof -
  let ?w = "on_clock (\<lambda>c. c\<lparr>messageActivity := False\<rparr>) w"
  have t: "timers_good ?w" "\<not> expired ANNOUNCE_RECEIPT_TIMER ?w"
    using assms timer_view [of ?w w] by (simp_all add: awaiting_def)
  have "settled w" using assms by (simp add: awaiting_def settled_def)
  then show "doState w = handle ?w" using settled_doState not_expired_passive [OF t] by simp
  show "awaiting m ?w" using assms t by (simp add: awaiting_def slave_of_def port_state_def net_good_def)
qed

lemma sync_step:
  assumes "awaiting m w" "q_contents (eventQ (netPath (ptp w))) = [p]" "q_contents (generalQ (netPath (ptp w))) = [q]"
    and "carries p (take SYNC_LENGTH b)" "length b = PACKET_SIZE"
    and "msgUnpackHeader b = port_header m fl SYNC SYNC_LENGTH 0 s ctrl lmi" "uint (fl ! 0) = FLAG0_TWO_STEP"
  shows "awaiting m (doState w)" "q_contents (eventQ (netPath (ptp (doState w)))) = []"
    "q_contents (generalQ (netPath (ptp (doState w)))) = [q]"
    "timestamp_syncRecieve (ptp (doState w)) = arrival (e_rx (env w) (tick w)) (ptp w)" "waitingForFollowUp (ptp (doState w))"
    "recvSyncSequenceId (ptp (doState w)) = s" "correctionField_sync (ptp (doState w)) = zero_time"
    "currentDS (ptp (doState w)) = currentDS (ptp w)" "portDS (ptp (doState w)) = portDS (ptp w)"
    "ofm_filt (ptp (doState w)) = ofm_filt (ptp w)"
proof -
  let ?w = "on_clock (\<lambda>c. c\<lparr>messageActivity := False\<rparr>) w"
  have a: "awaiting m ?w" by (rule awaiting_handles(2) [OF assms(1)])
  have sl: "slave_of m (ptp ?w)" "length (msgIbuf (ptp ?w)) = PACKET_SIZE" "net_good ?w" using a unfolding awaiting_def by blast+
  have qe: "q_contents (eventQ (netPath (ptp ?w))) = p # []" using assms(2) by simp
  obtain f n where 1: "handle ?w = on_clock f (pbuf_free p (?w\<lparr>tick := n\<rparr>))"
    and sf: "slave_of m (f (ptp ?w))" and ln: "length (msgIbuf (f (ptp ?w))) = PACKET_SIZE"
    and rec: "timestamp_syncRecieve (f (ptp ?w)) = arrival (e_rx (env ?w) (tick ?w)) (ptp ?w)" "waitingForFollowUp (f (ptp ?w))"
      "recvSyncSequenceId (f (ptp ?w)) = s" "correctionField_sync (f (ptp ?w)) = zero_time"
    and net: "netPath (f (ptp ?w)) = (netPath (ptp ?w))\<lparr>eventQ := snd (netQGet (eventQ (netPath (ptp ?w))))\<rparr>"
    and same: "currentDS (f (ptp ?w)) = currentDS (ptp ?w)" "portDS (f (ptp ?w)) = portDS (ptp ?w)"
      "ofm_filt (f (ptp ?w)) = ofm_filt (ptp ?w)" "events (f (ptp ?w)) = events (ptp ?w)"
      "recommendedState (f (ptp ?w)) = recommendedState (ptp ?w)"
    by (rule sync_recorded [OF sl qe assms(4,5,6,7)])
  have d: "doState w = on_clock f (pbuf_free p (?w\<lparr>tick := n\<rparr>))" using 1 awaiting_handles(1) [OF assms(1)] by simp
  note sf = sf [unfolded on_clock_simps(1)] and ln = ln [unfolded on_clock_simps(1)] and rec = rec [unfolded on_clock_simps(1)]
    and net = net [unfolded on_clock_simps(1)] and same = same [unfolded on_clock_simps(1)]
  have pd: "ptp (doState w) = f ((ptp w)\<lparr>messageActivity := False\<rparr>)" by (simp add: d)
  have "timers (doState w) = timers w" by (simp add: d pbuf_free_def)
  note t = timer_view [OF this]
  have g: "net_good (doState w)" "q_contents (eventQ (netPath (ptp (doState w)))) = []" "q_contents (generalQ (netPath (ptp (doState w)))) = [q]"
    using sl(3) qe assms(3) by (auto simp: net_good_def pd net ring_get)
  then show "q_contents (eventQ (netPath (ptp (doState w)))) = []" "q_contents (generalQ (netPath (ptp (doState w)))) = [q]" by blast+
  show "awaiting m (doState w)"
    using a assms(1) sf ln g(1) t same by (simp add: awaiting_def pd port_state_def)
  show "timestamp_syncRecieve (ptp (doState w)) = arrival (e_rx (env w) (tick w)) (ptp w)" "waitingForFollowUp (ptp (doState w))"
    "recvSyncSequenceId (ptp (doState w)) = s" "correctionField_sync (ptp (doState w)) = zero_time"
    "currentDS (ptp (doState w)) = currentDS (ptp w)" "portDS (ptp (doState w)) = portDS (ptp w)"
    "ofm_filt (ptp (doState w)) = ofm_filt (ptp w)"
    by (simp_all add: pd rec same arrival_def)
qed

lemma followup_step:
  assumes "awaiting m w" "q_contents (eventQ (netPath (ptp w))) = []" "q_contents (generalQ (netPath (ptp w))) = [q]"
    and "carries q (take FOLLOW_UP_LENGTH b)" "length b = PACKET_SIZE"
    and "msgUnpackHeader b = port_header m fl FOLLOW_UP FOLLOW_UP_LENGTH 0 s ctrl lmi"
    and "waitingForFollowUp (ptp w)" "recvSyncSequenceId (ptp w) = s" "correctionField_sync (ptp w) = zero_time"
    and "\<And>old. toInternalTime old (preciseOriginTimestamp (msgUnpackFollowUp b)) = t" "pass_through (ofm_filt (ptp w))"
    and "offset_inputs_ok (timestamp_syncRecieve (ptp w)) t zero_time (ptp w)"
    and "\<bar>raw_offset (timestamp_syncRecieve (ptp w)) t zero_time (ptp w)\<bar> < DEFAULT_CALIBRATED_OFFSET_NS"
  shows "port_state (doState (doState w)) = PTP_SLAVE"
proof -
  let ?w = "on_clock (\<lambda>c. c\<lparr>messageActivity := False\<rparr>) w" and ?rx = "timestamp_syncRecieve (ptp w)"
  have a: "awaiting m ?w" by (rule awaiting_handles(2) [OF assms(1)])
  have sl: "slave_of m (ptp ?w)" "length (msgIbuf (ptp ?w)) = PACKET_SIZE" "net_good ?w" using a unfolding awaiting_def by blast+
  have q: "q_contents (eventQ (netPath (ptp ?w))) = []" "q_contents (generalQ (netPath (ptp ?w))) = q # []"
    "waitingForFollowUp (ptp ?w)" "recvSyncSequenceId (ptp ?w) = s" "correctionField_sync (ptp ?w) = zero_time"
    using assms(2,3,7-9) by simp_all
  obtain u old where h: "handle ?w = issueDelayReqTimerExpired (sync_update (timestamp_syncRecieve (ptp ?w))
      (toInternalTime old (preciseOriginTimestamp (msgUnpackFollowUp b))) zero_time u)"
    and c: "currentDS (ptp u) = currentDS (ptp ?w)" "portDS (ptp u) = portDS (ptp ?w)" "ofm_filt (ptp u) = ofm_filt (ptp ?w)"
      "events (ptp u) = events (ptp ?w)" "recommendedState (ptp u) = recommendedState (ptp ?w)"
    by (rule followup_applied [OF sl q(1,2) assms(4,5,6) q(3-5)])
  have d: "doState w = issueDelayReqTimerExpired (sync_update ?rx t zero_time u)"
    using h awaiting_handles(1) [OF assms(1)] by (simp add: assms(10))
  have s: "port_state w = PTP_UNCALIBRATED" "recommendedState (ptp w) = PTP_SLAVE" "events (ptp w) = 0"
    using assms(1) by (simp_all add: awaiting_def)
  have "decision (ptp (sync_update ?rx t zero_time u)) = (MASTER_CLOCK_SELECTED, recommendedState (ptp u), portDS (ptp u))"
    by (rule small_offset_selects [OF _ refl])
      (use assms(11-13) s in \<open>simp_all add: c offset_inputs_ok_def raw_offset_def port_state_def split: delay_mechanism.splits\<close>)
  then have dec: "decision (ptp (doState w)) = (MASTER_CLOCK_SELECTED, PTP_SLAVE, portDS (ptp w))"
    by (simp add: d c s(2))
  have "keeps_receipt ?w (handle ?w)" by (rule receipt.handle)
  moreover have "backlog ?w = 1" using q(1,2) by (simp add: backlog_def)
  ultimately have "timers_good (doState w)" "\<not> expired ANNOUNCE_RECEIPT_TIMER (doState w)" "backlog (doState w) = 0" "net_good (doState w)"
    using a awaiting_handles(1) [OF assms(1)] handle_consumes [OF sl(3)] buffers.handle [of ?w]
    by (auto simp: awaiting_def keeps_receipt_def keeps_buffers_def)
  then show ?thesis using selected_enters_slave [OF dec] s(1) by (simp add: port_state_def)
qed


text \<open>The slave of \<open>Exchange\<close> before it is one.\<close>

definition calibrating :: "pbuf \<Rightarrow> pbuf \<Rightarrow> world" where
  "calibrating p q = on_clock (\<lambda>c. c\<lparr>portDS := (portDS c)\<lparr>portState := PTP_UNCALIBRATED\<rparr>, recommendedState := PTP_SLAVE, events := 0\<rparr>)
     (slave_with p q)"


end
