(* ===== verification/Opened.thy ===== *)
theory Opened
  imports Rounds
begin

text \<open>
  What the engine never does once the network is open: it asks lwIP for no further control block, keeps the ones it
  has and their addresses, whatever the messages say.  One more interpretation of \<open>engine_relation\<close>.
\<close>

section \<open>The operations of the other components\<close>

lemma timer_next [simp]:
  "next_pcb (timerStop k w) = next_pcb w" "next_pcb (timerStart k ms w) = next_pcb w" "next_pcb (snd (timerExpired k w)) = next_pcb w"
  by (simp_all add: timerStop_def timerStart_def timerExpired_def)

lemma rand_next [simp]: "next_pcb (snd (getRand m w)) = next_pcb w" "next_pcb (snd (adjTime a w)) = next_pcb w"
  "next_pcb (setTime t w) = next_pcb w" "next_pcb (snd (getTime w)) = next_pcb w"
  by (simp_all add: getTime_def getRand_def adjTime_def setTime_def split_beta Let_def)

lemma netRecv_effects [simp]:
  "env (snd (netRecv b s t q w)) = env w" "sent (snd (netRecv b s t q w)) = sent w" "pcbs (snd (netRecv b s t q w)) = pcbs w"
  "next_pcb (snd (netRecv b s t q w)) = next_pcb w"
  unfolding netRecv_def Let_def split_beta pbuf_free_def by (simp_all split: option.split)

section \<open>The law\<close>

definition addresses :: "NetPath \<Rightarrow> int \<times> int \<times> int" where
  "addresses n = (multicastAddr n, peerMulticastAddr n, unicastAddr n)"

definition keeps_open :: "world \<Rightarrow> world \<Rightarrow> bool" where
  "keeps_open w w' \<longleftrightarrow> next_pcb w' = next_pcb w \<and> map fst (pcbs w') = map fst (pcbs w) \<and>
     eventPcb (netPath (ptp w')) = eventPcb (netPath (ptp w)) \<and> generalPcb (netPath (ptp w')) = generalPcb (netPath (ptp w)) \<and>
     addresses (netPath (ptp w')) = addresses (netPath (ptp w))"

lemma same_open:
  "next_pcb w' = next_pcb w \<Longrightarrow> map fst (pcbs w') = map fst (pcbs w) \<Longrightarrow>
    eventPcb (netPath (ptp w')) = eventPcb (netPath (ptp w)) \<Longrightarrow> generalPcb (netPath (ptp w')) = generalPcb (netPath (ptp w)) \<Longrightarrow>
    addresses (netPath (ptp w')) = addresses (netPath (ptp w)) \<Longrightarrow> keeps_open w w'"
  by (simp add: keeps_open_def)

lemma keeps_open_trans: "keeps_open w w' \<Longrightarrow> keeps_open w' w'' \<Longrightarrow> keeps_open w w''"
  by (simp add: keeps_open_def)

lemma netSend_next: "next_pcb (snd (netSend b l s t a k w)) = next_pcb w"
  unfolding netSend_def udp_sendto_def set_local_port_def Let_def split_beta by (cases k; simp split: option.split)

lemma receive_open: "keeps_open w (snd (netRecvEvent b s t w))" "keeps_open w (snd (netRecvGeneral b s t w))"
  by (rule same_open; simp add: netRecvEvent_def netRecvGeneral_def Let_def split_beta addresses_def)+

lemma reset_open: "keeps_open w (initClock w)"
  by (rule same_open) (simp_all add: initClock_unfold netEmptyEventQ_def Let_def split_beta addresses_def)

lemma servo_open: "keeps_open w (updateClock w)"
proof -
  have "keeps_open w (updateClock_pi w)"
    unfolding updateClock_pi_def Let_def by (rule same_open) (simp_all add: DEFAULT_PARENTS_STATS_def adjTime_clamp)
  moreover have "keeps_open w (updateClock_far w)"
    unfolding updateClock_far_def Let_def split_beta
    by (simp add: adjTime_clamp del: ask_simps initClock_frame)
      (intro conjI impI keeps_open_trans [OF _ reset_open] same_open; simp)
  ultimately show ?thesis by (simp add: updateClock_def Let_def)
qed

interpretation opened: engine_relation keeps_open
proof unfold_locales
  show "keeps_open w w''" if "keeps_open w w'" "keeps_open w' w''" for w w' w''
    by (rule keeps_open_trans [OF that])
  show "keeps_open w (on_clock f w)" if "\<And>c. core (f c) = core c" for f w
    using that [of "ptp w"] by (intro same_open) (simp_all add: core_def)
  show "keeps_open w (snd (netSend b l s t a pcb w))" for b l s t a pcb w
    by (rule same_open) (simp_all add: netSend_next)
  show "keeps_open w (snd (netRecvEvent b s t w))" "keeps_open w (snd (netRecvGeneral b s t w))" for w b s t
    by (rule receive_open)+
  show "keeps_open w (updateClock w)" "keeps_open w (initClock w)" for w
    by (rule servo_open reset_open)+
qed ((rule same_open; simp add: set_portState_def set_recommended_def)+)

section \<open>Opening\<close>

lemma udp_bind_blocks [simp]: "map fst (pcbs (udp_bind k n w)) = map fst (pcbs w)"
  by (auto simp: udp_bind_def set_local_port_def split: option.split)

lemma udp_bind_path [simp]: "ptp (udp_bind k n w) = ptp w"
  by (simp add: udp_bind_def set_local_port_def split: option.split)

lemma delivers_names: "delivers k w \<longleftrightarrow> (\<exists>i. k = Some i \<and> i \<in> set (map fst (pcbs w)))"
  by (simp add: delivers_def split: option.split)

lemma delivers_by:
  assumes "map fst (pcbs w') = map fst (pcbs w)"
  shows "delivers k w' = delivers k w"
  by (simp only: delivers_names assms)

lemma delivers_open:
  "keeps_open w w' \<Longrightarrow> delivers (eventPcb (netPath (ptp w'))) w' = delivers (eventPcb (netPath (ptp w))) w"
  by (simp add: keeps_open_def delivers_names del: list.set_map)

lemma udp_new_delivers:
  "fst (udp_new w) \<noteq> None \<Longrightarrow> delivers (fst (udp_new w)) (snd (udp_new w))"
  "delivers k w \<Longrightarrow> delivers k (snd (udp_new w))" "ptp (snd (udp_new w)) = ptp w"
  unfolding udp_new_def Let_def split_beta by (auto simp: delivers_names split: if_splits)

lemma delivers_net [simp]: "delivers k (on_net f w) = delivers k w"
  by (simp add: delivers_names)

lemma netInit_delivers:
  assumes "fst (netInit w)"
  shows "delivers (eventPcb (netPath (ptp (snd (netInit w))))) (snd (netInit w))"
proof -
  define x where "x = snd (findIface (on_net (\<lambda>n. n\<lparr>eventQ := netQInit (eventQ n), generalQ := netQInit (generalQ n)\<rparr>) w))"
  define v where "v = on_net (\<lambda>n. n\<lparr>eventPcb := fst (udp_new x)\<rparr>) (snd (udp_new x))"
  define u where "u = on_net (\<lambda>n. n\<lparr>generalPcb := fst (udp_new v)\<rparr>) (snd (udp_new v))"
  have ok: "fst (udp_new x) \<noteq> None"
    and e: "eventPcb (netPath (ptp (snd (netInit w)))) = eventPcb (netPath (ptp u))"
    and p: "map fst (pcbs (snd (netInit w))) = map fst (pcbs u)"
    using assms unfolding netInit_def Let_def split_beta x_def [symmetric] v_def [symmetric] u_def [symmetric]
    by (auto split: if_splits)
  have "delivers (fst (udp_new x)) u" using udp_new_delivers(1) [OF ok] udp_new_delivers(2) [of _ v] by (simp add: u_def v_def)
  moreover have "eventPcb (netPath (ptp u)) = fst (udp_new x)" by (simp add: u_def v_def udp_new_delivers(3))
  ultimately show ?thesis by (simp only: e delivers_by [OF p])
qed

lemma doInit_delivers:
  assumes "fst (doInit w)"
  shows "delivers (eventPcb (netPath (ptp (snd (doInit w))))) (snd (doInit w))"
proof -
  let ?v = "on_clock initData (snd (netInit w))"
  have d: "snd (doInit w) = on_clock (\<lambda>c. c\<lparr>msgObuf := msgPackHeader c (msgObuf c)\<rparr>) (on_clock m1 (initClock (initTimer ?v)))"
    by (rule doInit_opened [OF assms]) simp
  have "fst (netInit w)" using assms unfolding doInit_def Let_def split_beta by (simp split: if_splits)
  then show ?thesis
    using netInit_delivers [of w] reset_open [of "initTimer ?v"]
    by (simp add: d keeps_open_def delivers_names initData_def Let_def del: list.set_map)
qed

lemma calm_delivers:
  "delivers (eventPcb (netPath (ptp (doState (boot default_opts calm_env))))) (doState (boot default_opts calm_env))"
proof -
  let ?w = "on_clock (\<lambda>c. c\<lparr>messageActivity := False\<rparr>) (boot default_opts calm_env)"
  have b: "booting default_opts (boot default_opts calm_env)"
    by (rule boot_booting) (simp add: good_opts_def default_opts_def DEFAULT_MAX_FOREIGN_RECORDS_def)
  have e: "env ?w = calm_env" "port_state ?w = PTP_INITIALIZING"
    by (simp_all add: boot_def ptpdStartup_def toState_def enterState_def leaveState_def boot_world_def
        zero_clock_def port_state_def Let_def set_portState_def set_recommended_def)
  have "doState (boot default_opts calm_env) = toState PTP_LISTENING (snd (doInit ?w))"
    using e(2) calm_doInit [OF e(1)] by (simp add: booting_doState [OF b] doState_act_def split_beta)
  then show ?thesis
    using doInit_delivers [OF calm_doInit [OF e(1)]] delivers_open [OF opened.toState] by simp
qed

lemma calm_pcbs: "pcbs (doState (boot default_opts calm_env)) \<noteq> []"
  using calm_delivers by (auto simp: delivers_def split: option.splits)

end
