(* ===== verification/Typing.thy ===== *)
theory Typing
  imports Opened
begin

text \<open>
  The types of the C structs as a predicate on the data of the daemon, and the proof that every operation keeps
  it: the unbounded integers of the model never hold a value the C variable could not.  Together with it goes
  the shape of the buffers, the outgoing one carrying the header that \<open>msgPackHeader\<close> stored in it.
\<close>

section \<open>The types\<close>

definition typed_quality :: "ClockQuality \<Rightarrow> bool" where
  "typed_quality q \<longleftrightarrow> is_u8 (clockClass q) \<and> is_u8 (clockAccuracy q) \<and> is_i16 (offsetScaledLogVariance q)"

definition typed_identity :: "ClockIdentity \<Rightarrow> bool" where
  "typed_identity i \<longleftrightarrow> length i = CLOCK_IDENTITY_LENGTH"

definition is_u4 :: "int \<Rightarrow> bool" where "is_u4 x \<longleftrightarrow> 0 \<le> x \<and> x \<le> 15"

definition typed_header :: "MsgHeader \<Rightarrow> bool" where
  "typed_header h \<longleftrightarrow> is_u4 (h_transportSpecific h) \<and> is_u4 (messageType h) \<and> is_u4 (versionPTP h) \<and>
     is_i16 (messageLength h) \<and> is_u8 (h_domainNumber h) \<and> length (flagField h) = 2 \<and>
     is_i64 (correctionfield h) \<and> wf_PortIdentity (sourcePortIdentity h) \<and> is_i16 (sequenceId h) \<and>
     is_u8 (controlField h) \<and> is_i8 (logMessageInterval h)"

definition typed_announce :: "MsgAnnounce \<Rightarrow> bool" where
  "typed_announce a \<longleftrightarrow> wf_Timestamp (a_originTimestamp a) \<and> is_i16 (a_currentUtcOffset a) \<and>
     is_u8 (a_grandmasterPriority1 a) \<and> typed_quality (a_grandmasterClockQuality a) \<and>
     is_u8 (a_grandmasterPriority2 a) \<and> typed_identity (a_grandmasterIdentity a) \<and>
     is_i16 (a_stepsRemoved a) \<and> is_u8 (a_timeSource a)"

fun typed_tmp :: "MsgTmp \<Rightarrow> bool" where
  "typed_tmp TmpNone \<longleftrightarrow> True"
| "typed_tmp (TmpSync m) \<longleftrightarrow> wf_Timestamp (sync_originTimestamp m)"
| "typed_tmp (TmpFollow m) \<longleftrightarrow> wf_Timestamp (preciseOriginTimestamp m)"
| "typed_tmp (TmpResp m) \<longleftrightarrow> wf_Timestamp (receiveTimestamp m) \<and> wf_PortIdentity (resp_requestingPortIdentity m)"
| "typed_tmp (TmpPResp m) \<longleftrightarrow> wf_Timestamp (requestReceiptTimestamp m) \<and> wf_PortIdentity (presp_requestingPortIdentity m)"
| "typed_tmp (TmpPRespFollow m) \<longleftrightarrow>
     wf_Timestamp (responseOriginTimestamp m) \<and> wf_PortIdentity (prespfollow_requestingPortIdentity m)"
| "typed_tmp (TmpAnnounce a) \<longleftrightarrow> typed_announce a"

definition typed_record :: "ForeignMasterRecord \<Rightarrow> bool" where
  "typed_record r \<longleftrightarrow> wf_PortIdentity (foreignMasterPortIdentity r) \<and> is_i16 (foreignMasterAnnounceMessages r) \<and>
     typed_announce (f_announce r) \<and> typed_header (f_header r)"

definition typed_filter :: "Filter \<Rightarrow> bool" where
  "typed_filter f \<longleftrightarrow> is_i32 (y_prev f) \<and> is_i32 (y_sum f) \<and> is_i16 (filt_s f) \<and> is_i16 (s_prev f) \<and> is_i32 (filt_n f)"

definition typed_defaultDS :: "DefaultDS \<Rightarrow> bool" where
  "typed_defaultDS d \<longleftrightarrow> typed_identity (d_clockIdentity d) \<and> is_i16 (numberPorts d) \<and> typed_quality (d_clockQuality d) \<and>
     is_u8 (d_priority1 d) \<and> is_u8 (d_priority2 d) \<and> is_u8 (d_domainNumber d)"

definition typed_currentDS :: "CurrentDS \<Rightarrow> bool" where
  "typed_currentDS d \<longleftrightarrow> is_i16 (c_stepsRemoved d) \<and> wf_time (offsetFromMaster d) \<and> wf_time (meanPathDelay d)"

definition typed_parentDS :: "ParentDS \<Rightarrow> bool" where
  "typed_parentDS d \<longleftrightarrow> wf_PortIdentity (parentPortIdentity d) \<and> is_i16 (observedParentOffsetScaledLogVariance d) \<and>
     is_i32 (observedParentClockPhaseChangeRate d) \<and> typed_identity (p_grandmasterIdentity d) \<and>
     typed_quality (p_grandmasterClockQuality d) \<and> is_u8 (p_grandmasterPriority1 d) \<and> is_u8 (p_grandmasterPriority2 d)"

definition typed_propertiesDS :: "TimePropertiesDS \<Rightarrow> bool" where
  "typed_propertiesDS d \<longleftrightarrow> is_i16 (t_currentUtcOffset d) \<and> is_u8 (t_timeSource d)"

definition typed_portDS :: "PortDS \<Rightarrow> bool" where
  "typed_portDS d \<longleftrightarrow> wf_PortIdentity (portIdentity d) \<and> is_i8 (logMinDelayReqInterval d) \<and> wf_time (peerMeanPathDelay d) \<and>
     is_i8 (logAnnounceInterval d) \<and> is_u8 (announceReceiptTimeout d) \<and> is_i8 (logSyncInterval d) \<and>
     is_i8 (logMinPdelayReqInterval d) \<and> is_u4 (versionNumber d)"

definition typed_opts :: "RunTimeOpts \<Rightarrow> bool" where
  "typed_opts r \<longleftrightarrow> is_i8 (r_announceInterval r) \<and> is_i8 (r_syncInterval r) \<and> typed_quality (r_clockQuality r) \<and>
     is_u8 (r_priority1 r) \<and> is_u8 (r_priority2 r) \<and> is_u8 (r_domainNumber r) \<and> is_i16 (r_currentUtcOffset r) \<and>
     is_u8 (r_stats r) \<and> wf_time (r_inboundLatency r) \<and> wf_time (r_outboundLatency r) \<and>
     is_i16 (r_maxForeignRecords r) \<and> is_i16 (sOffset (r_servo r))"

text \<open>The times and the sequence numbers of the clock.\<close>

definition typed_times :: "PtpClock \<Rightarrow> bool" where
  "typed_times c \<longleftrightarrow> wf_time (Tms c) \<and> wf_time (Tsm c) \<and> wf_time (pdelay_t1 c) \<and> wf_time (pdelay_t2 c) \<and>
     wf_time (pdelay_t3 c) \<and> wf_time (pdelay_t4 c) \<and> wf_time (timestamp_syncRecieve c) \<and>
     wf_time (timestamp_delayReqSend c) \<and> wf_time (timestamp_delayReqRecieve c) \<and> wf_time (correctionField_sync c) \<and>
     wf_time (correctionField_pDelayResp c) \<and> wf_time (inboundLatency c) \<and> wf_time (outboundLatency c)"

definition typed_numbers :: "PtpClock \<Rightarrow> bool" where
  "typed_numbers c \<longleftrightarrow> is_i16 (sentPDelayReqSequenceId c) \<and> is_i16 (sentDelayReqSequenceId c) \<and>
     is_i16 (sentSyncSequenceId c) \<and> is_i16 (sentAnnounceSequenceId c) \<and> is_i16 (recvPDelayReqSequenceId c) \<and>
     is_i16 (recvSyncSequenceId c) \<and> is_i32 (observedDrift c) \<and> is_i32 (events c) \<and> is_u8 (stats c) \<and>
     is_i16 (sOffset (servo c))"

definition typed_buffers :: "PtpClock \<Rightarrow> bool" where
  "typed_buffers c \<longleftrightarrow> length (msgIbuf c) = PACKET_SIZE \<and> length (msgObuf c) = PACKET_SIZE \<and>
     0 \<le> msgIbufLength c \<and> msgIbufLength c \<le> int PACKET_SIZE"

text \<open>\<open>NETIF_MAX_HWADDR_LEN\<close> of lwIP.\<close>

definition PTP_UUID_LENGTH :: nat where "PTP_UUID_LENGTH = 6"

text \<open>Everything the engine writes itself.\<close>

definition typed_body :: "PtpClock \<Rightarrow> bool" where
  "typed_body c \<longleftrightarrow> typed_defaultDS (defaultDS c) \<and> typed_currentDS (currentDS c) \<and> typed_parentDS (parentDS c) \<and>
     typed_propertiesDS (timePropertiesDS c) \<and> typed_portDS (portDS c) \<and>
     list_all typed_record (fm_records (foreignMasterDS c)) \<and> typed_header (msgTmpHeader c) \<and> typed_tmp (msgTmp c) \<and>
     typed_buffers c \<and> typed_times c \<and> typed_numbers c \<and> typed_filter (ofm_filt c) \<and> typed_filter (owd_filt c) \<and>
     typed_filter (slv_filt c) \<and> length (offsetHistory c) = 2 \<and> list_all is_i16 (offsetHistory c) \<and>
     length (portUuidField c) = PTP_UUID_LENGTH \<and> typed_opts (rtOpts c)"

text \<open>
  The counters of the foreign master table and the network's state, which the invariants of the daemon bound, and
  the whole clock.  Addresses, queue indices and the number of queue slots are those of \<open>NetPath\<close> and \<open>BufQueue\<close>.
\<close>

definition typed_foreign :: "ForeignMasterDS \<Rightarrow> bool" where
  "typed_foreign fm \<longleftrightarrow> is_i16 (fm_count fm) \<and> is_i16 (fm_capacity fm) \<and> is_i16 (fm_i fm) \<and> is_i16 (fm_best fm)"

definition typed_queue :: "BufQueue \<Rightarrow> bool" where
  "typed_queue q \<longleftrightarrow> length (q_pbuf q) = PBUF_QUEUE_SIZE \<and> is_i16 (q_head q) \<and> is_i16 (q_tail q)"

definition typed_addresses :: "NetPath \<Rightarrow> bool" where
  "typed_addresses n \<longleftrightarrow> is_i32 (multicastAddr n) \<and> is_i32 (peerMulticastAddr n) \<and> is_i32 (unicastAddr n)"

definition typed_net :: "NetPath \<Rightarrow> bool" where
  "typed_net n \<longleftrightarrow> typed_addresses n \<and> typed_queue (eventQ n) \<and> typed_queue (generalQ n)"

definition typed_clock :: "PtpClock \<Rightarrow> bool" where
  "typed_clock c \<longleftrightarrow> typed_body c \<and> typed_foreign (foreignMasterDS c) \<and> typed_net (netPath c)"

text \<open>\<open>True\<close> once the header of the outgoing messages has been packed.\<close>

definition typed :: "bool \<Rightarrow> PtpClock \<Rightarrow> bool" where
  "typed b c \<longleftrightarrow> typed_body c \<and> (b \<longrightarrow> packed_header c (msgObuf c))"

definition typed_env :: "env \<Rightarrow> bool" where
  "typed_env e \<longleftrightarrow> (\<forall>n. wf_time (e_now e n) \<and> wf_time (e_rx e n) \<and> wf_time (e_tx e n) \<and> wf_time (e_time e n) \<and>
     typed_announce (e_announce e n))"

definition well_typed :: "bool \<Rightarrow> world \<Rightarrow> bool" where
  "well_typed b w \<longleftrightarrow> typed b (ptp w) \<and> typed_env (env w)"

lemmas typed_data_defs = typed_quality_def typed_identity_def is_u4_def typed_header_def typed_announce_def typed_record_def
  typed_filter_def typed_defaultDS_def typed_currentDS_def typed_parentDS_def typed_propertiesDS_def typed_portDS_def
  typed_opts_def typed_times_def typed_numbers_def typed_buffers_def

section \<open>Data\<close>

lemma typed_msgUnpackHeader: "typed_header (msgUnpackHeader buf)"
proof -
  have "0 \<le> peek8 buf 0 \<and> peek8 buf 0 \<le> 255" using is_u8_peek8 [of buf 0] by (simp add: is_u8_def)
  then have "0 \<le> peek8 buf 0 div 16 \<and> peek8 buf 0 div 16 \<le> 15" by presburger
  moreover have "is_u4 (x mod 16)" for x
    using pos_mod_bound [of 16 x] by (simp add: is_u4_def del: pos_mod_bound)
  ultimately show ?thesis
    by (simp add: msgUnpackHeader_def typed_header_def and_15 take_bit_eq_mod wf_PortIdentity_def) (simp add: is_u4_def)
qed

lemma wf_unpackTimestamp: "wf_Timestamp (unpackTimestamp buf)"
  by (simp add: unpackTimestamp_def wf_Timestamp_def)

lemma wf_unpackRequestingPort: "wf_PortIdentity (unpackRequestingPort buf)"
  by (simp add: unpackRequestingPort_def wf_PortIdentity_def)

lemma typed_msgUnpackAnnounce: "typed_announce (msgUnpackAnnounce buf)"
  by (simp add: msgUnpackAnnounce_def typed_announce_def typed_quality_def typed_identity_def wf_unpackTimestamp)

lemma typed_unpack:
  "typed_tmp (TmpSync (msgUnpackSync buf))" "typed_tmp (TmpFollow (msgUnpackFollowUp buf))"
  "typed_tmp (TmpResp (msgUnpackDelayResp buf))" "typed_tmp (TmpPResp (msgUnpackPDelayResp buf))"
  "typed_tmp (TmpPRespFollow (msgUnpackPDelayRespFollowUp buf))" "typed_tmp (TmpAnnounce (msgUnpackAnnounce buf))"
  by (simp_all add: msgUnpackSync_def msgUnpackFollowUp_def msgUnpackDelayResp_def msgUnpackPDelayResp_def
      msgUnpackPDelayRespFollowUp_def wf_unpackTimestamp wf_unpackRequestingPort typed_msgUnpackAnnounce)

lemma i32_literals: "is_i32 0" "is_i32 1" "is_i16 0" "is_u8 0"
  by (simp_all add: c_range)

text \<open>Every operation on times returns a time.\<close>

lemma wf_time_ops [simp]:
  "wf_time (scaledNanosecondsToInternalTime v)" "wf_time (addTime x y)" "wf_time (subTime x y)" "wf_time (div2Time x)"
  "wf_time \<lparr>seconds = 0, nanoseconds = 0\<rparr>"
  by (simp_all add: wf_time_def scaledNanosecondsToInternalTime_def addTime_def subTime_def div2Time_def i32_literals
      normalizeTime_def Let_def)

lemma wf_toInternalTime: "wf_time old \<Longrightarrow> wf_time (toInternalTime old ts)"
  by (simp add: wf_time_def toInternalTime_def)

lemma i32_div: "is_i32 x \<Longrightarrow> is_i32 (x div 2 ^ k)"
proof -
  assume x: "is_i32 x"
  have "x div 2 ^ k \<le> 2147483647 div 2 ^ k" "- 2147483648 div 2 ^ k \<le> x div 2 ^ k"
    using x by (intro zdiv_mono1; simp add: is_i32_def)+
  moreover have "(2147483647::int) div 2 ^ k \<le> 2147483647" "(-2147483648::int) \<le> - 2147483648 div 2 ^ k"
    using div_by_1 zdiv_mono2 [of 2147483647 1 "2 ^ k"] zdiv_mono2_neg [of "-2147483648" 1 "2 ^ k"] by simp_all
  ultimately show ?thesis by (simp add: is_i32_def)
qed

text \<open>The filter keeps its own types and those of the value it filters.\<close>

lemma typed_filter_order:
  assumes "typed_filter f" "is_i32 v"
  shows "typed_filter (snd (filter_order v f))"
proof -
  define f1 where "f1 = f\<lparr>filt_n := i32 (filt_n f + 1)\<rparr>"
  define f2 where "f2 = (if filt_n f1 = 1 then f1\<lparr>y_prev := v, y_sum := v, s_prev := 0\<rparr> else f1)"
  have 2: "typed_filter f2" using assms by (simp add: f1_def f2_def typed_filter_def i32_literals)
  have "snd (filter_order v f) = (if i32 (2 ^ nat (filt_s f2)) > filt_n f2 then f2 else f2\<lparr>filt_n := i32 (2 ^ nat (filt_s f2))\<rparr>)"
    unfolding filter_order_def Let_def f1_def [symmetric] f2_def [symmetric] by (simp add: split_beta)
  then show ?thesis using 2 by (simp add: typed_filter_def)
qed

lemma typed_filter_ptp:
  assumes "typed_filter f" "is_i32 v"
  shows "is_i32 (fst (filter_ptp v f))" "typed_filter (snd (filter_ptp v f))"
proof -
  define s where "s = fst (filter_order v f)"
  define g where "g = snd (filter_order v f)"
  have fo: "filter_order v f = (s, g)" by (simp add: s_def g_def)
  define h where "h = (if s_prev g > s then g\<lparr>y_sum := y_sum g div 2 ^ nat (s_prev g - s)\<rparr>
    else if s_prev g < s then g\<lparr>y_sum := i32 (y_sum g * 2 ^ nat (s - s_prev g))\<rparr> else g)"
  define y where "y = i32 (y_sum h + i32 (v - y_prev h))"
  have "filt_s h = filt_s g" "filt_n h = filt_n g" by (simp_all add: h_def)
  then have "typed_filter (h\<lparr>y_sum := y, y_prev := y div 2 ^ nat s, s_prev := i16 s\<rparr>)"
    using typed_filter_order [OF assms] by (simp add: typed_filter_def g_def y_def i32_div)
  moreover have "filter_ptp v f = (y div 2 ^ nat s, h\<lparr>y_sum := y, y_prev := y div 2 ^ nat s, s_prev := i16 s\<rparr>)"
    by (simp only: filter_ptp_def fo Let_def prod.case h_def [symmetric]) (simp add: y_def)
  ultimately show "is_i32 (fst (filter_ptp v f))" "typed_filter (snd (filter_ptp v f))"
    by (simp_all add: y_def i32_div)
qed

lemma i32_bits: "is_i32 x \<longleftrightarrow> (\<forall>n. bit x (min 31 n) = bit x n)"
proof -
  have "is_i32 x \<longleftrightarrow> signed_take_bit 31 x = x" by (auto simp: is_i32_def signed_take_bit_int_eq_self_iff)
  then show ?thesis by (simp add: bit_eq_iff bit_signed_take_bit_iff)
qed

lemma event_typed: "is_i32 STATE_DECISION_EVENT" "is_i32 SYNCHRONIZATION_FAULT" "is_i32 MASTER_CLOCK_SELECTED"
  "is_i32 MASTER_CLOCK_CHANGED"
  by (simp_all add: is_i32_def STATE_DECISION_EVENT_def SYNCHRONIZATION_FAULT_def MASTER_CLOCK_SELECTED_def MASTER_CLOCK_CHANGED_def)

lemma flag_typed: "is_i32 x \<Longrightarrow> is_i32 e \<Longrightarrow> is_i32 (setFlag x e)" "is_i32 x \<Longrightarrow> is_i32 e \<Longrightarrow> is_i32 (clearFlag x e)"
  by (simp_all add: i32_bits setFlag_def clearFlag_def bit_or_iff bit_and_iff bit_not_iff)

section \<open>The servo and the data sets\<close>

lemmas clock_defs = typed_def typed_body_def typed_times_def typed_numbers_def typed_buffers_def packed_header_def

lemma typed_raise [simp]: "is_i32 e \<Longrightarrow> typed b c \<Longrightarrow> typed b (raise_event e c)" "is_i32 e \<Longrightarrow> typed b c \<Longrightarrow> typed b (clear_event e c)"
  by (simp_all add: clock_defs raise_event_def clear_event_def flag_typed)

lemma typed_set_offset: "wf_time t \<Longrightarrow> typed b c \<Longrightarrow> typed b (set_offset t c)"
  by (simp add: clock_defs set_offset_def typed_currentDS_def)

lemma typed_set_delays:
  "wf_time t \<Longrightarrow> typed b c \<Longrightarrow> typed b (set_meanPathDelay t c)" "wf_time t \<Longrightarrow> typed b c \<Longrightarrow> typed b (set_peerDelay t c)"
  by (simp_all add: clock_defs set_meanPathDelay_def set_peerDelay_def typed_currentDS_def typed_portDS_def)

lemma typed_set_filters: "typed b c \<Longrightarrow> typed_filter f \<Longrightarrow> typed b (c\<lparr>ofm_filt := f\<rparr>)" "typed b c \<Longrightarrow> typed_filter f \<Longrightarrow> typed b (c\<lparr>owd_filt := f\<rparr>)"
  by (simp_all add: clock_defs)

lemma typed_set_passage: "typed b c \<Longrightarrow> wf_time t \<Longrightarrow> typed b (c\<lparr>Tms := t\<rparr>)" "typed b c \<Longrightarrow> wf_time t \<Longrightarrow> typed b (c\<lparr>Tsm := t\<rparr>)"
  by (simp_all add: clock_defs)

lemma typedD:
  assumes "typed b c"
  shows "wf_time (offsetFromMaster (currentDS c))" "wf_time (meanPathDelay (currentDS c))" "wf_time (peerMeanPathDelay (portDS c))"
    "typed_filter (ofm_filt c)" "typed_filter (owd_filt c)" "typed_header (msgTmpHeader c)" "typed_tmp (msgTmp c)"
    "length (msgIbuf c) = PACKET_SIZE" "length (msgObuf c) = PACKET_SIZE"
  using assms by (simp_all add: clock_defs typed_currentDS_def typed_portDS_def)

lemma wf_time_update: "wf_time t \<Longrightarrow> is_i32 n \<Longrightarrow> wf_time (t\<lparr>nanoseconds := n\<rparr>)"
  by (simp add: wf_time_def)

lemma wf_time_parts: "wf_time t \<Longrightarrow> is_i32 (seconds t)" "wf_time t \<Longrightarrow> is_i32 (nanoseconds t)"
  by (simp_all add: wf_time_def)

text \<open>A delay that is filtered when it is below a second.\<close>

lemmas typed_filtering = typed_set_offset typed_set_delays typed_set_filters typed_set_passage typed_filter_ptp
  wf_time_update wf_time_parts typedD

lemma typed_updateOffset: "typed b c \<Longrightarrow> typed b (updateOffset rx origin corr c)"
proof -
  assume c: "typed b c"
  let ?t2 = "subTime (subTime rx origin) corr"
  define t3 where "t3 = (case delayMechanism (portDS c) of E2E \<Rightarrow> subTime ?t2 (meanPathDelay (currentDS c))
    | P2P \<Rightarrow> subTime ?t2 (peerMeanPathDelay (portDS c)) | DELAY_DISABLED \<Rightarrow> ?t2)"
  let ?r = "filter_ptp (nanoseconds t3) (ofm_filt c)"
  have t3: "wf_time t3" by (simp add: t3_def split: delay_mechanism.split)
  have 1: "typed b (set_offset t3 (c\<lparr>Tms := ?t2\<rparr>))"
    using c t3 by (intro typed_filtering) simp_all
  have 2: "typed b (set_offset (t3\<lparr>nanoseconds := fst ?r\<rparr>) (c\<lparr>Tms := ?t2, ofm_filt := snd ?r\<rparr>))"
    by (intro typed_filtering t3 c typedD(4) [OF c]) simp_all
  show ?thesis
    unfolding updateOffset_unfold Let_def t3_def [symmetric] using 1 2 by (simp add: event_typed)
qed

lemma typed_updateDelay: "typed b c \<Longrightarrow> typed b (updateDelay tx rx corr c)"
proof -
  assume c: "typed b c"
  define s where "s = subTime (subTime rx tx) corr"
  define d where "d = div2Time (addTime (Tms c) s)"
  define c' where "c' = c\<lparr>Tsm := s\<rparr>"
  let ?r = "filter_ptp (nanoseconds d) (owd_filt c)"
  have wf: "wf_time s" "wf_time d" by (simp_all add: s_def d_def)
  have p: "set_meanPathDelay x (set_meanPathDelay y e) = set_meanPathDelay x e" "meanPathDelay (currentDS (set_meanPathDelay y e)) = y"
    "owd_filt (set_meanPathDelay y e) = owd_filt e" for x y e by (simp_all add: set_meanPathDelay_def)
  have c': "typed b c'" "owd_filt c' = owd_filt c" "Tms c' = Tms c" "Tsm c' = s"
    using c wf by (simp_all add: c'_def typed_set_passage)
  have "typed b (set_meanPathDelay d c')" by (intro typed_filtering wf c')
  moreover have "typed b (set_meanPathDelay (d\<lparr>nanoseconds := fst ?r\<rparr>) ((set_meanPathDelay d c')\<lparr>owd_filt := snd ?r\<rparr>))"
    by (intro typed_filtering wf c' typedD(5) [OF c])
  moreover have "updateDelay tx rx corr c = (if filt_n (ofm_filt c) = 0 then c else if seconds d \<noteq> 0 then set_meanPathDelay d c'
    else set_meanPathDelay (d\<lparr>nanoseconds := fst ?r\<rparr>) ((set_meanPathDelay d c')\<lparr>owd_filt := snd ?r\<rparr>))"
  proof -
    have e: "(c\<lparr>Tsm := subTime rx tx\<rparr>)\<lparr>Tsm := subTime (Tsm (c\<lparr>Tsm := subTime rx tx\<rparr>)) corr\<rparr> = c'" by (simp add: c'_def s_def)
    show ?thesis
      by (simp only: updateDelay_def Let_def e p c' d_def [symmetric] split_beta)
  qed
  ultimately show ?thesis using c by simp
qed

lemma typed_updatePeerDelay: "typed b c \<Longrightarrow> typed b (updatePeerDelay corr two c)"
proof -
  assume c: "typed b c"
  define t where "t = (if two then addTime (subTime (pdelay_t2 c) (pdelay_t1 c)) (subTime (pdelay_t4 c) (pdelay_t3 c))
    else subTime (pdelay_t4 c) (pdelay_t1 c))"
  let ?d = "div2Time (subTime t corr)"
  let ?r = "filter_ptp (nanoseconds ?d) (owd_filt c)"
  have p: "set_peerDelay x (set_peerDelay y c) = set_peerDelay x c" "peerMeanPathDelay (portDS (set_peerDelay y c)) = y"
    "owd_filt (set_peerDelay y c) = owd_filt c" for x y c by (simp_all add: set_peerDelay_def)
  have "typed b (set_peerDelay ?d c)" using c by (intro typed_filtering) simp_all
  moreover have "typed b (set_peerDelay (?d\<lparr>nanoseconds := fst ?r\<rparr>) ((set_peerDelay ?d c)\<lparr>owd_filt := snd ?r\<rparr>))"
    by (intro typed_filtering c typedD(5) [OF c]) simp_all
  moreover have "updatePeerDelay corr two c = (if seconds ?d \<noteq> 0 then set_peerDelay ?d c
    else set_peerDelay (?d\<lparr>nanoseconds := fst ?r\<rparr>) ((set_peerDelay ?d c)\<lparr>owd_filt := snd ?r\<rparr>))"
    unfolding updatePeerDelay_def Let_def t_def by (cases two) (simp_all add: p split_beta)
  ultimately show ?thesis by simp
qed

text \<open>The data sets of the best master clock algorithm.\<close>

lemma typed_m1: "typed b c \<Longrightarrow> typed b (m1 c)"
  by (simp add: clock_defs m1_def typed_currentDS_def typed_parentDS_def typed_propertiesDS_def typed_defaultDS_def
      typed_identity_def wf_PortIdentity_def typed_opts_def i32_literals DEFAULT_TIME_SOURCE_def is_u8_def [of 160])

lemma typed_s1: "typed_header h \<Longrightarrow> typed_announce a \<Longrightarrow> typed b c \<Longrightarrow> typed b (s1 h a c)"
proof -
  assume h: "typed_header h" "typed_announce a" and c: "typed b c"
  let ?c = "c\<lparr>currentDS := (currentDS c)\<lparr>c_stepsRemoved := i16 (a_stepsRemoved a + 1)\<rparr>\<rparr>"
  have 1: "typed b ?c" using c by (simp add: clock_defs typed_currentDS_def)
  have 2: "typed b (x\<lparr>parentDS := (parentDS x)\<lparr>parentPortIdentity := sourcePortIdentity h,
      p_grandmasterIdentity := a_grandmasterIdentity a, p_grandmasterClockQuality := a_grandmasterClockQuality a,
      p_grandmasterPriority1 := a_grandmasterPriority1 a, p_grandmasterPriority2 := a_grandmasterPriority2 a\<rparr>,
      timePropertiesDS := \<lparr>t_currentUtcOffset = a_currentUtcOffset a, currentUtcOffsetValid = b1, leap59 = b2, leap61 = b3,
        timeTraceable = b4, frequencyTraceable = b5, ptpTimescale = b6, t_timeSource = a_timeSource a\<rparr>\<rparr>)"
    if "typed b x" for x b1 b2 b3 b4 b5 b6
    using that h by (simp add: clock_defs typed_parentDS_def typed_propertiesDS_def typed_header_def typed_announce_def)
  show ?thesis
    unfolding s1_def Let_def by (rule 2) (use 1 in \<open>simp add: event_typed\<close>)
qed

lemma typed_addForeign:
  assumes "typed_header h" "typed_announce a" "typed b c"
  shows "typed b (addForeign h a c)"
proof -
  have r: "list_all typed_record (fm_records (foreignMasterDS c))" using assms(3) by (simp add: clock_defs)
  have fm: "typed b (c\<lparr>foreignMasterDS := fm\<rparr>)" if "list_all typed_record (fm_records fm)" for fm
    using assms(3) that by (simp add: clock_defs)
  have upd: "list_all typed_record (xs[j := x])" if "list_all typed_record xs" "j < length xs \<Longrightarrow> typed_record x" for xs j x
    using that by (cases "j < length xs") (auto simp: list_all_length nth_list_update)
  have new: "typed_record \<lparr>foreignMasterPortIdentity = sourcePortIdentity h, foreignMasterAnnounceMessages = 0,
      f_announce = a, f_header = h\<rparr>"
    using assms(1,2) by (simp add: typed_record_def typed_header_def i32_literals)
  have old: "typed_record ((fm_records (foreignMasterDS c) ! k)\<lparr>foreignMasterAnnounceMessages := i16 n, f_header := h, f_announce := a\<rparr>)"
    if "k < length (fm_records (foreignMasterDS c))" for k n
    using r that assms(1,2) by (simp add: typed_record_def list_all_length)
  show ?thesis
    unfolding addForeign_def Let_def by (auto split: option.split intro!: fm upd r new old)
qed

lemma typed_bmcStateDecision:
  assumes "typed b c" "typed_header h" "typed_announce a" "typed_announce junk"
  shows "typed b (snd (bmcStateDecision junk h a c))"
proof -
  have "typed_announce (tmp_announce junk (msgTmp c))"
    using typedD(7) [OF assms(1)] assms(4) by (cases "msgTmp c") simp_all
  then have 1: "typed b (c\<lparr>msgTmpHeader := copyD0_header c (msgTmpHeader c),
      msgTmp := TmpAnnounce (copyD0_announce c (tmp_announce junk (msgTmp c)))\<rparr>)"
    using assms(1) by (simp add: clock_defs copyD0_header_def copyD0_announce_def typed_header_def typed_announce_def
        typed_defaultDS_def wf_PortIdentity_def typed_identity_def i32_literals)
  show ?thesis
    using assms(1) 1 typed_m1 [OF 1] typed_s1 [OF assms(2,3) 1]
    by (simp add: bmcStateDecision_def Let_def p1_def)
qed

section \<open>The environment\<close>

named_theorems well_typed_intros \<open>operations that keep a world well typed\<close>

lemma well_typedD: "well_typed b w \<Longrightarrow> typed b (ptp w)" "well_typed b w \<Longrightarrow> typed_env (env w)"
  by (simp_all add: well_typed_def)

lemma well_typed_same: "ptp w' = ptp w \<Longrightarrow> env w' = env w \<Longrightarrow> well_typed b w \<Longrightarrow> well_typed b w'"
  by (simp add: well_typed_def)

lemma well_typed_on [well_typed_intros]:
  "well_typed b w \<Longrightarrow> (\<And>c. typed b c \<Longrightarrow> typed b (f c)) \<Longrightarrow> well_typed b (on_clock f w)"
  by (simp add: well_typed_def)

lemma typed_netPath [simp]: "typed b (c\<lparr>netPath := n\<rparr>) = typed b c"
  by (simp add: clock_defs)

lemma well_typed_net [well_typed_intros]: "well_typed b w \<Longrightarrow> well_typed b (on_net f w)"
  by (simp add: well_typed_def on_net_def)

lemma udp_sendto_env [simp]: "env (snd (udp_sendto k p a n w)) = env w"
  unfolding udp_sendto_def set_local_port_def Let_def split_beta by simp

lemma netSend_typed:
  "env (snd (netSend p l s t a k w)) = env w"
  "typed_env (env w) \<Longrightarrow> wf_time t \<Longrightarrow> wf_time (snd (fst (netSend p l s t a k w)))"
  unfolding netSend_def Let_def split_beta by (cases k; simp add: typed_env_def)+

lemma pbuf_free_frame [simp]: "ptp (pbuf_free p w) = ptp w" "env (pbuf_free p w) = env w"
  by (simp_all add: pbuf_free_def)

lemma netRecv_typed:
  "env (snd (netRecv p s t q w)) = env w" "fst (fst (netRecv p s t q w)) \<le> int PACKET_SIZE" "0 \<le> fst (fst (netRecv p s t q w))"
  "typed_env (env w) \<Longrightarrow> wf_time t \<Longrightarrow> wf_time (fst (snd (snd (fst (netRecv p s t q w)))))"
  unfolding netRecv_def Let_def split_beta by (simp_all add: typed_env_def split: option.split)

lemma well_typed_primitives [well_typed_intros]:
  assumes "well_typed b w"
  shows "well_typed b (w\<lparr>tick := n\<rparr>)" "well_typed b (snd (getTime w))" "well_typed b (snd (getRand r w))" "well_typed b (timerStart k ms w)"
    "well_typed b (timerStop k w)" "well_typed b (snd (timerExpired k w))" "well_typed b (snd (adjTime a w))" "well_typed b (setTime t w)"
    "well_typed b (netEmptyEventQ w)" "well_typed b (initTimer w)" "well_typed b (timerStartRand k r w)" "well_typed b (restart_receipt w)"
    "well_typed b (snd (netSendEvent p l s t w))" "well_typed b (snd (netSendGeneral p l t w))"
    "well_typed b (snd (netSendPeerEvent p l s t w))" "well_typed b (snd (netSendPeerGeneral p l t w))"
    "well_typed b (snd (netRecvEvent p s t w))" "well_typed b (snd (netRecvGeneral p s t w))"
  using assms
  by (simp_all add: well_typed_def timerStartRand_def restart_receipt_def Let_def split_beta netSendEvent_def netSendGeneral_def
      netSendPeerEvent_def netSendPeerGeneral_def netSend_typed netRecvEvent_def netRecvGeneral_def netRecv_typed on_net_def)

lemma times_read [well_typed_intros]:
  assumes "well_typed b w"
  shows "wf_time (fst (getTime w))" "wf_time (e_time (env w) n)"
    "wf_time t \<Longrightarrow> wf_time (snd (fst (netSendEvent p l s t w)))" "wf_time t \<Longrightarrow> wf_time (snd (fst (netSendPeerEvent p l s t w)))"
    "wf_time t \<Longrightarrow> wf_time (snd (snd (fst (netRecvEvent p s t w))))" "wf_time t \<Longrightarrow> wf_time (snd (snd (fst (netRecvGeneral p s t w))))"
  using well_typedD(2) [OF assms] netSend_typed(2) netRecv_typed(4)
  by (simp_all add: typed_env_def getTime_def netSendEvent_def netSendPeerEvent_def netRecvEvent_def netRecvGeneral_def split_beta)

lemma received_typed:
  assumes "length p = PACKET_SIZE"
  shows "typed b c \<Longrightarrow> typed b (store_rx (fst (fst (netRecvEvent p s t w))) (fst (snd (fst (netRecvEvent p s t w)))) c)"
    "typed b c \<Longrightarrow> typed b (store_rx (fst (fst (netRecvGeneral p s t w))) (fst (snd (fst (netRecvGeneral p s t w)))) c)"
  using assms netRecv_typed(2,3)
  by (simp_all add: store_rx_def clock_defs netRecvEvent_def netRecvGeneral_def split_beta)

lemma well_typed_initClock [well_typed_intros]: "well_typed b w \<Longrightarrow> well_typed b (initClock w)"
proof -
  assume w: "well_typed b w"
  have f: "typed b c \<Longrightarrow> typed b (c\<lparr>Tms := \<lparr>seconds = 0, nanoseconds = 0\<rparr>, observedDrift := 0,
      owd_filt := (owd_filt c)\<lparr>filt_n := 0, filt_s := i16 (trunc (sDelay (servo c)))\<rparr>,
      ofm_filt := (ofm_filt c)\<lparr>filt_n := 0, filt_s := sOffset (servo c)\<rparr>,
      waitingForFollowUp := False, waitingForPDelayRespFollowUp := False,
      pdelay_t1 := \<lparr>seconds = 0, nanoseconds = 0\<rparr>, pdelay_t2 := \<lparr>seconds = 0, nanoseconds = 0\<rparr>,
      pdelay_t3 := \<lparr>seconds = 0, nanoseconds = 0\<rparr>, pdelay_t4 := \<lparr>seconds = 0, nanoseconds = 0\<rparr>,
      parentDS := (parentDS c)\<lparr>parentStats := False, observedParentClockPhaseChangeRate := 0,
        observedParentOffsetScaledLogVariance := 0\<rparr>\<rparr>)" for c
    by (simp add: clock_defs typed_filter_def typed_parentDS_def i32_literals)
  have g: "well_typed b v \<Longrightarrow> well_typed b (v\<lparr>clock_cmds := k\<rparr>)" for v k by (simp add: well_typed_def)
  show ?thesis
    unfolding initClock_unfold using w f by (auto intro!: well_typed_intros g)
qed

lemma well_typed_updateClock [well_typed_intros]: "well_typed b w \<Longrightarrow> well_typed b (updateClock w)"
proof -
  assume w: "well_typed b w"
  have d: "typed b c \<Longrightarrow> is_i32 v \<Longrightarrow> typed b (c\<lparr>observedDrift := v\<rparr>)" for c v by (simp add: clock_defs)
  have k: "is_i32 (clamp_drift v)" for v by (simp add: clamp_drift_def is_i32_def ADJ_FREQ_MAX_def)
  show ?thesis
    using w unfolding updateClock_def updateClock_far_def updateClock_pi_def Let_def split_beta
    by (auto simp: DEFAULT_PARENTS_STATS_def d k intro!: well_typed_intros)
qed

section \<open>The protocol engine\<close>

lemma typed_port: "typed b c \<Longrightarrow> wf_port_header c"
  by (simp add: clock_defs wf_port_header_def typed_portDS_def typed_defaultDS_def is_u4_def wf_PortIdentity_def)

lemma typed_obuf: "typed True c \<Longrightarrow> packed_header c (p c (msgObuf c)) \<Longrightarrow> typed True (c\<lparr>msgObuf := p c (msgObuf c)\<rparr>)"
  by (simp add: clock_defs)

lemma well_typed_obuf:
  assumes "well_typed True w" "\<And>c. typed True c \<Longrightarrow> packed_header c (p c (msgObuf c))"
  shows "well_typed True (set_obuf p w)"
  using assms typed_obuf [of _ p] unfolding set_obuf_def by (intro well_typed_on) simp_all

lemma packed: "typed True c \<Longrightarrow> packed_header c (msgObuf c)"
  by (simp add: typed_def)

text \<open>Every message leaves the header in place.\<close>

lemma well_typed_packs [well_typed_intros]:
  assumes "well_typed True w"
  shows "well_typed True (set_obuf msgPackAnnounce w)" "well_typed True (set_obuf (\<lambda>c buf. msgPackSync c buf ts) w)"
    "well_typed True (set_obuf (\<lambda>c buf. msgPackFollowUp c buf ts) w)" "well_typed True (set_obuf (\<lambda>c buf. msgPackDelayReq c buf ts) w)"
    "well_typed True (set_obuf (\<lambda>c buf. msgPackPDelayReq c buf ts) w)"
    "typed_header h \<Longrightarrow> well_typed True (set_obuf (\<lambda>c buf. msgPackDelayResp c buf h ts) w)"
    "typed_header h \<Longrightarrow> well_typed True (set_obuf (\<lambda>c buf. msgPackPDelayResp buf h ts) w)"
    "typed_header h \<Longrightarrow> well_typed True (set_obuf (\<lambda>c buf. msgPackPDelayRespFollowUp buf h ts) w)"
proof -
  note k = packed typed_port
  show "well_typed True (set_obuf msgPackAnnounce w)"
  proof (rule well_typed_obuf [OF assms])
    show "packed_header c (msgPackAnnounce c (msgObuf c))" if "typed True c" for c
      using that by (intro header_msgPackAnnounce(1) k) (simp_all add: clock_defs typed_parentDS_def typed_identity_def)
  qed
  show "well_typed True (set_obuf (\<lambda>c buf. msgPackSync c buf ts) w)" "well_typed True (set_obuf (\<lambda>c buf. msgPackFollowUp c buf ts) w)"
    "well_typed True (set_obuf (\<lambda>c buf. msgPackDelayReq c buf ts) w)" "well_typed True (set_obuf (\<lambda>c buf. msgPackPDelayReq c buf ts) w)"
    by (intro well_typed_obuf assms header_msgPackSync(1) header_msgPackFollowUp(1) header_msgPackDelayReq(1)
        header_msgPackPDelayReq(1) k; assumption)+
  show "well_typed True (set_obuf (\<lambda>c buf. msgPackDelayResp c buf h ts) w)"
    "well_typed True (set_obuf (\<lambda>c buf. msgPackPDelayResp buf h ts) w)"
    "well_typed True (set_obuf (\<lambda>c buf. msgPackPDelayRespFollowUp buf h ts) w)" if "typed_header h"
    using that
    by (intro well_typed_obuf assms header_msgPackDelayResp(1) header_msgPackPDelayResp(1) header_msgPackPDelayRespFollowUp(1) k;
        simp add: typed_header_def)+
qed

text \<open>Updates of the clock that the engine makes itself.\<close>

lemma typed_updates [simp]:
  assumes "typed b c"
  shows "typed b (c\<lparr>messageActivity := x\<rparr>)" "typed b (set_portState s c)" "typed b (set_recommended s c)"
    "typed b (c\<lparr>sentAnnounceSequenceId := i16 n\<rparr>)" "typed b (c\<lparr>sentSyncSequenceId := i16 n\<rparr>)"
    "typed b (c\<lparr>sentDelayReqSequenceId := i16 n\<rparr>)" "typed b (c\<lparr>sentPDelayReqSequenceId := i16 n\<rparr>)"
    "wf_time t \<Longrightarrow> typed b (c\<lparr>timestamp_delayReqSend := t\<rparr>)" "wf_time t \<Longrightarrow> typed b (c\<lparr>timestamp_delayReqRecieve := t\<rparr>)"
    "wf_time t \<Longrightarrow> typed b (c\<lparr>pdelay_t1 := t\<rparr>)" "wf_time t \<Longrightarrow> typed b (c\<lparr>timestamp_syncRecieve := t\<rparr>)"
    "typed_header h \<Longrightarrow> typed b (c\<lparr>msgTmpHeader := h\<rparr>)" "typed_tmp m \<Longrightarrow> typed b (c\<lparr>msgTmp := m\<rparr>)"
    "typed b (c\<lparr>waitingForFollowUp := x\<rparr>)" "typed b (c\<lparr>waitingForPDelayRespFollowUp := x\<rparr>)"
    "wf_time t \<Longrightarrow> typed b (c\<lparr>correctionField_sync := t\<rparr>)" "wf_time t \<Longrightarrow> typed b (c\<lparr>pdelay_t4 := t\<rparr>)"
    "wf_time t \<Longrightarrow> typed b (c\<lparr>pdelay_t2 := t\<rparr>)" "wf_time t \<Longrightarrow> typed b (c\<lparr>pdelay_t3 := t\<rparr>)"
    "wf_time t \<Longrightarrow> typed b (c\<lparr>correctionField_pDelayResp := t\<rparr>)" "is_i16 n \<Longrightarrow> typed b (c\<lparr>recvSyncSequenceId := n\<rparr>)"
    "is_i8 n \<Longrightarrow> typed b (c\<lparr>portDS := (portDS c)\<lparr>logMinDelayReqInterval := n\<rparr>\<rparr>)"
    "list_all typed_record (fm_records fm) \<Longrightarrow> typed b (c\<lparr>foreignMasterDS := fm\<rparr>)"
    "list_all typed_record (fm_records (foreignMasterDS c))"
  using assms by (simp_all add: clock_defs set_portState_def set_recommended_def typed_portDS_def)

lemma well_typed_leaveState: "well_typed b w \<Longrightarrow> well_typed b (leaveState s w)"
  unfolding leaveState_def leaveSlave_def Let_def
  by (auto split: ptp_state.split delay_mechanism.split intro!: well_typed_intros)

lemma well_typed_enterMaster: "well_typed b w \<Longrightarrow> well_typed b (enterMaster w)"
  unfolding enterMaster_def Let_def
  by (auto split: delay_mechanism.split intro!: well_typed_intros simp: DEFAULT_DELAYREQ_INTERVAL_def is_i8_def [of 0])

lemma well_typed_enterState: "well_typed b w \<Longrightarrow> well_typed b (enterState s w)"
  unfolding enterState_def Let_def
  by (auto split: ptp_state.split delay_mechanism.split intro!: well_typed_intros well_typed_enterMaster)

lemma well_typed_toState [well_typed_intros]: "well_typed b w \<Longrightarrow> well_typed b (toState s w)"
  unfolding toState_def by (intro well_typed_enterState well_typed_leaveState well_typed_intros) simp_all

lemma typed_hdr [well_typed_intros]: "well_typed True w \<Longrightarrow> typed_header (hdr w)"
  using typedD(6) [of True "ptp w"] by (simp add: hdr_def well_typed_def)

lemma well_typed_issueAnnounce [well_typed_intros]: "well_typed True w \<Longrightarrow> well_typed True (issueAnnounce w)"
  unfolding issueAnnounce_def Let_def split_beta by (auto intro!: well_typed_intros)

lemma well_typed_issueFollowup [well_typed_intros]: "well_typed True w \<Longrightarrow> well_typed True (issueFollowup t w)"
  unfolding issueFollowup_def Let_def split_beta by (auto intro!: well_typed_intros)

lemma well_typed_issueSync [well_typed_intros]: "well_typed True w \<Longrightarrow> well_typed True (issueSync w)"
  unfolding issueSync_def Let_def split_beta by (auto intro!: well_typed_intros)

lemma well_typed_issueDelayReq [well_typed_intros]: "well_typed True w \<Longrightarrow> well_typed True (issueDelayReq w)"
  unfolding issueDelayReq_def Let_def split_beta by (auto intro!: well_typed_intros)

lemma well_typed_issuePDelayReq [well_typed_intros]: "well_typed True w \<Longrightarrow> well_typed True (issuePDelayReq w)"
  unfolding issuePDelayReq_def Let_def split_beta by (auto intro!: well_typed_intros)

lemma well_typed_issuePDelayResp [well_typed_intros]:
  "well_typed True w \<Longrightarrow> typed_header h \<Longrightarrow> well_typed True (snd (issuePDelayResp t h w))"
  unfolding issuePDelayResp_def Let_def split_beta by (auto intro!: well_typed_intros)

lemma well_typed_issueDelayResp [well_typed_intros]: "well_typed True w \<Longrightarrow> typed_header h \<Longrightarrow> well_typed True (issueDelayResp t h w)"
  unfolding issueDelayResp_def Let_def split_beta by (auto intro!: well_typed_intros)

lemma well_typed_issuePDelayRespFollowUp [well_typed_intros]:
  "well_typed True w \<Longrightarrow> typed_header h \<Longrightarrow> well_typed True (issuePDelayRespFollowUp t h w)"
  unfolding issuePDelayRespFollowUp_def Let_def split_beta by (auto intro!: well_typed_intros)

lemma well_typed_issueDelayReqTimerExpired [well_typed_intros]: "well_typed True w \<Longrightarrow> well_typed True (issueDelayReqTimerExpired w)"
  unfolding issueDelayReqTimerExpired_def Let_def split_beta by (auto split: delay_mechanism.split intro!: well_typed_intros)

text \<open>The handlers.\<close>

lemma typed_header_numbers: "typed True c \<Longrightarrow> is_i16 (sequenceId (msgTmpHeader c))"
  "typed True c \<Longrightarrow> is_i8 (logMessageInterval (msgTmpHeader c))"
  "typed True c \<Longrightarrow> wf_time (timestamp_delayReqRecieve c)"
proof -
  assume c: "typed True c"
  show "is_i16 (sequenceId (msgTmpHeader c))" "is_i8 (logMessageInterval (msgTmpHeader c))"
    using typedD(6) [OF c] by (simp_all add: typed_header_def)
  show "wf_time (timestamp_delayReqRecieve c)"
    using c unfolding clock_defs by blast
qed

lemmas typed_handling = typed_header_numbers typed_msgUnpackAnnounce typed_unpack typed_addForeign typed_s1 typed_updateOffset typed_updateDelay
  typed_updatePeerDelay event_typed wf_toInternalTime

lemma well_typed_handleAnnounce [well_typed_intros]: "well_typed True w \<Longrightarrow> well_typed True (handleAnnounce s w)"
  unfolding handleAnnounce_def handleAnnounce_slave_def Let_def
  by (auto split: ptp_state.split intro!: well_typed_intros typed_handling typed_updates typed_raise)

lemma well_typed_handleSync [well_typed_intros]: "well_typed True w \<Longrightarrow> wf_time t \<Longrightarrow> well_typed True (handleSync t s w)"
  unfolding handleSync_def handleSync_slave_def Let_def split_beta
  by (auto split: ptp_state.split intro!: well_typed_intros typed_handling typed_updates)

lemma well_typed_handleFollowUp [well_typed_intros]: "well_typed True w \<Longrightarrow> well_typed True (handleFollowUp s w)"
  unfolding handleFollowUp_def handleFollowUp_slave_def Let_def split_beta
  by (auto split: ptp_state.split intro!: well_typed_intros typed_handling typed_updates)

lemma well_typed_handleDelayReq [well_typed_intros]: "well_typed True w \<Longrightarrow> well_typed True (handleDelayReq t s w)"
  unfolding handleDelayReq_def
  by (auto split: delay_mechanism.split ptp_state.split intro!: well_typed_intros)

lemma well_typed_handleDelayResp [well_typed_intros]: "well_typed True w \<Longrightarrow> well_typed True (handleDelayResp s w)"
  unfolding handleDelayResp_def Let_def
  by (auto split: delay_mechanism.split intro!: well_typed_intros typed_handling typed_updates)

lemma well_typed_handlePDelayReq [well_typed_intros]: "well_typed True w \<Longrightarrow> well_typed True (handlePDelayReq t s w)"
  unfolding handlePDelayReq_def Let_def split_beta
  by (auto split: delay_mechanism.split intro!: well_typed_intros)

lemma well_typed_handlePDelayResp [well_typed_intros]: "well_typed True w \<Longrightarrow> wf_time t \<Longrightarrow> well_typed True (handlePDelayResp t s w)"
  unfolding handlePDelayResp_def Let_def split_beta
  by (auto split: delay_mechanism.split intro!: well_typed_intros typed_handling typed_updates)

lemma well_typed_handlePDelayRespFollowUp [well_typed_intros]: "well_typed True w \<Longrightarrow> well_typed True (handlePDelayRespFollowUp s w)"
  unfolding handlePDelayRespFollowUp_def Let_def split_beta
  by (auto split: delay_mechanism.split intro!: well_typed_intros typed_handling typed_updates)

lemma well_typed_dispatch [well_typed_intros]: "well_typed True w \<Longrightarrow> wf_time t \<Longrightarrow> well_typed True (dispatch t w)"
  by (simp add: dispatch_def Let_def handleManagement_def handleSignaling_def well_typed_intros)

lemma well_typed_handle_message [well_typed_intros]: "well_typed True w \<Longrightarrow> wf_time t \<Longrightarrow> well_typed True (handle_message t w)"
  unfolding handle_message_def Let_def
  by (auto intro!: well_typed_intros typed_updates typed_msgUnpackHeader)

lemma typed_reception:
  assumes "well_typed b w" "wf_time t"
  shows "well_typed b (on_clock (store_rx (fst (fst (netRecvEvent (msgIbuf (ptp w)) s t w))) (fst (snd (fst (netRecvEvent (msgIbuf (ptp w)) s t w)))))
      (snd (netRecvEvent (msgIbuf (ptp w)) s t w)))"
    "well_typed b (on_clock (store_rx (fst (fst (netRecvGeneral (msgIbuf (ptp w)) s t w))) (fst (snd (fst (netRecvGeneral (msgIbuf (ptp w)) s t w)))))
      (snd (netRecvGeneral (msgIbuf (ptp w)) s t w)))"
proof -
  have l: "length (msgIbuf (ptp w)) = PACKET_SIZE" using assms(1) typedD(8) by (auto simp: well_typed_def)
  note r = received_typed [OF l]
  show "well_typed b (on_clock (store_rx (fst (fst (netRecvEvent (msgIbuf (ptp w)) s t w))) (fst (snd (fst (netRecvEvent (msgIbuf (ptp w)) s t w)))))
      (snd (netRecvEvent (msgIbuf (ptp w)) s t w)))"
    by (rule well_typed_on [OF well_typed_primitives(17) [OF assms(1)] r(1)])
  show "well_typed b (on_clock (store_rx (fst (fst (netRecvGeneral (msgIbuf (ptp w)) s t w))) (fst (snd (fst (netRecvGeneral (msgIbuf (ptp w)) s t w)))))
      (snd (netRecvGeneral (msgIbuf (ptp w)) s t w)))"
    by (rule well_typed_on [OF well_typed_primitives(18) [OF assms(1)] r(2)])
qed

lemma well_typed_handle [well_typed_intros]:
  assumes "well_typed True w"
  shows "well_typed True (handle w)"
proof -
  define e where "e = netRecvEvent (msgIbuf (ptp w)) True zero_time w"
  define w1 where "w1 = on_clock (store_rx (fst (fst e)) (fst (snd (fst e)))) (snd e)"
  define t1 where "t1 = snd (snd (fst e))"
  define g where "g = netRecvGeneral (msgIbuf (ptp w1)) True t1 w1"
  define w2 where "w2 = on_clock (store_rx (fst (fst g)) (fst (snd (fst g)))) (snd g)"
  have z: "wf_time zero_time" by (simp add: zero_time_def)
  have 1: "well_typed True w1" "wf_time t1"
    using typed_reception(1) [OF assms z] times_read(5) [OF assms z] by (simp_all add: w1_def t1_def e_def)
  have 2: "well_typed True w2" "wf_time (snd (snd (fst g)))"
    using typed_reception(2) [OF 1] times_read(6) [OF 1] by (simp_all add: w2_def g_def)
  have "handle_poll w = (if fst (fst e) < 0 then toState PTP_FAULTY w1 else if fst (fst e) = 0 then
      (if fst (fst g) < 0 then toState PTP_FAULTY w2 else if fst (fst g) = 0 then w2 else handle_message (snd (snd (fst g))) w2)
      else handle_message t1 w1)"
    by (simp only: handle_poll_def Let_def split_beta e_def [symmetric] w1_def [symmetric] t1_def [symmetric] g_def [symmetric] w2_def [symmetric])
  then have "well_typed True (handle_poll w)" using 1 2 by (auto intro!: well_typed_intros)
  then show ?thesis
    using assms unfolding handle_def Let_def by (auto intro!: well_typed_intros)
qed

text \<open>The main step of a working port.\<close>

lemma well_typed_bmc:
  assumes "well_typed b w" "table_ok w"
  shows "well_typed b (snd (bmc w))"
proof -
  let ?fm = "(foreignMasterDS (ptp w))\<lparr>fm_best := bmc_best (ptp w)\<rparr>"
  let ?c = "(ptp w)\<lparr>foreignMasterDS := ?fm\<rparr>"
  let ?r = "fm_records (foreignMasterDS (ptp w)) ! nat (bmc_best (ptp w))"
  have t: "typed b (ptp w)" using assms(1) by (rule well_typedD)
  then have c: "typed b ?c" by simp
  have "nat (bmc_best (ptp w)) < length (fm_records (foreignMasterDS (ptp w)))"
    using assms(2) bmc_best_range [of "ptp w"] by (auto simp: table_ok_def fm_ok_def)
  then have r: "typed_record ?r" using typed_updates(24) [OF t] by (simp add: list_all_length)
  have "well_typed b (on_clock (\<lambda>c. snd (bmcStateDecision (e_announce (env w) (tick w)) (f_header ?r) (f_announce ?r) ?c)) w)"
    using assms(1) r typed_bmcStateDecision [OF c] by (simp add: well_typed_def typed_env_def typed_record_def)
  then show ?thesis
    by (rule well_typed_same [rotated 2]) (simp_all add: bmc_def Let_def split_beta on_clock_def)
qed

lemma well_typed_doState_decide: "well_typed b w \<Longrightarrow> table_ok w \<Longrightarrow> well_typed b (doState_decide w)"
proof -
  assume w: "well_typed b w" and t: "table_ok w"
  let ?w = "on_clock (clear_event STATE_DECISION_EVENT) w"
  have "well_typed b ?w" using w by (auto intro!: well_typed_intros simp: event_typed)
  moreover have "table_ok ?w" using t by (simp add: table_ok_def clear_event_def)
  ultimately have "well_typed b (snd (bmc ?w))" by (rule well_typed_bmc)
  then show ?thesis
    using w unfolding doState_decide_def Let_def split_beta by (auto intro!: well_typed_intros)
qed

lemma well_typed_doState_recommended: "well_typed b w \<Longrightarrow> well_typed b (doState_recommended w)"
  unfolding doState_recommended_def Let_def split_beta
  by (auto split: ptp_state.split intro!: well_typed_intros simp: event_typed)

lemma well_typed_doState_passive: "well_typed True w \<Longrightarrow> well_typed True (doState_passive w)"
  unfolding doState_passive_def Let_def split_beta
  by (auto intro!: well_typed_intros typed_updates typed_m1)

lemma well_typed_doState_master: "well_typed True w \<Longrightarrow> well_typed True (doState_master w)"
  unfolding doState_master_def Let_def split_beta by (auto intro!: well_typed_intros)

lemma well_typed_working:
  assumes "well_typed True w" "working w" "table_ok w"
  shows "well_typed True (doState w)"
proof -
  let ?w = "on_clock (\<lambda>c. c\<lparr>messageActivity := False\<rparr>) w"
  let ?v = "doState_recommended (doState_decide ?w)"
  have w: "working ?w" using assms(2) by (simp add: working_def port_state_def)
  have "port_state ?v \<in> running_states"
    using decide_phase [OF w] recommended_phase(1) [of "doState_decide ?w"] w by (auto simp: working_def running_states_def)
  then have p: "port_state ?v \<noteq> PTP_INITIALIZING" by (auto simp: running_states_def)
  have "well_typed True ?v"
    using assms by (intro well_typed_doState_recommended well_typed_doState_decide well_typed_intros) (simp_all add: table_ok_def)
  then show ?thesis
    using p unfolding doState_def doState_act_def
    by (auto split: ptp_state.split intro!: well_typed_intros well_typed_doState_passive well_typed_doState_master)
qed

section \<open>From the start\<close>

lemma typed_uuid: "length u = length (portUuidField c) \<Longrightarrow> typed b (c\<lparr>portUuidField := u\<rparr>) = typed b c"
  unfolding clock_defs by simp

lemma open_env [simp]:
  "env (snd (udp_new w)) = env w" "env (udp_remove k w) = env w" "env (udp_bind k n w) = env w" "env (snd (findIface w)) = env w"
  by (simp_all add: udp_new_def udp_remove_def udp_bind_def set_local_port_def findIface_def Let_def split_beta split: option.split)

lemma netInit_env: "env (snd (netInit w)) = env w"
  unfolding netInit_def Let_def split_beta by simp

lemma typed_initData: "typed False c \<Longrightarrow> typed False (initData c)"
proof -
  assume c: "typed False c"
  have n: "is_i16 NUMBER_PORTS" "is_i8 DEFAULT_DELAYREQ_INTERVAL" "is_u8 DEFAULT_ANNOUNCE_RECEIPT_TIMEOUT"
    "is_i8 DEFAULT_PDELAYREQ_INTERVAL" "is_u4 VERSION_PTP"
    by (simp_all add: is_u4_def c_range NUMBER_PORTS_def DEFAULT_DELAYREQ_INTERVAL_def DEFAULT_ANNOUNCE_RECEIPT_TIMEOUT_def
        DEFAULT_PDELAYREQ_INTERVAL_def VERSION_PTP_def)
  have i: "length (EUI48toEUI64 u) = CLOCK_IDENTITY_LENGTH" for u by (simp add: EUI48toEUI64_def CLOCK_IDENTITY_LENGTH_def)
  have g: "typed_opts (rtOpts c)" "typed_portDS (portDS c)" "typed_times c" "typed_numbers c" "typed_buffers c"
    "list_all typed_record (fm_records (foreignMasterDS c))"
    using c by (simp_all add: typed_def typed_body_def)
  have o: "typed_opts (rtOpts c) \<Longrightarrow> wf_time (r_inboundLatency (rtOpts c)) \<and> wf_time (r_outboundLatency (rtOpts c)) \<and>
      is_u8 (r_stats (rtOpts c)) \<and> is_i16 (sOffset (r_servo (rtOpts c)))" by (simp add: typed_opts_def)
  have "typed_defaultDS (defaultDS (initData c))" "typed_portDS (portDS (initData c))"
    using g(1,2) n i by (simp_all add: initData_def Let_def typed_defaultDS_def typed_portDS_def typed_opts_def typed_identity_def wf_PortIdentity_def)
  moreover have "typed_times (initData c)" "typed_numbers (initData c)" "typed_buffers (initData c)"
    using g(3-5) o [OF g(1)] by (simp_all add: initData_def Let_def typed_times_def typed_numbers_def typed_buffers_def)
  moreover have "list_all typed_record (fm_records (foreignMasterDS (initData c)))"
    using g(6) by (simp add: initData_def Let_def)
  ultimately show ?thesis
    using c by (simp add: typed_def typed_body_def) (simp add: initData_def Let_def)
qed

lemma netInit_uuid: "length (portUuidField (ptp (snd (netInit w)))) = length (portUuidField (ptp w))"
  unfolding netInit_def findIface_def Let_def split_beta by (simp add: on_net_def udp_new_def udp_remove_def udp_bind_def
      set_local_port_def Let_def split_beta split: option.split)

lemma well_typed_netInit:
  assumes "well_typed b w"
  shows "well_typed b (snd (netInit w))"
proof -
  let ?c = "ptp (snd (netInit w))"
  have "rest ?c = rest (ptp w)" using opens_netInit [of w] by (simp add: opens_def)
  then have "?c\<lparr>netPath := netPath (ptp w), portUuidField := portUuidField (ptp w)\<rparr> = ptp w"
    by (cases ?c; cases "ptp w") (simp add: rest_def)
  moreover have "typed b (?c\<lparr>netPath := netPath (ptp w), portUuidField := portUuidField (ptp w)\<rparr>) = typed b ?c"
    using typed_uuid [of "portUuidField (ptp w)" "?c\<lparr>netPath := netPath (ptp w)\<rparr>" b] netInit_uuid [of w] by simp
  ultimately show ?thesis using assms by (simp add: well_typed_def netInit_env)
qed

lemma well_typed_doInit:
  assumes "well_typed False w" "fst (doInit w)"
  shows "well_typed True (snd (doInit w))"
proof -
  let ?v = "on_clock m1 (initClock (initTimer (on_clock initData (snd (netInit w)))))"
  have v: "well_typed False ?v"
    by (intro well_typed_intros well_typed_netInit assms(1) typed_m1 typed_initData; assumption)
  have d: "snd (doInit w) = on_clock (\<lambda>c. c\<lparr>msgObuf := msgPackHeader c (msgObuf c)\<rparr>) ?v"
    by (rule doInit_opened [OF assms(2)]) simp
  have p: "typed True (c\<lparr>msgObuf := msgPackHeader c (msgObuf c)\<rparr>)" if "typed False c" for c
  proof -
    have "packed_header c (msgPackHeader c (msgObuf c))"
      using that by (intro packed_msgPackHeader typed_port [OF that] typedD(9) [OF that])
    then show ?thesis using that by (simp add: clock_defs)
  qed
  show ?thesis using p [OF well_typedD(1) [OF v]] well_typedD(2) [OF v] unfolding d well_typed_def by simp
qed

lemma well_typed_weaken: "well_typed True w \<Longrightarrow> well_typed b w"
  by (simp add: well_typed_def typed_def)

lemma booting_not_working: "booting opts w \<Longrightarrow> \<not> working w"
  by (simp add: booting_def working_def decided_states_def)

lemma well_typed_booting:
  assumes "well_typed False w" "booting opts w" "good_opts opts"
  shows "well_typed (working (doState w)) (doState w)"
proof -
  let ?w = "on_clock (\<lambda>c. c\<lparr>messageActivity := False\<rparr>) w"
  have t: "well_typed False ?w" using assms(1) by (auto intro!: well_typed_intros)
  have b: "booting opts ?w" using assms(2) idle_frame [of ?w w] by (simp add: booting_def port_state_def)
  then consider "port_state ?w = PTP_INITIALIZING" "fst (doInit ?w)"
    | "port_state ?w = PTP_INITIALIZING" "\<not> fst (doInit ?w)" | "port_state ?w = PTP_FAULTY"
    by (auto simp: booting_def)
  then show ?thesis
  proof cases
    case 1
    then have "doState w = toState PTP_LISTENING (snd (doInit ?w))"
      by (simp add: booting_doState [OF assms(2)] doState_act_def split_beta)
    then show ?thesis
      using well_typed_toState [OF well_typed_doInit [OF t 1(2)]] well_typed_weaken by simp
  next
    case 2
    then have d: "doState w = toState PTP_FAULTY (snd (doInit ?w))" "snd (doInit ?w) = snd (netInit ?w)"
      unfolding booting_doState [OF assms(2)] doState_act_def doInit_def Let_def split_beta by (simp_all split: if_splits)
    have "\<not> working (doState w)"
      using booting_not_working [OF booting_enter [OF booting_doInit_fails [OF b 2(2)]]] d(1) by simp
    then show ?thesis using well_typed_toState [OF well_typed_netInit [OF t]] d by simp
  next
    case 3
    then have d: "doState w = toState PTP_INITIALIZING ?w" by (simp add: booting_doState [OF assms(2)] doState_act_def)
    then have "\<not> working (doState w)" using booting_not_working [OF booting_enter [OF b]] by simp
    then show ?thesis using well_typed_toState [OF t] d by simp
  qed
qed

lemma well_typed_boot:
  assumes "typed_opts opts" "typed_env e"
  shows "well_typed False (boot opts e)"
proof -
  have z: "typed False zero_clock"
    by (simp add: typed_def typed_body_def zero_clock_def typed_data_defs zero_time_def zero_port_def zero_quality_def zero_header_def
        wf_PortIdentity_def zero_filter_def zero_opts_def zero_servo_def CLOCK_IDENTITY_LENGTH_def PTP_UUID_LENGTH_def wf_time_def c_range)
  have r: "typed_record zero_record"
    by (simp add: typed_data_defs zero_record_def zero_port_def zero_announce_def zero_header_def zero_quality_def zero_timestamp_def
        wf_PortIdentity_def wf_Timestamp_def CLOCK_IDENTITY_LENGTH_def c_range)
  have o: "typed False (c\<lparr>rtOpts := x\<rparr>)" if "typed False c" "typed_opts x" for c x
    using that by (simp add: typed_def typed_body_def typed_times_def typed_numbers_def typed_buffers_def)
  obtain x where b: "boot opts e = toState PTP_INITIALIZING (on_clock (\<lambda>c. c\<lparr>rtOpts := x,
      foreignMasterDS := (foreignMasterDS c)\<lparr>fm_records := replicate (nat (r_maxForeignRecords opts)) zero_record\<rparr>\<rparr>)
      (boot_world e))" "typed_opts x"
    using assms(1)
    by (simp add: boot_def ptpdStartup_def Let_def typed_opts_def typed_quality_def DEFAULT_CLOCK_CLASS_SLAVE_ONLY_def is_u8_def)
  have "well_typed False (boot_world e)" using z assms(2) by (simp add: well_typed_def boot_world_def)
  then show ?thesis
    unfolding b(1) using b(2) r o by (intro well_typed_intros) (auto simp: list_all_length intro!: typed_updates)
qed

section \<open>The network's state and the table\<close>

lemma same_addresses: "addresses n' = addresses n \<Longrightarrow> typed_addresses n' = typed_addresses n"
  by (simp add: typed_addresses_def addresses_def)

lemma open_addresses: "keeps_open w w' \<Longrightarrow> typed_addresses (netPath (ptp w')) = typed_addresses (netPath (ptp w))"
  by (rule same_addresses) (simp add: keeps_open_def)

lemma open_ptp:
  "ptp (snd (udp_new w)) = ptp w" "ptp (udp_remove k w) = ptp w" "ptp (udp_bind k n w) = ptp w"
  "netPath (ptp (snd (findIface w))) = netPath (ptp w)"
  by (simp_all add: udp_new_def udp_remove_def udp_bind_def set_local_port_def findIface_def Let_def split_beta split: option.split)

lemma domain_addresses: "is_i32 DEFAULT_PTP_DOMAIN_ADDRESS" "is_i32 PEER_PTP_DOMAIN_ADDRESS" "is_i32 0"
  by (simp_all add: DEFAULT_PTP_DOMAIN_ADDRESS_def PEER_PTP_DOMAIN_ADDRESS_def c_range)

lemma netInit_addresses:
  "typed_addresses (netPath (ptp w)) \<Longrightarrow> typed_addresses (netPath (ptp (snd (netInit w))))"
  unfolding netInit_def Let_def split_beta on_net_def
  by (simp add: open_ptp typed_addresses_def domain_addresses)

lemma doInit_addresses:
  assumes "typed_addresses (netPath (ptp w))"
  shows "typed_addresses (netPath (ptp (snd (doInit w))))"
proof (cases "fst (doInit w)")
  case True
  let ?v = "on_clock initData (snd (netInit w))"
  have d: "snd (doInit w) = on_clock (\<lambda>c. c\<lparr>msgObuf := msgPackHeader c (msgObuf c)\<rparr>) (on_clock m1 (initClock (initTimer ?v)))"
    by (rule doInit_opened [OF True]) simp
  have "typed_addresses (netPath (ptp ?v))"
    using netInit_addresses [OF assms] by (simp add: initData_def Let_def)
  moreover have "keeps_open (initTimer ?v) (snd (doInit w))"
    unfolding d by (intro opened.local_after opened.reset_servo) (simp_all add: core_def)
  ultimately show ?thesis using open_addresses by simp
next
  case False
  then have "snd (doInit w) = snd (netInit w)"
    unfolding doInit_def Let_def split_beta by (simp split: if_splits)
  then show ?thesis using netInit_addresses [OF assms] by simp
qed

lemma reachable_addresses:
  assumes "reachable opts e w" "good_opts opts"
  shows "typed_addresses (netPath (ptp w))"
  using assms(1)
proof (induction rule: reachable_induct)
  case boot
  have "typed_addresses (netPath (ptp (boot_world e)))"
    by (simp add: boot_world_def zero_clock_def typed_addresses_def c_range)
  then show ?case
    using open_addresses [OF opened.toState] by (simp add: boot_def ptpdStartup_def Let_def)
next
  case (step w w')
  show ?case
    using step(2)
  proof (cases rule: ptp_step.cases)
    case step_state
    let ?w = "on_clock (\<lambda>c. c\<lparr>messageActivity := False\<rparr>) w"
    from reachable_invariant [OF step(1) assms(2)] show ?thesis
    proof
      assume b: "booting opts w"
      then have "port_state ?w \<in> {PTP_INITIALIZING, PTP_FAULTY}" by (simp add: booting_def port_state_def)
      then show ?thesis
        using step(3) doInit_addresses [of ?w] open_addresses [OF opened.toState]
        by (auto simp: step_state booting_doState [OF b] doState_act_def split_beta)
    next
      assume "sound opts w"
      then show ?thesis
        using step(3) open_addresses [OF opened.working_step, of w] by (simp add: step_state sound_def)
    qed
  qed (use step(3) in \<open>simp_all add: typed_addresses_def netRecvEventCallback_def netRecvGeneralCallback_def Let_def split_beta
      ptpd_alert_def on_net_def\<close>)
qed

lemma good_queue_typed: "q_good q \<Longrightarrow> typed_queue q"
  by (auto simp: q_good_def q_shape_def typed_queue_def c_range)

lemma reachable_net_typed:
  assumes "reachable opts e w" "good_opts opts"
  shows "typed_net (netPath (ptp w)) \<and> typed_foreign (foreignMasterDS (ptp w))"
proof -
  from reachable_invariant [OF assms]
  have "net_good w \<and> typed_foreign (foreignMasterDS (ptp w))"
  proof
    assume "sound opts w"
    then show ?thesis
      using assms(2) by (auto simp: sound_def safe_def table_ok_def fm_ok_def good_opts_def typed_foreign_def is_i16_def)
  qed (simp add: booting_def net_idle_def typed_foreign_def c_range)
  then show ?thesis
    using reachable_addresses [OF assms] by (simp add: typed_net_def net_good_def good_queue_typed)
qed

section \<open>Property\<close>

text \<open>
  C6 (type).  The C types are kept.  In every reachable world, whatever packets arrive, every integer field of the clock
  holds a value of its C type: the data sets, the counters of the foreign master table and its records, the header and
  body unpacked last, times, sequence numbers, filters, events, options, network addresses and queue indices.
  Identities have eight bytes, the hardware address six, queues and buffers their size, and the received length fits
  the buffer; and the port, once initialised, keeps in the outgoing buffer the header it packed then, whatever messages
  it has sent since.
\<close>

theorem reachable_well_typed:
  assumes "reachable opts e w" "good_opts opts" "typed_opts opts" "typed_env e"
  shows "typed_clock (ptp w) \<and> (working w \<longrightarrow> packed_header (ptp w) (msgObuf (ptp w)) \<and> wf_port_header (ptp w))"
proof -
  have "well_typed (working w) w"
    using assms(1)
  proof (induction rule: reachable_induct)
    case boot
    show ?case using well_typed_boot [OF assms(3,4)] booting_not_working [OF boot_booting [OF assms(2)]] by simp
  next
    case (step w w')
    note inv = reachable_invariant [OF step(1) assms(2)]
    show ?case
      using step(2)
    proof (cases rule: ptp_step.cases)
      case step_state
      then show ?thesis
        using inv step(3) well_typed_working [of w] well_typed_booting [OF _ _ assms(2)] booting_not_working working_doState
        by (auto simp: sound_def safe_def)
    qed (use step(3) in \<open>simp_all add: well_typed_def callback_frame working_def port_state_def netRecvEventCallback_def
        netRecvGeneralCallback_def Let_def split_beta ptpd_alert_def on_net_def\<close>)
  qed
  then show ?thesis
    using typed_port [of "working w" "ptp w"] reachable_net_typed [OF assms(1,2)]
    by (simp add: well_typed_def typed_def typed_clock_def)
qed

theorem reachable_well_typed_witness:
  "typed_clock (ptp (doState (boot default_opts calm_env))) \<and>
   packed_header (ptp (doState (boot default_opts calm_env))) (msgObuf (ptp (doState (boot default_opts calm_env))))"
proof -
  have g: "good_opts default_opts" by (simp add: good_opts_def default_opts_def DEFAULT_MAX_FOREIGN_RECORDS_def)
  have t: "typed_opts default_opts"
    by (simp add: typed_opts_def default_opts_def typed_quality_def wf_time_def c_range DEFAULT_ANNOUNCE_INTERVAL_def
        DEFAULT_SYNC_INTERVAL_def DEFAULT_CLOCK_CLASS_def DEFAULT_CLOCK_ACCURACY_def DEFAULT_CLOCK_VARIANCE_def
        DEFAULT_PRIORITY1_def DEFAULT_PRIORITY2_def DEFAULT_DOMAIN_NUMBER_def DEFAULT_UTC_OFFSET_def
        DEFAULT_MAX_FOREIGN_RECORDS_def DEFAULT_OFFSET_S_def)
  have e: "typed_env calm_env"
    by (simp add: typed_env_def calm_env_def typed_data_defs zero_announce_def zero_quality_def zero_timestamp_def zero_time_def
        wf_Timestamp_def wf_time_def CLOCK_IDENTITY_LENGTH_def c_range)
  have r: "reachable default_opts calm_env (doState (boot default_opts calm_env))"
    by (intro reachable_doState reachable_boot)
  have "working (doState (boot default_opts calm_env))"
    using reachable_invariant [OF r g] calm_start by (auto simp: booting_def sound_def)
  then show ?thesis using reachable_well_typed [OF r g t e] by simp
qed

end
