(* ===== verification/Restart.thy ===== *)
theory Restart
  imports Opened Exchange
begin

text \<open>
  The UDP ports of the daemon: bound by the first start, and what a second start finds.  \<open>ptpd stop\<close> deletes the
  thread without \<open>ptpdShutdown\<close>, so \<open>ptpd_thread\<close> begins again on the static data of the first one, whose control
  blocks still hold the PTP ports.
\<close>

section \<open>Ports a daemon keeps to\<close>

text \<open>The ports at which PTP clocks listen.\<close>

definition ptp_ports :: "int set" where
  "ptp_ports = {PTP_EVENT_PORT, PTP_GENERAL_PORT}"

definition own_pcbs :: "world \<Rightarrow> nat option set" where
  "own_pcbs w = {eventPcb (netPath (ptp w)), generalPcb (netPath (ptp w))}"

text \<open>
  The daemon's control blocks are open on ports of a set \<open>Q\<close>; a block without a port (0) counts only if lwIP picks
  its ephemeral ports in \<open>Q\<close> too.
\<close>

definition ports_in :: "int set \<Rightarrow> world \<Rightarrow> bool" where
  "ports_in Q w \<longleftrightarrow> (\<forall>pcb \<in> own_pcbs w. \<exists>k. pcb = Some k \<and> local_port k w \<in> Q) \<and> (0 \<in> Q \<longrightarrow> (\<forall>n. e_ephemeral (env w) n \<in> Q))"

definition sent_to :: "int set \<Rightarrow> packet list \<Rightarrow> bool" where
  "sent_to Q ps \<longleftrightarrow> list_all (\<lambda>p. case p of Packet addr port payload \<Rightarrow> port \<in> Q) ps"

lemma sent_to_simps [simp]: "sent_to Q []" "sent_to Q (ps @ qs) \<longleftrightarrow> sent_to Q ps \<and> sent_to Q qs"
  by (simp_all add: sent_to_def)

definition keeps_ports :: "int set \<Rightarrow> world \<Rightarrow> world \<Rightarrow> bool" where
  "keeps_ports Q w w' \<longleftrightarrow> (ports_in Q w \<longrightarrow> ports_in Q w' \<and> (0 \<notin> Q \<longrightarrow> pcbs w' = pcbs w) \<and> next_pcb w' = next_pcb w \<and>
     (\<exists>new. sent w' = sent w @ new \<and> sent_to Q new))"

lemma same_ports:
  "eventPcb (netPath (ptp w')) = eventPcb (netPath (ptp w)) \<Longrightarrow> generalPcb (netPath (ptp w')) = generalPcb (netPath (ptp w)) \<Longrightarrow>
    env w' = env w \<Longrightarrow> pcbs w' = pcbs w \<Longrightarrow> sent w' = sent w \<Longrightarrow>
    next_pcb w' = next_pcb w \<Longrightarrow> keeps_ports Q w w'"
  by (simp add: keeps_ports_def ports_in_def local_port_def own_pcbs_def)

lemma keeps_ports_trans: "keeps_ports Q w w' \<Longrightarrow> keeps_ports Q w' w'' \<Longrightarrow> keeps_ports Q w w''"
  by (auto simp: keeps_ports_def)

subsection \<open>The operations of the other components\<close>

lemma map_of_port: "map_of (map (\<lambda>(k', p). (k', if k' = k then e else p)) ps) j =
    (if j = k then map_option (\<lambda>_. e) (map_of ps k) else map_of ps j)"
  by (induction ps) auto

lemma local_port_set: "local_port j (set_local_port k e w) =
    (if j = k then (if map_of (pcbs w) k = None then 0 else e) else local_port j w)"
  by (simp add: local_port_def set_local_port_def map_of_port split: option.split)

lemma send_ports:
  assumes "pcb \<in> {eventPcb (netPath (ptp w)), generalPcb (netPath (ptp w))}"
  shows "keeps_ports Q w (snd (netSend b l s t a pcb w))"
proof (cases pcb)
  case (Some k)
  show ?thesis
    using assms unfolding Some netSend_def udp_sendto_def Let_def split_beta keeps_ports_def
    by (auto simp: ports_in_def own_pcbs_def local_port_set sent_to_def local_port_def set_local_port_def map_of_port split: option.splits)
qed (simp add: netSend_def Let_def split_beta same_ports)

lemma receive_ports: "keeps_ports Q w (snd (netRecvEvent b s t w))" "keeps_ports Q w (snd (netRecvGeneral b s t w))"
  by (rule same_ports; simp add: netRecvEvent_def netRecvGeneral_def Let_def split_beta)+

lemma reset_ports: "keeps_ports Q w (initClock w)"
  by (rule same_ports) (simp_all add: initClock_unfold netEmptyEventQ_def Let_def split_beta)

lemma servo_ports: "keeps_ports Q w (updateClock w)"
proof -
  have "keeps_ports Q w (updateClock_pi w)"
    unfolding updateClock_pi_def Let_def by (rule same_ports) (simp_all add: DEFAULT_PARENTS_STATS_def adjTime_clamp)
  moreover have "keeps_ports Q w (updateClock_far w)"
    unfolding updateClock_far_def Let_def split_beta
    by (simp add: adjTime_clamp del: ask_simps initClock_frame)
      (intro conjI impI keeps_ports_trans [OF _ reset_ports] same_ports; simp)
  ultimately show ?thesis by (simp add: updateClock_def Let_def)
qed

interpretation ports: engine_relation "keeps_ports Q" for Q
proof unfold_locales
  show "keeps_ports Q w w''" if "keeps_ports Q w w'" "keeps_ports Q w' w''" for w w' w''
    by (rule keeps_ports_trans [OF that])
  show "keeps_ports Q w (on_clock f w)" if "\<And>c. core (f c) = core c" for f w
    using that [of "ptp w"] by (intro same_ports) (simp_all add: core_def)
  show "keeps_ports Q w (snd (netSend b l s t a pcb w))"
    if "pcb \<in> {eventPcb (netPath (ptp w)), generalPcb (netPath (ptp w))}" for b l s t a pcb w
    by (rule send_ports [OF that])
  show "keeps_ports Q w (snd (netRecvEvent b s t w))" "keeps_ports Q w (snd (netRecvGeneral b s t w))" for w b s t
    by (rule receive_ports)+
  show "keeps_ports Q w (updateClock w)" "keeps_ports Q w (initClock w)" for w
    by (rule servo_ports reset_ports)+
qed ((rule same_ports; simp add: set_portState_def set_recommended_def)+)

section \<open>Starting again\<close>

text \<open>The beginning of \<open>ptpd_thread\<close>; \<open>ptpForeignRecords\<close> holds what it held.\<close>

definition ptpd_restart :: "world \<Rightarrow> world" where
  "ptpd_restart w = snd (ptpdStartup default_opts (fm_records (foreignMasterDS (ptp w))) w)"

text \<open>A change of state leaves the network alone but for the event queue it may drain.\<close>

definition wiring :: "world \<Rightarrow> env \<times> (nat \<times> int) list \<times> nat \<times> packet list \<times> nat option \<times> nat option \<times> BufQueue" where
  "wiring w = (env w, pcbs w, next_pcb w, sent w, eventPcb (netPath (ptp w)), generalPcb (netPath (ptp w)), generalQ (netPath (ptp w)))"

lemma wiring_simps [simp]:
  "netPath (f (ptp w)) = netPath (ptp w) \<Longrightarrow> wiring (on_clock f w) = wiring w"
  "wiring (timerStop k w) = wiring w" "wiring (timerStart k ms w) = wiring w" "wiring (initClock w) = wiring w"
  "wiring (snd (getRand m w)) = wiring w" "wiring (initTimer w) = wiring w"
proof -
  have s: "wiring (set_timer i f w) = wiring w" for i f w by (simp add: wiring_def set_timer_def)
  show "wiring (timerStop k w) = wiring w" "wiring (timerStart k ms w) = wiring w"
    by (simp_all add: timerStop_def timerStart_def s)
  have "wiring (fold (\<lambda>i. set_timer i (f i)) is w) = wiring w" for f and "is" :: "nat list"
    by (induction "is" arbitrary: w) (simp_all add: s)
  then show "wiring (initTimer w) = wiring w" by (simp add: initTimer_def)
  show "wiring (initClock w) = wiring w"
    by (simp add: wiring_def) (simp add: initClock_unfold netEmptyEventQ_def Let_def split_beta)
qed (simp_all add: wiring_def getRand_def split_beta Let_def)

lemma wiring_rand [simp]: "wiring (timerStartRand k n w) = wiring w"
  by (simp add: timerStartRand_def split_beta Let_def)

lemma wiring_toState [simp]: "wiring (toState s w) = wiring w"
proof -
  have "wiring (leaveState s v) = wiring v" for v
    unfolding leaveState_def leaveSlave_def Let_def
    by (cases "port_state v"; simp) (simp split: delay_mechanism.split)+
  moreover have "wiring (enterState s v) = wiring v" for v
    unfolding enterState_def enterMaster_def Let_def
    by (cases s; simp add: set_portState_def set_recommended_def) (simp split: delay_mechanism.split)+
  ultimately show ?thesis by (simp add: toState_def)
qed

lemma restart_ready:
  "port_state (ptpd_restart w) = PTP_INITIALIZING" "recommendedState (ptp (ptpd_restart w)) = PTP_INITIALIZING"
  "wiring (ptpd_restart w) = wiring w" "keeps_buffers w (ptpd_restart w)"
proof -
  obtain f where r: "ptpd_restart w = toState PTP_INITIALIZING (on_clock f w)" and f: "\<And>c. netPath (f c) = netPath c"
    by (simp add: ptpd_restart_def ptpdStartup_def Let_def)
  show "port_state (ptpd_restart w) = PTP_INITIALIZING" "recommendedState (ptp (ptpd_restart w)) = PTP_INITIALIZING"
    by (simp_all add: r) (simp add: toState_def enterState_def set_recommended_def)
  show "wiring (ptpd_restart w) = wiring w" using f by (simp add: r)
  have "keeps_buffers w (on_clock f w)" using f by (intro same_buffers) simp_all
  then show "keeps_buffers w (ptpd_restart w)" unfolding r by (rule buffers.trans [OF _ buffers.toState])
qed

lemma initialising_doState:
  assumes "port_state w = PTP_INITIALIZING" "recommendedState (ptp w) = PTP_INITIALIZING"
    and "fst (netInit (on_clock (\<lambda>c. c\<lparr>messageActivity := False\<rparr>) w))"
  shows "fst (doInit (on_clock (\<lambda>c. c\<lparr>messageActivity := False\<rparr>) w))"
    "doState w = toState PTP_LISTENING (snd (doInit (on_clock (\<lambda>c. c\<lparr>messageActivity := False\<rparr>) w)))"
proof -
  let ?w = "on_clock (\<lambda>c. c\<lparr>messageActivity := False\<rparr>) w"
  show d: "fst (doInit ?w)" using assms(3) by (simp add: doInit_def split_beta Let_def)
  have p: "port_state ?w = PTP_INITIALIZING" "recommendedState (ptp ?w) = PTP_INITIALIZING"
    using assms(1,2) by (simp_all add: port_state_def)
  then have "doState_decide ?w = ?w" by (simp add: doState_decide_def active_states_def)
  moreover have "doState_recommended ?w = ?w" using p by (simp add: doState_recommended_def)
  ultimately show "doState w = toState PTP_LISTENING (snd (doInit ?w))"
    using p d by (simp add: doState_def doState_act_def split_beta Let_def)
qed

section \<open>The first start\<close>

lemma netInit_ok:
  "fst (netInit w) \<longleftrightarrow> e_ifaddr (env w) (tick w) \<noteq> 0 \<and> e_udp_new (env w) (Suc (tick w)) \<and> e_udp_new (env w) (Suc (Suc (tick w)))"
  by (simp add: netInit_def findIface_def udp_new_def ask_def Let_def)

lemma netInit_keeps:
  "sent (snd (netInit w)) = sent w" "env (snd (netInit w)) = env w"
  "fst (netInit w) \<Longrightarrow> next_pcb (snd (netInit w)) = Suc (Suc (next_pcb w))"
  by (simp_all add: netInit_def findIface_def udp_new_def udp_remove_def udp_bind_def set_local_port_def ask_def Let_def
      split: option.split if_splits)

text \<open>The rest of \<open>doInit\<close> and the entry into LISTENING.\<close>

lemma doInit_ports:
  assumes "fst (netInit w)"
  shows "fst (doInit w)" "wiring (toState PTP_LISTENING (snd (doInit w))) = wiring (snd (netInit w))"
    "keeps_ports Q (snd (netInit w)) (toState PTP_LISTENING (snd (doInit w)))"
    "keeps_buffers (snd (netInit w)) (toState PTP_LISTENING (snd (doInit w)))"
proof -
  let ?v = "on_clock initData (snd (netInit w))"
  have n: "netPath (initData c) = netPath c" "netPath (m1 c) = netPath c" for c by (simp_all add: initData_def m1_def Let_def)
  show d: "fst (doInit w)" using assms by (simp add: doInit_def split_beta Let_def)
  have e: "snd (doInit w) = on_clock (\<lambda>c. c\<lparr>msgObuf := msgPackHeader c (msgObuf c)\<rparr>) (on_clock m1 (initClock (initTimer ?v)))"
    by (rule doInit_opened [OF d]) simp
  show "wiring (toState PTP_LISTENING (snd (doInit w))) = wiring (snd (netInit w))" by (simp add: e n)
  have "keeps_buffers (snd (netInit w)) ?v" by (rule same_buffers) (simp_all add: n)
  then show "keeps_buffers (snd (netInit w)) (toState PTP_LISTENING (snd (doInit w)))"
    using doInit_steps(3) [OF d] by (rule buffers.trans)
  have c: "core (m1 c) = core c" "core (c\<lparr>msgObuf := msgPackHeader c (msgObuf c)\<rparr>) = core c" for c
    by (simp_all add: core_def)
  have i: "keeps_ports Q (snd (netInit w)) (initTimer ?v)"
  proof (rule same_ports)
    show "env (initTimer ?v) = env (snd (netInit w))" "pcbs (initTimer ?v) = pcbs (snd (netInit w))"
      "sent (initTimer ?v) = sent (snd (netInit w))" "next_pcb (initTimer ?v) = next_pcb (snd (netInit w))"
      "eventPcb (netPath (ptp (initTimer ?v))) = eventPcb (netPath (ptp (snd (netInit w))))"
      "generalPcb (netPath (ptp (initTimer ?v))) = generalPcb (netPath (ptp (snd (netInit w))))"
      using wiring_simps(6) [of ?v] by (simp_all add: wiring_def n)
  qed
  show "keeps_ports Q (snd (netInit w)) (toState PTP_LISTENING (snd (doInit w)))"
    unfolding e by (intro ports.trans [OF _ ports.toState] ports.local_after ports.trans [OF i ports.reset_servo] c)
qed

text \<open>A daemon at work on the ports of the protocol.\<close>

definition serving :: "world \<Rightarrow> bool" where
  "serving w \<longleftrightarrow> working w \<and> ports_in ptp_ports w \<and> pcbs_good w \<and> ptp_ports \<subseteq> snd ` set (pcbs w) \<and> sent_to ptp_ports (sent w)"

lemma zero_port [simp]: "0 \<notin> ptp_ports" "0 \<in> - ptp_ports"
  by (simp_all add: ptp_ports_def PTP_EVENT_PORT_def PTP_GENERAL_PORT_def)

lemma serving_by: "keeps_ports ptp_ports w w' \<Longrightarrow> working w' \<Longrightarrow> serving w \<Longrightarrow> serving w'"
  by (auto simp: serving_def keeps_ports_def pcbs_good_def)

lemma ports_step:
  assumes "ptp_step w w'" "working w"
  shows "keeps_ports Q w w'" "working w'"
proof -
  have c: "keeps_ports Q w (netRecvEventCallback p w)" "keeps_ports Q w (netRecvGeneralCallback p w)" "keeps_ports Q w (timerCallback k w)" for p k
    by (rule same_ports; simp add: netRecvEventCallback_def netRecvGeneralCallback_def Let_def split_beta pbuf_free_def ptpd_alert_def timerCallback_def)+
  show "keeps_ports Q w w'" "working w'"
    using assms c ports.working_step [OF assms(2)]
    by (cases rule: ptp_step.cases; simp add: working_doState callback_frame working_timer)+
qed

text \<open>An idle daemon opens its two control blocks.\<close>

lemma opened_ports:
  assumes "fst (netInit w)" "pcbs_good w"
  defines "v \<equiv> toState PTP_LISTENING (snd (doInit w))"
  shows "pcbs v = (Suc (next_pcb w), if PTP_GENERAL_PORT \<in> snd ` set (pcbs w) then 0 else PTP_GENERAL_PORT) #
      (next_pcb w, if PTP_EVENT_PORT \<in> snd ` set (pcbs w) then 0 else PTP_EVENT_PORT) # pcbs w"
    "next_pcb v = Suc (Suc (next_pcb w))" "sent v = sent w" "env v = env w"
    "eventPcb (netPath (ptp v)) = Some (next_pcb w)" "generalPcb (netPath (ptp v)) = Some (Suc (next_pcb w))"
    "working v" "port_state v = PTP_LISTENING" "pcbs_good v"
proof -
  note o = netInit_opens [OF _ _ _ assms(2)]
  note ok = assms(1) [unfolded netInit_ok]
  have w: "wiring v = wiring (snd (netInit w))" unfolding v_def by (rule doInit_ports(2) [OF assms(1)])
  then show p: "pcbs v = (Suc (next_pcb w), if PTP_GENERAL_PORT \<in> snd ` set (pcbs w) then 0 else PTP_GENERAL_PORT) #
      (next_pcb w, if PTP_EVENT_PORT \<in> snd ` set (pcbs w) then 0 else PTP_EVENT_PORT) # pcbs w"
    using o(4) ok by (simp add: wiring_def)
  show n: "next_pcb v = Suc (Suc (next_pcb w))" using w netInit_keeps(3) [OF assms(1)] by (simp add: wiring_def)
  show "sent v = sent w" "env v = env w" using w netInit_keeps(1,2) [of w] by (simp_all add: wiring_def)
  show "eventPcb (netPath (ptp v)) = Some (next_pcb w)" "generalPcb (netPath (ptp v)) = Some (Suc (next_pcb w))"
    using w o(2,3) ok by (simp_all add: wiring_def)
  show "working v" by (simp add: v_def working_def running_states_def decided_states_def toState_recommends)
  show "port_state v = PTP_LISTENING" by (simp add: v_def)
  show "pcbs_good v" using assms(2) by (auto simp: pcbs_good_def p n list_all_iff)
qed

lemma opened_serving:
  assumes "fst (netInit w)" "pcbs w = []" "sent w = []"
  shows "serving (toState PTP_LISTENING (snd (doInit w)))"
proof -
  note o = opened_ports [OF assms(1)]
  have g: "pcbs_good w" by (simp add: pcbs_good_def assms(2))
  show ?thesis
    using o [OF g] assms(2,3) by (simp add: serving_def ports_in_def own_pcbs_def local_port_def ptp_ports_def)
      (simp add: PTP_EVENT_PORT_def PTP_GENERAL_PORT_def)
qed

lemma reachable_serving:
  assumes "reachable opts e w" "good_opts opts"
  shows "booting opts w \<and> sent w = [] \<or> serving w"
  using assms(1)
proof (induction rule: reachable_induct)
  case boot
  have "wiring (boot opts e) = wiring (boot_world e)" by (simp add: boot_def ptpdStartup_def Let_def)
  then show ?case using boot_booting [OF assms(2)] by (simp add: wiring_def boot_world_def)
next
  case (step w w')
  show ?case
  proof (cases "serving w")
    case True
    then show ?thesis using ports_step(1) [OF \<open>ptp_step w w'\<close>, of ptp_ports] ports_step(2) [OF \<open>ptp_step w w'\<close>] serving_by [of w w'] by (simp add: serving_def)
  next
    case False
    then have b: "booting opts w" "sent w = []" using step by auto
    from \<open>ptp_step w w'\<close> show ?thesis
    proof cases
      case step_state
      let ?w = "on_clock (\<lambda>c. c\<lparr>messageActivity := False\<rparr>) w"
      have b': "booting opts ?w" using b(1) idle_frame [of ?w w] by (simp add: booting_def port_state_def)
      have s: "sent (toState s v) = sent v" for s v using wiring_toState [of s v] by (simp add: wiring_def)
      consider "port_state ?w = PTP_FAULTY" | "port_state ?w = PTP_INITIALIZING" "fst (netInit ?w)"
        | "port_state ?w = PTP_INITIALIZING" "\<not> fst (netInit ?w)"
        using b' by (auto simp: booting_def)
      then show ?thesis
      proof cases
        case 1
        then show ?thesis
          using booting_enter [OF b', of PTP_INITIALIZING] b(2) s
          by (simp add: step_state booting_doState [OF b(1)] doState_act_def)
      next
        case 2
        then have "doState w = toState PTP_LISTENING (snd (doInit ?w))"
          using doInit_ports(1) [OF 2(2)] by (simp add: booting_doState [OF b(1)] doState_act_def split_beta)
        then show ?thesis
          using opened_serving [OF 2(2)] b by (simp add: step_state booting_def)
      next
        case 3
        then have d: "\<not> fst (doInit ?w)" "snd (doInit ?w) = snd (netInit ?w)" by (simp_all add: doInit_def split_beta Let_def)
        have "doState w = toState PTP_FAULTY (snd (doInit ?w))"
          using 3 d(1) by (simp add: booting_doState [OF b(1)] doState_act_def split_beta)
        then show ?thesis
          using booting_enter [OF booting_doInit_fails [OF b' d(1)], of PTP_FAULTY] b(2) s netInit_keeps(1) [of ?w]
          by (simp add: step_state d(2))
      qed
    next
      case (step_timer k)
      then show ?thesis using b timerCallback_invariant(1) [of opts k w] by simp
    qed (use b(1) in \<open>auto simp: booting_def delivers_def split: option.splits\<close>)
  qed
qed

text \<open>Opening the network empties the queues whatever they hold.\<close>

lemma opening_loses:
  assumes "fst (netInit (on_clock (\<lambda>c. c\<lparr>messageActivity := False\<rparr>) r))" "keeps_buffers w r" "net_good w"
    and "generalQ (netPath (ptp (on_clock (\<lambda>c. c\<lparr>messageActivity := False\<rparr>) r))) = generalQ (netPath (ptp w))"
  shows "owned (toState PTP_LISTENING (snd (doInit (on_clock (\<lambda>c. c\<lparr>messageActivity := False\<rparr>) r)))) + mset (q_contents (generalQ (netPath (ptp w)))) \<subseteq># owned w"
proof -
  let ?w = "on_clock (\<lambda>c. c\<lparr>messageActivity := False\<rparr>) r"
  have r: "net_good r" "owned r = owned w" using assms(2,3) by (simp_all add: keeps_buffers_def)
  then have g: "net_good ?w" "owned ?w = owned w" by (simp_all add: net_good_def owned_def)
  have q: "q_shape (eventQ (netPath (ptp ?w)))" "q_shape (generalQ (netPath (ptp ?w)))"
    using g(1) by (simp_all add: net_good_def q_good_def)
  let ?n = "snd (netInit ?w)"
  have n: "eventQ (netPath (ptp ?n)) = netQInit (eventQ (netPath (ptp ?w)))"
    "generalQ (netPath (ptp ?n)) = netQInit (generalQ (netPath (ptp ?w)))" "freed ?n = freed ?w"
    using assms(1) unfolding netInit_ok
    by (simp_all add: netInit_def findIface_def udp_new_def udp_bind_def set_local_port_def ask_def Let_def)
  have "net_good ?n" "owned ?n = mset (freed ?w)"
    unfolding net_good_def owned_def n using ring_init [OF q(1)] ring_init [OF q(2)] by simp_all
  then have "owned (toState PTP_LISTENING (snd (doInit ?w))) = mset (freed ?w)"
    using doInit_ports(4) [OF assms(1)] by (simp add: keeps_buffers_def)
  moreover have "mset (freed ?w) + mset (q_contents (generalQ (netPath (ptp ?w)))) \<subseteq># owned ?w"
    by (simp add: owned_def)
  ultimately show ?thesis using g(2) assms(4) by simp
qed

section \<open>Properties\<close>

text \<open>
  In every reachable world of a daemon that has opened the network, its control blocks are bound to
  the PTP event and general ports, and every datagram it has ever sent went to one of the two.
\<close>

theorem datagrams_go_to_ptp_ports:
  assumes "reachable opts e w" "0 < r_maxForeignRecords opts" "r_maxForeignRecords opts \<le> 32767"
  shows "sent_to {PTP_EVENT_PORT, PTP_GENERAL_PORT} (sent w) \<and>
    (port_state w \<notin> {PTP_INITIALIZING, PTP_FAULTY} \<longrightarrow> ports_in {PTP_EVENT_PORT, PTP_GENERAL_PORT} w)"
proof -
  have "booting opts w \<and> sent w = [] \<or> serving w" using reachable_serving [OF assms(1)] assms(2,3) by (simp add: good_opts_def)
  then show ?thesis by (auto simp: serving_def ptp_ports_def booting_def)
qed

theorem datagrams_go_to_ptp_ports_witness:
  "ports_in {PTP_EVENT_PORT, PTP_GENERAL_PORT} (doState (boot default_opts calm_env))"
  using datagrams_go_to_ptp_ports [OF reachable_doState [OF reachable_boot [of default_opts calm_env]]] calm_start
  by (simp add: default_opts_def DEFAULT_MAX_FOREIGN_RECORDS_def)

text \<open>
  C9 (safety).  \<open>ptpd stop\<close> and \<open>ptpd start\<close> make the daemon mute.  Whatever a reachable daemon was doing, when its
  thread is deleted between two calls of \<open>doState\<close> and a new one begins on the same static data, then, as the
  old control blocks hold the PTP ports, the first \<open>doState\<close> opens two more that get no port, loses the packets
  waiting in the general queue without freeing them, and from then on nothing the daemon sends,
  in whatever run, goes to a PTP port again.  The interface has an address, lwIP has memory for the two control
  blocks, and the ports it gives unbound ones are not those of PTP.  The runs hold the timers of the new start only:
  callbacks of the old RTOS timers, whose handles \<open>initTimer\<close> overwrites while they run, are not among the steps.
\<close>

theorem restarted_daemon_is_mute:
  assumes "reachable opts e w" "0 < r_maxForeignRecords opts" "r_maxForeignRecords opts \<le> 32767"
    and "port_state w \<notin> {PTP_INITIALIZING, PTP_FAULTY}"
    and "\<And>n. e_ifaddr (env w) n \<noteq> 0 \<and> e_udp_new (env w) n \<and> e_ephemeral (env w) n \<notin> {PTP_EVENT_PORT, PTP_GENERAL_PORT}"
    and "v = doState (ptpd_restart w)" "ptp_step\<^sup>*\<^sup>* v u"
  shows "port_state v = PTP_LISTENING \<and> set (pcbs w) \<subseteq> set (pcbs v) \<and> length (pcbs v) = length (pcbs w) + 2 \<and>
    owned v + mset (q_contents (generalQ (netPath (ptp w)))) \<subseteq># owned w \<and>
    (\<exists>new. sent u = sent w @ new \<and> (\<forall>addr port payload. Packet addr port payload \<in> set new \<longrightarrow> port \<notin> {PTP_EVENT_PORT, PTP_GENERAL_PORT}))"
proof -
  let ?r = "ptpd_restart w" and ?w = "on_clock (\<lambda>c. c\<lparr>messageActivity := False\<rparr>) (ptpd_restart w)"
  have s: "serving w" "net_good w"
    using reachable_serving [OF assms(1)] reachable_invariant [OF assms(1)] assms(2-4)
    by (auto simp: good_opts_def booting_def sound_def safe_def)
  note r = restart_ready [of w]
  have q: "wiring ?w = wiring w" using r(3) by simp
  have i: "fst (netInit ?w)" using assms(5) q by (simp add: netInit_ok wiring_def)
  have g: "pcbs_good ?w" using s(1) q by (simp add: serving_def pcbs_good_def wiring_def)
  note o = opened_ports [OF i g]
  have v: "v = toState PTP_LISTENING (snd (doInit ?w))" using initialising_doState(2) [OF r(1,2) i] assms(6) by simp
  have w: "pcbs ?w = pcbs w" "sent ?w = sent w" "env ?w = env w" "generalQ (netPath (ptp ?w)) = generalQ (netPath (ptp w))"
    using q by (simp_all add: wiring_def)
  have p: "pcbs v = (Suc (next_pcb ?w), 0) # (next_pcb ?w, 0) # pcbs w"
    using o(1) s(1) w(1) by (simp add: v serving_def ptp_ports_def)
  have mute: "ports_in (- ptp_ports) v"
    using o(4-6) assms(5) w(3) zero_port(1) by (auto simp: ports_in_def own_pcbs_def local_port_def p v [symmetric] ptp_ports_def)
  have "working v" using o(7) v by simp
  have "working u \<and> keeps_ports (- ptp_ports) v u"
    using assms(7)
  proof (induction rule: rtranclp_induct)
    case base
    show ?case using \<open>working v\<close> by (simp add: ports.refl)
  next
    case (step x y)
    then show ?case using ports_step ports.trans by blast
  qed
  then obtain new where "sent u = sent v @ new" "sent_to (- ptp_ports) new"
    using mute by (auto simp: keeps_ports_def)
  then have n: "\<exists>new. sent u = sent w @ new \<and> (\<forall>addr port payload. Packet addr port payload \<in> set new \<longrightarrow> port \<notin> {PTP_EVENT_PORT, PTP_GENERAL_PORT})"
    using o(3) w(2) by (auto simp: v sent_to_def list_all_iff ptp_ports_def)
  have "owned v + mset (q_contents (generalQ (netPath (ptp w)))) \<subseteq># owned w"
    using opening_loses [OF i r(4) s(2) w(4)] v by simp
  then show ?thesis using n p o(8) v by auto
qed

lemma calm_env_kept: "env (doState (boot default_opts calm_env)) = calm_env"
proof -
  have b: "wiring (boot default_opts calm_env) = wiring (boot_world calm_env)" "port_state (boot default_opts calm_env) = PTP_INITIALIZING"
    "recommendedState (ptp (boot default_opts calm_env)) = PTP_INITIALIZING"
    by (simp_all add: boot_def ptpdStartup_def Let_def) (simp add: toState_def enterState_def set_recommended_def)
  let ?w = "on_clock (\<lambda>c. c\<lparr>messageActivity := False\<rparr>) (boot default_opts calm_env)"
  have w: "env ?w = calm_env" "pcbs ?w = []" using b(1) by (simp_all add: wiring_def boot_world_def)
  then have i: "fst (netInit ?w)" by (simp add: netInit_ok calm_env_def)
  show ?thesis
    using opened_ports(4) [OF i] w by (simp add: initialising_doState(2) [OF b(2,3) i] pcbs_good_def)
qed

theorem restarted_daemon_is_mute_witness:
  "length (pcbs (doState (ptpd_restart (doState (boot default_opts calm_env))))) =
     length (pcbs (doState (boot default_opts calm_env))) + 2"
  using restarted_daemon_is_mute [OF reachable_doState [OF reachable_boot [of default_opts calm_env]] _ _ _ _ refl rtranclp.rtrancl_refl]
    calm_start calm_env_kept
  by (simp add: default_opts_def DEFAULT_MAX_FOREIGN_RECORDS_def calm_env_def PTP_EVENT_PORT_def PTP_GENERAL_PORT_def)

end
