(* ===== verification/Commands.thy ===== *)
theory Commands
  imports Restart Ethif AppNet
begin

text \<open>
  The console's commands of \<open>app.c\<close> and what they call: the date with the calendar of \<open>localtime_r\<close>, the
  life of the PTP daemon's task (\<open>ptpd_init\<close>, \<open>ptpd_stats\<close> of \<open>ptpd.c\<close>), and the registers of the transceiver.
  The command interpreter and its macros \<open>CLI_IS_PARM\<close> and \<open>CLI_GET_INT_PARM\<close> are in an empty submodule: what they
  answer is a parameter.
\<close>

datatype cli_result = CLI_OK | CLI_BAD_PARAM

section \<open>The calendar\<close>

text \<open>\<open>localtime_r\<close> of the C library, in UTC.\<close>

record tm =
  tm_sec :: int
  tm_min :: int
  tm_hour :: int
  tm_mday :: int
  tm_mon :: int
  tm_year :: int
  tm_wday :: int

definition leap :: "int \<Rightarrow> bool" where
  "leap y \<longleftrightarrow> y mod 4 = 0 \<and> y mod 100 \<noteq> 0 \<or> y mod 400 = 0"

definition year_days :: "int \<Rightarrow> int" where
  "year_days y = (if leap y then 366 else 365)"

definition month_days :: "int \<Rightarrow> int list" where
  "month_days y = [31, if leap y then 29 else 28, 31, 30, 31, 30, 31, 31, 30, 31, 30, 31]"

text \<open>Counting years from \<open>y\<close>, forwards or backwards, until \<open>d\<close> is a day of the year.\<close>

function year_of :: "int \<Rightarrow> int \<Rightarrow> int \<times> int" where
  "year_of y d =
     (if d < 0 then year_of (y - 1) (d + year_days (y - 1))
      else if d \<ge> year_days y then year_of (y + 1) (d - year_days y)
      else (y, d))"
  by pat_completeness auto

termination year_of
  by (relation "measure (\<lambda>(y, d). if d < 0 then 400 + nat (- d) else nat d)") (auto simp: year_days_def split: if_splits)

fun month_of :: "int list \<Rightarrow> int \<Rightarrow> int \<Rightarrow> int \<times> int" where
  "month_of [] m d = (m, d)"
| "month_of (l # ls) m d = (if d < l then (m, d) else month_of ls (m + 1) (d - l))"

definition localtime_r :: "int \<Rightarrow> tm" where
  "localtime_r t =
     (let days = t div 86400; rem = t mod 86400;
          (y, d) = year_of 1970 days;
          (m, d) = month_of (month_days y) 0 d
      in \<lparr>tm_sec = rem mod 60, tm_min = rem div 60 mod 60, tm_hour = rem div 3600, tm_mday = d + 1, tm_mon = m,
          tm_year = y - 1900, tm_wday = (4 + days) mod 7\<rparr>)"

text \<open>
  What a date means: the days before January 1st of a year, since 1970, in closed form, and the seconds since the
  epoch a date stands for.
\<close>

definition days_before :: "int \<Rightarrow> int" where
  "days_before y = 365 * (y - 1970) + (y - 1) div 4 - (y - 1) div 100 + (y - 1) div 400 - 477"

definition timegm :: "tm \<Rightarrow> int" where
  "timegm t = (days_before (1900 + tm_year t) + sum_list (take (nat (tm_mon t)) (month_days (1900 + tm_year t))) + tm_mday t - 1) * 86400 +
     tm_hour t * 3600 + tm_min t * 60 + tm_sec t"

definition valid_tm :: "tm \<Rightarrow> bool" where
  "valid_tm t \<longleftrightarrow> 0 \<le> tm_sec t \<and> tm_sec t < 60 \<and> 0 \<le> tm_min t \<and> tm_min t < 60 \<and> 0 \<le> tm_hour t \<and> tm_hour t < 24 \<and>
     0 \<le> tm_mon t \<and> tm_mon t < 12 \<and> 1 \<le> tm_mday t \<and> tm_mday t \<le> month_days (1900 + tm_year t) ! nat (tm_mon t) \<and>
     0 \<le> tm_wday t \<and> tm_wday t < 7"

lemma div_pred:
  fixes x n :: int
  assumes "n > 0"
  shows "x div n = (x - 1) div n + (if x mod n = 0 then 1 else 0)"
proof -
  have x: "x = n * (x div n) + x mod n" "0 \<le> x mod n" "x mod n < n" using assms by simp_all
  show ?thesis
  proof (cases "x mod n = 0")
    case True
    have "(x - 1) div n = x div n - 1"
      by (rule int_div_pos_eq [where r = "n - 1"]) (use x True assms in \<open>simp_all add: algebra_simps\<close>)
    then show ?thesis using True by simp
  next
    case False
    have "(x - 1) div n = x div n"
      by (rule int_div_pos_eq [where r = "x mod n - 1"]) (use x False in \<open>simp_all add: algebra_simps\<close>)
    then show ?thesis using False by simp
  qed
qed

lemma mod_up: "y mod 400 = 0 \<Longrightarrow> y mod 100 = 0" "y mod 100 = 0 \<Longrightarrow> y mod 4 = 0" for y :: int
  using mod_mod_cancel [of "100 :: int" 400 y] mod_mod_cancel [of "4 :: int" 100 y] by simp_all

lemma days_before_Suc: "days_before (y + 1) = days_before y + year_days y"
proof -
  have d: "y div 4 = (y - 1) div 4 + (if y mod 4 = 0 then 1 else 0)" "y div 100 = (y - 1) div 100 + (if y mod 100 = 0 then 1 else 0)"
    "y div 400 = (y - 1) div 400 + (if y mod 400 = 0 then 1 else 0)"
    by (rule div_pred, simp)+
  have gen: "365 * (y + 1 - 1970) + (A + i) - (B + j) + (C + k) - 477 - (365 * (y - 1970) + A - B + C - 477) = 365 + i - j + k"
    for A B C i j k :: int by simp
  have "days_before (y + 1) - days_before y = 365 + (if y mod 4 = 0 then 1 else 0) - (if y mod 100 = 0 then 1 else 0) + (if y mod 400 = 0 then 1 else 0)"
    by (simp only: days_before_def add_diff_cancel_right' d gen)
  also have "\<dots> = year_days y" using mod_up [of y] by (auto simp: year_days_def leap_def)
  finally show ?thesis by simp
qed

declare year_of.simps [simp del]

lemma year_of_day:
  "year_of y d = (y', d') \<Longrightarrow> days_before y' + d' = days_before y + d \<and> 0 \<le> d' \<and> d' < year_days y'"
proof (induction y d rule: year_of.induct)
  case (1 y d)
  show ?case
  proof (cases "d < 0")
    case True
    then have "days_before y' + d' = days_before (y - 1) + (d + year_days (y - 1)) \<and> 0 \<le> d' \<and> d' < year_days y'"
      using 1 by (simp add: year_of.simps [of y d])
    then show ?thesis using days_before_Suc [of "y - 1"] by simp
  next
    case False
    then show ?thesis using 1 days_before_Suc [of y] by (cases "d \<ge> year_days y") (simp_all add: year_of.simps [of y d])
  qed
qed

lemma month_of_day:
  "month_of ls m d = (m', d') \<Longrightarrow> 0 \<le> d \<Longrightarrow> d < sum_list ls \<Longrightarrow>
    m \<le> m' \<and> m' < m + int (length ls) \<and> 0 \<le> d' \<and> d' < ls ! nat (m' - m) \<and> sum_list (take (nat (m' - m)) ls) + d' = d"
proof (induction ls m d rule: month_of.induct)
  case (2 l ls m d)
  show ?case
  proof (cases "d < l")
    case False
    then have h: "m + 1 \<le> m' \<and> m' < m + 1 + int (length ls) \<and> 0 \<le> d' \<and> d' < ls ! nat (m' - (m + 1)) \<and>
        sum_list (take (nat (m' - (m + 1))) ls) + d' = d - l"
      using 2 by simp
    moreover have "nat (m' - m) = Suc (nat (m' - (m + 1)))" using h by arith
    ultimately show ?thesis by simp
  qed (use 2 in simp)
qed simp

lemma year_months: "sum_list (month_days y) = year_days y"
  by (simp add: month_days_def year_days_def)

lemma localtime_r_spec: "timegm (localtime_r t) = t" "valid_tm (localtime_r t)"
proof -
  obtain y d where y: "year_of 1970 (t div 86400) = (y, d)" by fastforce
  obtain m d' where m: "month_of (month_days y) 0 d = (m, d')" by fastforce
  note yd = year_of_day [OF y]
  have md: "0 \<le> m" "m < 12" "0 \<le> d'" "d' < month_days y ! nat m" "sum_list (take (nat m) (month_days y)) + d' = d"
    using month_of_day [OF m] yd by (simp_all add: year_months) (simp add: month_days_def)
  have e: "days_before 1970 = 0" by (simp add: days_before_def)
  let ?r = "t mod 86400"
  have l: "localtime_r t = \<lparr>tm_sec = ?r mod 60, tm_min = ?r div 60 mod 60, tm_hour = ?r div 3600, tm_mday = d' + 1, tm_mon = m,
      tm_year = y - 1900, tm_wday = (4 + t div 86400) mod 7\<rparr>"
    by (simp add: localtime_r_def y m Let_def)
  have hms: "h * 3600 + m * 60 + k = n" if "h * 60 + m = q" "q * 60 + k = n" for h m k q n :: int
    using that by linarith
  have hours: "?r div 3600 = ?r div 60 div 60" by (simp add: zdiv_zmult2_eq [symmetric])
  have "?r div 3600 * 3600 + ?r div 60 mod 60 * 60 + ?r mod 60 = ?r"
    unfolding hours by (rule hms [OF div_mult_mod_eq div_mult_mod_eq])
  then have "timegm (localtime_r t) = (days_before y + d) * 86400 + ?r" using md(5) by (simp add: timegm_def l)
  then show "timegm (localtime_r t) = t" using yd e by simp
  have "0 \<le> ?r" "?r < 86400" by simp_all
  then show "valid_tm (localtime_r t)" using md by (simp add: valid_tm_def l) linarith
qed

section \<open>The date command\<close>

type_synonym date_line = "string \<times> string \<times> int \<times> int \<times> int \<times> int \<times> int"

definition days :: "string list" where
  "days = [''Sun'', ''Mon'', ''Tue'', ''Wed'', ''Thu'', ''Fri'', ''Sat'']"

definition months :: "string list" where
  "months = [''Jan'', ''Feb'', ''Mar'', ''Apr'', ''May'', ''Jun'', ''Jul'', ''Aug'', ''Sep'', ''Oct'', ''Nov'', ''Dec'']"

text \<open>The arguments of \<open>LOG_PRINT\<close>; an index outside the two arrays would be undefined behaviour.\<close>

definition date_line :: "tm \<Rightarrow> date_line option" where
  "date_line now =
     (if 0 \<le> tm_wday now \<and> nat (tm_wday now) < length days \<and> 0 \<le> tm_mon now \<and> nat (tm_mon now) < length months
      then Some (days ! nat (tm_wday now), months ! nat (tm_mon now), tm_mday now, tm_hour now, tm_min now, tm_sec now,
        1900 + tm_year now)
      else None)"

definition app_ethernet_set_system_time ::
  "(ETH_PTP_ConfigTypeDef \<Rightarrow> eth_regs \<Rightarrow> eth_regs) \<Rightarrow> (eth_regs \<Rightarrow> eth_regs) \<Rightarrow> int \<Rightarrow> eth_regs \<Rightarrow> eth_regs option" where
  "app_ethernet_set_system_time HAL_ETH_PTP_SetConfig hw sec r =
     (let r = ethernetif_ptp_init HAL_ETH_PTP_SetConfig r;
          ti = \<lparr>seconds = i32 (u32 sec), nanoseconds = 0\<rparr>
      in drive hw (SetTime ti) r)"

text \<open>
  \<open>parm\<close> is the number \<open>CLI_GET_INT_PARM\<close> reads from the first argument, if it is one.  \<open>None\<close> as the result: the
  driver's polling loop does not end, or the output is undefined.
\<close>

definition cmdDate ::
  "(ETH_PTP_ConfigTypeDef \<Rightarrow> eth_regs \<Rightarrow> eth_regs) \<Rightarrow> (eth_regs \<Rightarrow> eth_regs) \<Rightarrow> nat \<Rightarrow> int option \<Rightarrow> eth_regs \<Rightarrow>
    (cli_result \<times> date_line option \<times> eth_regs) option" where
  "cmdDate HAL_ETH_PTP_SetConfig hw argc parm r =
     (if argc < 2 then
        (let (ptptime, r) = ethernetif_ptp_get_time hw r;
             now = localtime_r (tv_sec ptptime)
         in map_option (\<lambda>l. (CLI_OK, Some l, r)) (date_line now))
      else
        (case parm of
           Some time \<Rightarrow> map_option (\<lambda>r. (CLI_OK, None, r)) (app_ethernet_set_system_time HAL_ETH_PTP_SetConfig hw time r)
         | None \<Rightarrow> Some (CLI_BAD_PARAM, None, r)))"

lemma date_line_valid: "valid_tm t \<Longrightarrow> date_line t = Some (days ! nat (tm_wday t), months ! nat (tm_mon t), tm_mday t,
    tm_hour t, tm_min t, tm_sec t, 1900 + tm_year t)"
  by (simp add: date_line_def valid_tm_def days_def months_def nat_less_iff)

text \<open>
  C31 (roundtrip).  \<open>date\<close> shows what \<open>date t\<close> has set: whatever the HAL does to the registers when the PTP unit is
  initialised, a time of the day and year \<open>t\<close> seconds after the epoch is printed, a valid one of the
  Gregorian calendar whose names are read inside their arrays.
\<close>

theorem date_shows_what_was_set:
  assumes "mac_loads hw" "0 \<le> t" "t < 2 ^ 31" "2 \<le> argc"
  shows "let now = localtime_r t in valid_tm now \<and> timegm now = t \<and>
    (\<exists>r'. cmdDate cfg hw argc (Some t) r = Some (CLI_OK, None, r') \<and> cmdDate cfg id 1 parm r' = Some (CLI_OK, Some (days ! nat (tm_wday now), months ! nat (tm_mon now), tm_mday now,
      tm_hour now, tm_min now, tm_sec now, 1900 + tm_year now), r'))"
proof -
  obtain r' where r': "ethernetif_ptp_set_time hw \<lparr>tv_sec = t, tv_nsec = 0\<rparr> (ethernetif_ptp_init cfg r) = Some r'"
    "PTPTSHR r' = word_of_int t"
    using set_time_loads [OF assms(1-3), of 0 "ethernetif_ptp_init cfg r"] by auto
  have "is_i32 t" "is_u32 t" using assms(2,3) by (simp_all add: c_range)
  then have s: "cmdDate cfg hw argc (Some t) r = Some (CLI_OK, None, r')"
    using assms(4) r'(1) by (simp add: cmdDate_def app_ethernet_set_system_time_def drive_def)
  have "sint (word_of_int t :: 32 word) = t"
    using assms(2,3) sint_small [of "word_of_int t"] uint_word [of t] by simp
  then have "cmdDate cfg id 1 parm r' = map_option (\<lambda>l. (CLI_OK, Some l, r')) (date_line (localtime_r t))"
    by (simp add: cmdDate_def ethernetif_ptp_get_time_def r'(2))
  then show ?thesis
    using s localtime_r_spec [of t] date_line_valid [of "localtime_r t"] by (auto simp: Let_def)
qed

theorem date_shows_what_was_set_witness:
  "\<exists>r'. cmdDate (\<lambda>_ r. r) swift_mac 2 (Some 1709210096) idle_regs = Some (CLI_OK, None, r') \<and>
    cmdDate (\<lambda>_ r. r) id 1 None r' = Some (CLI_OK, Some (''Thu'', ''Feb'', 29, 12, 34, 56, 2024), r')"
proof -
  have "localtime_r 1709210096 = \<lparr>tm_sec = 56, tm_min = 34, tm_hour = 12, tm_mday = 29, tm_mon = 1, tm_year = 124, tm_wday = 4\<rparr>"
    by (simp add: localtime_r_def year_of.simps year_days_def leap_def month_days_def)
  then show ?thesis
    using date_shows_what_was_set [OF swift_mac_ok, of 1709210096 2 "\<lambda>_ r. r" idle_regs None]
    by (simp add: Let_def days_def months_def)
qed

section \<open>The daemon's statistics\<close>

text \<open>The lines \<open>ptpd_displayStats\<close> prints, as the arguments of its \<open>LOG_PRINT\<close>s.\<close>

datatype stat_line =
    Uid "octet list"
  | State string
  | PathDelay int
  | PathDelayUnknown
  | OffsetSec int
  | OffsetNsec int
  | Drift char int int

definition state_name :: "ptp_state \<Rightarrow> string" where
  "state_name s =
     (case s of
        PTP_INITIALIZING \<Rightarrow> ''init''
      | PTP_FAULTY \<Rightarrow> ''faulty''
      | PTP_LISTENING \<Rightarrow> ''listening''
      | PTP_PASSIVE \<Rightarrow> ''passive''
      | PTP_UNCALIBRATED \<Rightarrow> ''uncalibrated''
      | PTP_SLAVE \<Rightarrow> ''slave''
      | PTP_PRE_MASTER \<Rightarrow> ''pre master''
      | PTP_MASTER \<Rightarrow> ''master''
      | PTP_DISABLED \<Rightarrow> ''disabled'')"

definition ptpd_displayStats :: "PtpClock \<Rightarrow> stat_line list" where
  "ptpd_displayStats c =
     (let sign = CHR '' '';
          sign = (if observedDrift c > 0 then CHR ''+'' else sign);
          sign = (if observedDrift c < 0 then CHR ''-'' else sign)
      in [Uid (clockIdentity (parentPortIdentity (parentDS c))),
          State (state_name (portState (portDS c))),
          (case delayMechanism (portDS c) of
             E2E \<Rightarrow> PathDelay (nanoseconds (meanPathDelay (currentDS c)))
           | P2P \<Rightarrow> PathDelay (nanoseconds (peerMeanPathDelay (portDS c)))
           | DELAY_DISABLED \<Rightarrow> PathDelayUnknown),
          (if seconds (offsetFromMaster (currentDS c)) \<noteq> 0 then OffsetSec (seconds (offsetFromMaster (currentDS c)))
           else OffsetNsec (nanoseconds (offsetFromMaster (currentDS c)))),
          Drift sign \<bar>observedDrift c sdiv 1000\<bar> \<bar>observedDrift c smod 1000\<bar>])"

text \<open>The drift is printed exactly, in parts per million with three digits, and its sign is right even below 1 ppm.\<close>

lemma abs_signed_division: "\<bar>d sdiv 1000\<bar> = \<bar>d\<bar> div 1000" "\<bar>d smod 1000\<bar> = \<bar>d\<bar> mod 1000" for d :: int
  by (simp_all add: signed_divide_int_def signed_modulo_int_def abs_mult sgn_if)

lemma drift_line_exact:
  assumes "Drift sign ppm ppb \<in> set (ptpd_displayStats c)"
  shows "0 \<le> ppm" "0 \<le> ppb" "ppb < 1000"
    "(if sign = CHR ''-'' then - (1000 * ppm + ppb) else 1000 * ppm + ppb) = observedDrift c"
proof -
  let ?d = "observedDrift c"
  have l: "ppm = \<bar>?d\<bar> div 1000" "ppb = \<bar>?d\<bar> mod 1000" "sign = CHR ''-'' \<longleftrightarrow> ?d < 0"
    using assms by (auto simp: ptpd_displayStats_def Let_def abs_signed_division split: delay_mechanism.splits if_splits)
  show "0 \<le> ppm" "0 \<le> ppb" "ppb < 1000" using l by (simp_all add: pos_imp_zdiv_nonneg_iff)
  have "1000 * ppm + ppb = \<bar>?d\<bar>" using l by simp
  then show "(if sign = CHR ''-'' then - (1000 * ppm + ppb) else 1000 * ppm + ppb) = ?d" using l(3) by auto
qed

section \<open>Tasks\<close>

text \<open>
  What the commands see of the RTOS: the PTP tasks that exist, the DHCP server tasks, the handles kept of them (zero
  before the first start), and whether the console's own task is alive.  \<open>osThreadTerminate\<close> is \<open>vTaskDelete\<close>:
  of the null handle it deletes the caller, of a task deleted before it frees memory that is free (\<open>stale_delete\<close>).
\<close>

record shell =
  ptp_tasks :: "nat list"
  ptpTaskHandle :: "nat option"           \<comment> \<open>of \<open>app.c\<close>\<close>
  PTPTaskHandle :: "nat option"           \<comment> \<open>of \<open>ptpd.c\<close>\<close>
  ptp_mboxes :: nat                       \<comment> \<open>mailboxes created for \<open>ptp_alert_queue\<close>\<close>
  dhcp_tasks :: "nat list"
  dhcps_threadid :: "nat option"
  next_task :: nat
  console_alive :: bool
  stale_delete :: bool
  mac :: eth_regs
  printed :: "stat_line list"

definition osThreadTerminate :: "nat option \<Rightarrow> shell \<Rightarrow> shell" where
  "osThreadTerminate h s =
     (case h of
        None \<Rightarrow> s\<lparr>console_alive := False\<rparr>
      | Some t \<Rightarrow> if t \<in> set (ptp_tasks s) then s\<lparr>ptp_tasks := removeAll t (ptp_tasks s)\<rparr> else s\<lparr>stale_delete := True\<rparr>)"

text \<open>\<open>mbox\<close> and \<open>thread\<close>: the mailbox and the task could be created.  A failure of the mailbox is only logged.\<close>

definition ptpd_init :: "bool \<Rightarrow> bool \<Rightarrow> shell \<Rightarrow> nat option \<times> shell" where
  "ptpd_init mbox thread s =
     (let s = (if mbox then s\<lparr>ptp_mboxes := Suc (ptp_mboxes s)\<rparr> else s);
          s = (if thread then s\<lparr>PTPTaskHandle := Some (next_task s), ptp_tasks := next_task s # ptp_tasks s, next_task := Suc (next_task s)\<rparr>
               else s\<lparr>PTPTaskHandle := None\<rparr>)
      in (PTPTaskHandle s, s))"

definition ptpd_stats :: "PtpClock \<Rightarrow> shell \<Rightarrow> shell" where
  "ptpd_stats ptpClock s = s\<lparr>printed := printed s @ ptpd_displayStats ptpClock\<rparr>"

text \<open>\<open>is_parm\<close>: what \<open>CLI_IS_PARM (1, \<dots>)\<close> answers.  No result: the command's own task was deleted.\<close>

definition cmdPtpd :: "(string \<Rightarrow> bool) \<Rightarrow> bool \<Rightarrow> bool \<Rightarrow> PtpClock \<Rightarrow> shell \<Rightarrow> cli_result option \<times> shell" where
  "cmdPtpd is_parm mbox thread ptpClock s =
     (let s = (if is_parm ''init'' then s\<lparr>mac := ethernetif_ptp_set_pps_output 0 (mac s)\<rparr> else s);
          s = (if is_parm ''start'' then
                 let (h, s) = ptpd_init mbox thread s; s = s\<lparr>ptpTaskHandle := h\<rparr>
                 in s\<lparr>mac := ethernetif_ptp_set_pps_output 0 (mac s)\<rparr>
               else s);
          s = (if is_parm ''stop'' then osThreadTerminate (ptpTaskHandle s) s else s)
      in if \<not> console_alive s then (None, s)
         else (Some CLI_OK, if is_parm ''stat'' then ptpd_stats ptpClock s else s))"

definition dhcp_server_start :: "bool \<Rightarrow> shell \<Rightarrow> shell" where
  "dhcp_server_start thread s =
     (if thread then s\<lparr>dhcps_threadid := Some (next_task s), dhcp_tasks := next_task s # dhcp_tasks s, next_task := Suc (next_task s)\<rparr>
      else s\<lparr>dhcps_threadid := None\<rparr>)"

definition dhcp_server_stop :: "shell \<Rightarrow> shell" where
  "dhcp_server_stop s = s"

text \<open>\<open>argv[1]\<close> is read unchecked: without a parameter it is the null pointer, and \<open>strcmp\<close> faults.\<close>

definition cmdDhcps :: "bool \<Rightarrow> string list \<Rightarrow> shell \<Rightarrow> (cli_result \<times> shell) option" where
  "cmdDhcps thread argv s =
     (if length argv < 2 then None
      else
      let s = (if argv ! 1 = ''start'' then dhcp_server_start thread s else s);
          s = (if argv ! 1 = ''stop'' then dhcp_server_stop s else s)
      in Some (CLI_OK, s))"

definition cmdPing :: "(string \<Rightarrow> bool) \<Rightarrow> bool \<Rightarrow> (nat \<Rightarrow> pbuf list) \<Rightarrow> string list \<Rightarrow> ping_t \<Rightarrow> cli_result \<times> ping_t" where
  "cmdPing ipaddr_aton pcb net argv s =
     (if length argv < 2 then (CLI_OK, s)
      else if \<not> ipaddr_aton (argv ! 1) then (CLI_BAD_PARAM, s)
      else (CLI_OK, snd (do_ping pcb net 4 s)))"

subsection \<open>Commands in a row\<close>

inductive shell_step :: "shell \<Rightarrow> shell \<Rightarrow> bool" where
  shell_ptpd: "console_alive s \<Longrightarrow> shell_step s (snd (cmdPtpd is_parm mbox thread c s))"
| shell_dhcps: "console_alive s \<Longrightarrow> cmdDhcps thread argv s = Some (r, s') \<Longrightarrow> shell_step s s'"

definition shell_init :: "eth_regs \<Rightarrow> shell" where
  "shell_init r = \<lparr>ptp_tasks = [], ptpTaskHandle = None, PTPTaskHandle = None, ptp_mboxes = 0, dhcp_tasks = [],
     dhcps_threadid = None, next_task = 1, console_alive = True, stale_delete = False, mac = r, printed = []\<rparr>"

definition tasks_ok :: "shell \<Rightarrow> bool" where
  "tasks_ok s \<longleftrightarrow> (\<forall>t \<in> set (ptp_tasks s). t < next_task s) \<and> (\<forall>t. ptpTaskHandle s = Some t \<longrightarrow> t < next_task s)"

lemmas shell_defs = cmdPtpd_def ptpd_init_def osThreadTerminate_def ptpd_stats_def cmdDhcps_def dhcp_server_start_def
  dhcp_server_stop_def Let_def

lemma shell_step_ok: "shell_step s s' \<Longrightarrow> tasks_ok s \<Longrightarrow> tasks_ok s'"
  by (induction rule: shell_step.induct) (auto simp: tasks_ok_def shell_defs less_SucI split: option.splits if_splits)

text \<open>A task no handle points at is beyond the reach of every command.\<close>

definition orphaned :: "nat \<Rightarrow> shell \<Rightarrow> bool" where
  "orphaned t s \<longleftrightarrow> tasks_ok s \<and> t \<in> set (ptp_tasks s) \<and> ptpTaskHandle s \<noteq> Some t"

lemma orphaned_step: "shell_step s s' \<Longrightarrow> orphaned t s \<Longrightarrow> orphaned t s'"
proof -
  assume s: "shell_step s s'" "orphaned t s"
  have "t \<in> set (ptp_tasks s') \<and> ptpTaskHandle s' \<noteq> Some t"
    using s(1)
  proof cases
    case (shell_ptpd is_parm mbox thread c)
    have "tasks_ok s" "t \<in> set (ptp_tasks s)" "ptpTaskHandle s \<noteq> Some t" using s(2) by (simp_all add: orphaned_def)
    then have "t \<noteq> next_task s" by (auto simp: tasks_ok_def)
    with \<open>t \<in> set (ptp_tasks s)\<close> \<open>ptpTaskHandle s \<noteq> Some t\<close> show ?thesis
      unfolding shell_ptpd(1)
      by (cases "is_parm ''start''"; cases "is_parm ''stop''"; cases thread; cases "ptpTaskHandle s")
        (simp_all add: shell_defs)
  next
    case (shell_dhcps thread argv r)
    then show ?thesis using s(2) by (auto simp: orphaned_def shell_defs split: if_splits)
  qed
  with s shell_step_ok show ?thesis by (auto simp: orphaned_def)
qed

text \<open>
  C30 (safety).  A daemon started over another cannot be stopped: \<open>ptpd start\<close> does not look whether a daemon runs, so
  a second one makes the handle of the first forgotten, and the first task exists after any further commands,
  working on the same static data; the \<open>stop\<close> that follows deletes the second only.
\<close>

theorem second_start_orphans_first:
  assumes "shell_step\<^sup>*\<^sup>* (shell_init r) s" "ptpTaskHandle s = Some t" "t \<in> set (ptp_tasks s)" "console_alive s"
    and "v1 = snd (cmdPtpd (\<lambda>p. p = ''start'') mbox thread c s)" "shell_step\<^sup>*\<^sup>* v1 v2"
  shows "t \<in> set (ptp_tasks v2) \<and> (thread \<longrightarrow> (let v3 = snd (cmdPtpd (\<lambda>p. p = ''stop'') mbox' thread' c' v1) in
    set (ptp_tasks v1) - set (ptp_tasks v3) = {the (ptpTaskHandle v1)} \<and> the (ptpTaskHandle v1) \<noteq> t))"
proof -
  have ok: "tasks_ok s"
    using assms(1)
  proof (induction rule: rtranclp_induct)
    case (step y z)
    then show ?case using shell_step_ok by blast
  qed (simp add: tasks_ok_def shell_init_def)
  have v1: "ptp_tasks v1 = (if thread then [next_task s] else []) @ ptp_tasks s"
    "ptpTaskHandle v1 = (if thread then Some (next_task s) else None)" "console_alive v1"
    using assms(4) by (simp_all add: assms(5) shell_defs)
  have "shell_step s v1" unfolding assms(5) by (rule shell_ptpd [OF assms(4)])
  then have o: "orphaned t v1" using shell_step_ok ok assms(2,3) v1 by (auto simp: orphaned_def tasks_ok_def)
  have "orphaned t v2" using assms(6) o by (induction rule: rtranclp_induct) (auto intro: orphaned_step)
  moreover have "set (ptp_tasks v1) - set (ptp_tasks (snd (cmdPtpd (\<lambda>p. p = ''stop'') mbox' thread' c' v1))) = {next_task s} \<and> next_task s \<noteq> t"
    if "thread"
    using that v1 ok assms(3) by (auto simp: tasks_ok_def shell_defs)
  ultimately show ?thesis using v1(2) by (simp add: orphaned_def Let_def)
qed

theorem second_start_orphans_first_witness:
  "let start = (\<lambda>s. snd (cmdPtpd (\<lambda>p. p = ''start'') True True zero_clock s)); stop = (\<lambda>s. snd (cmdPtpd (\<lambda>p. p = ''stop'') True True zero_clock s))
   in 1 \<in> set (ptp_tasks (stop (stop (start (start (shell_init idle_regs))))))"
proof -
  let ?start = "\<lambda>s. snd (cmdPtpd (\<lambda>p. p = ''start'') True True zero_clock s)" and ?stop = "\<lambda>s. snd (cmdPtpd (\<lambda>p. p = ''stop'') True True zero_clock s)"
  let ?s = "?start (shell_init idle_regs)"
  have s: "ptpTaskHandle ?s = Some 1" "1 \<in> set (ptp_tasks ?s)" "console_alive ?s"
    by (simp_all add: shell_defs shell_init_def)
  have "shell_step\<^sup>*\<^sup>* (shell_init idle_regs) ?s"
    by (rule r_into_rtranclp, rule shell_ptpd) (simp add: shell_init_def)
  moreover have a: "console_alive (?start ?s)" "console_alive (?stop (?start ?s))"
    by (simp_all add: shell_defs shell_init_def)
  have "shell_step\<^sup>*\<^sup>* (?start ?s) (?stop (?stop (?start ?s)))"
    by (rule converse_rtranclp_into_rtranclp [OF shell_ptpd [OF a(1)] r_into_rtranclp [where r = shell_step, OF shell_ptpd [OF a(2)]]])
  ultimately show ?thesis
    using second_start_orphans_first [OF _ s refl] by (simp add: Let_def)
qed

text \<open>Before the first start, \<open>stop\<close> deletes the console's own task; after a stop it deletes a task that is gone.\<close>

lemma stop_without_start:
  "fst (cmdPtpd (\<lambda>p. p = ''stop'') mbox thread c (shell_init r)) = None"
  "ptpTaskHandle s = Some t \<Longrightarrow>
    stale_delete (snd (cmdPtpd (\<lambda>p. p = ''stop'') mbox thread c (snd (cmdPtpd (\<lambda>p. p = ''stop'') mbox' thread' c' s))))"
  by (simp_all add: shell_defs shell_init_def)

end
