(* ===== verification/Spec2Isabelle.thy ===== *)
theory Spec2Isabelle
  imports Rounds TxStamp Console Bringup Calibrate Typing Commands
begin

text \<open>
  A verification development of disco-ptp: a PTP (IEEE 1588-2008) ordinary clock for the
  STM32F769I Discovery board, built from the daemon \<open>ptpd\<close> (\<open>src/Middlewares/ptpd-v2.0.0/src\<close>), the drivers of
  the board (\<open>src/target/stm32f769i-discovery\<close>) and a small network application (\<open>src/app\<close>).

  \<^bold>\<open>The program.\<close>  lwIP's receive callbacks put packets on two ring queues and wake the daemon's thread
  (\<open>dep/net.c\<close>); RTOS timers set flags (\<open>dep/timer.c\<close>).  The thread (\<open>ptpd.c\<close>) waits for a wake-up
  and calls \<open>doState\<close> until both queues are empty.  \<open>doState\<close> (\<open>protocol.c\<close>) lets the best master clock algorithm
  (\<open>bmc.c\<close>) recommend a state, enters it through \<open>toState\<close>, handles one received message and issues what
  its timers ask for; messages are encoded and decoded in \<open>dep/msg.c\<close>, the measured times go through
  \<open>dep/servo.c\<close>, which steers the hardware clock by \<open>dep/sys_time.c\<close> and the driver \<open>ethernetif.c\<close>.
  The same driver builds packets from receive buffers, sends them and sets up the link through the
  transceiver's driver \<open>lan8742.c\<close>.  The application runs a DHCP client and server, a ping command, a
  web server and a console on a UART.

  \<^bold>\<open>Theories.\<close>
  \<^item> \<open>Prelude\<close>: C integers as \<open>int\<close> with the conversions \<open>u8\<close> to \<open>i64\<close> written out where a value can
    leave its type, flag macros, bytes.  \<open>Datatypes\<close>: the structs of \<open>datatypes.h\<close> and
    \<open>datatypes_dep.h\<close> as records and the enumerations as datatypes or constants.
    \<open>World\<close>: all state of the daemon (\<open>PtpClock\<close>, queues, timers, buffers) in one record,
    with the outcomes of the environment (\<open>env\<close>: clock readings, success of lwIP calls, random
    numbers) and a log of its outputs (datagrams, clock commands).
  \<^item> \<open>Arith\<close>, \<open>Buffer\<close>, \<open>Msg\<close>, \<open>Net\<close>, \<open>Timer\<close>, \<open>SysTime\<close>, \<open>Servo\<close>, \<open>Bmc\<close>, \<open>Protocol\<close>: one theory per source file
    of the daemon (\<open>Buffer\<close> holds the loads and stores through casted pointers that \<open>msg.c\<close> makes,
    \<open>Protocol\<close> also \<open>startup.c\<close> and \<open>ptpd.c\<close>), one definition per function, under its C name.  A long
    function is split at its own branches: \<open>doState\<close> into \<open>doState_decide\<close>, \<open>doState_recommended\<close>
    and \<open>doState_act\<close>, \<open>toState\<close> into \<open>leaveState\<close> and \<open>enterState\<close>, \<open>handle\<close> into \<open>handle_poll\<close>, \<open>handle_message\<close>
    and \<open>dispatch\<close>.
  \<^item> \<open>PortMachine\<close> and \<open>ProtocolInv\<close>: the abstract port, a step relation on port state, running timers
    and recommendation, and the simulation of every function of \<open>protocol.c\<close> by it.
  \<^item> \<open>System\<close>: \<open>boot\<close>, the events that interleave with \<open>doState\<close> (a packet on either queue, a timer
    tick) and the worlds reachable by them.
  \<^item> \<open>Engine\<close> and \<open>Invariants\<close>: the locales \<open>handler_relation\<close> and \<open>engine_relation\<close> state a relation between
    the worlds before and after an operation once for the primitive operations and lift it to \<open>doState\<close>; they are
    interpreted for what may happen to the phase of the start-up, to the servo, the foreign master
    table and the packet buffers.  \<open>Rounds\<close>: the inner loop of the thread, with a measure of
    the work queued and a fifth interpretation for the receipt timer.  \<open>Opened\<close>: a sixth, that a working engine
    opens no control block and keeps those and the addresses \<open>netInit\<close> gave it.
  \<^item> \<open>Typing\<close>: the types of the C structs as a predicate on the daemon's data, and every operation of the
    daemon keeping it: the body of \<open>PtpClock\<close>, the foreign master table, the network path and its queues.  \<open>SyncLoop\<close>, \<open>Exchange\<close> and \<open>DelayExchange\<close>: the composition of daemons.  \<open>SyncLoop\<close> runs the
    servo through a two-way exchange on a symmetric path and closes its loop over a clock that drifts; \<open>Exchange\<close> and \<open>DelayExchange\<close> follow the messages of one daemon through
    the wire and the queues into another, and back; \<open>Acquire\<close> follows an Announce into the choice of a master, \<open>Calibrate\<close> a Sync into the state SLAVE.
  \<^item> \<open>Restart\<close>: the UDP ports of the daemon and its second start, another interpretation of the engine.  \<open>Commands\<close>: the
    console's commands of \<open>app.c\<close>, with the calendar of \<open>localtime_r\<close>, \<open>ptpd_init\<close> and the statistics.
  \<^item> \<open>Ethif\<close>, \<open>EthFrames\<close>, \<open>TxStamp\<close>: \<open>ethernetif.c\<close>; the PTP clock on the registers of the MAC, receive chains,
    buffer pool and transmit loop, and transmit time stamps.  \<open>Lan8742\<close>: \<open>lan8742.c\<close>
    over a device given by its register functions.  \<open>Bringup\<close>: the initialisation of the interface, from the transceiver
    (\<open>low_level_init_phy\<close>) over the flags lwIP's \<open>netif.c\<close> keeps to \<open>APP_Setup\<close> of \<open>app.c\<close>, the DHCP client and server that run
    afterwards, the driver's input thread and the RMII watchdog.
  \<^item> \<open>DhcpServer\<close> (\<open>dhcp_server.c\<close>), \<open>Uart\<close> (\<open>stm32f7xx_uart.c\<close>), \<open>Console\<close> (\<open>syscalls.c\<close>, character
    input and output of \<open>app.c\<close>), \<open>AppNet\<close> (\<open>app_ethernet.c\<close>, \<open>ping.c\<close>, \<open>httpserver-socket.c\<close>).

  \<^bold>\<open>What is shown.\<close>  In this theory, of the daemon as a whole: it refines the abstract port; port state and
  timers satisfy their invariants in every reachable world; the loop of the thread ends, and no
  packet buffer is lost or freed twice; the clock rate commanded stays in the range the hardware can
  take; the foreign master table is never indexed outside its bounds, in a faulty port neither; a port is initialised once; and a slave that
  hears no announce takes over as master.  In \<open>Typing\<close>: no reachable world holds a value its C type could not, and
  the outgoing buffer keeps its header (which is what the exchanges below ask of their two daemons).  Of two daemons: a listening port
  follows a better clock it hears within two calls of \<open>doState\<close>, and one that calibrates becomes a slave within three; a two-step Sync
  and a delay measurement, from the datagrams one sends to the data sets of the other, byte order, chained buffers, sequence
  numbers and latencies included; and the servo, on a clock that drifts, locks in two rounds.  In the other
  theories: exactness of the time arithmetic and of delay and offset on a symmetric path (with the clock steered in between), the PI controller behind \<open>updateClock\<close> with its
  single precision rounding, round trips of the codec, the queue as a FIFO (locale \<open>bounded_fifo\<close>),
  data set comparison as a lexicographic order (in which the variance is signed), the registers of the clock, receive chains, the wake-up of the input thread from a pool run dry, DHCP
  options, link states, the UART under interrupts.  A number of theorems describe what the code does where that is
  not what it means to do: the selection of the worst foreign master, variances compared as signed numbers,
  the response dropped when a sequence number wraps, a fault that resumes without initialisation, a daemon started again that
  never reaches a PTP port, one started twice that cannot be stopped,
  an interface that is never looked at again after it was set up, a DHCP server without an address,
  send failures nobody sees, stale transmit time stamps, the DHCP option search that does not end.

  \<^bold>\<open>Bounds and fuel.\<close>  \<open>ptpd_rounds\<close> takes fuel: 8 rounds are enough when nothing arrives meanwhile, because each
  queue holds 3 packets, every round with a packet queued takes one or more off, and an expired
  timer costs at most a round (\<open>rounds_end\<close>).  \<open>netQEmpty\<close> is a \<open>while\<close> with a proved bound.  The transmit
  loop, the option search of the DHCP server, the driver's two threads and the polling of a register flag need not end: they return
  \<open>None\<close> then, and the theorems say when they return.  Queue indices are masked as in the code
  (\<open>PBUF_QUEUE_MASK\<close>), so a queue of 4 cells holds 3 packets.

  \<^bold>\<open>Parameters.\<close>  Code outside the repository (the HAL, the empty submodules) and lwIP, FreeRTOS and the C
  library are arguments of the definitions or fields of \<open>env\<close>; a hypothesis on them is written in the theorem
  and its witness runs it with a concrete function.  Debug output is left out; its macros print, and
  one of them reads the clock.  RTOS timers are a running or stopped period each: commands to them take effect at
  once and do not fail, a callback is one step between two calls of \<open>doState\<close>, and after a second start (\<open>Restart\<close>)
  the timers of the first, which still run without a handle, are left out.

  \<^bold>\<open>Not modelled.\<close>  lwIP (but for the interface functions in \<open>Bringup\<close>) and FreeRTOS, third-party code vendored under \<open>src/Middlewares\<close>; the board support, CMSIS, LCD,
  JPEG and font files, which only touch hardware; \<open>fsdata_custom.c\<close>, a generated table; the interpreter of the command
  line, an empty submodule, whose answers are parameters, and the commands that print registers and reset the chip; set-up of clocks,
  memory protection and pins in \<open>main.c\<close>, \<open>HAL_ETH_MspInit\<close> and \<open>HAL_UART_MspInit\<close>; the UART configurations the Makefile does not build; \<open>stateString\<close>, which only prints; \<open>sys_now\<close>; the constant answers of the other system calls; the bodies
  of management and signaling messages, which the code neither reads nor writes.
\<close>

section \<open>The port as a whole\<close>

text \<open>
  C1 (refinement).  One \<open>doState\<close> of the daemon, from any state, with any queued message, timers,
  clock and network outcomes, is a sequence of transitions of the abstract port of
  \<open>PortMachine\<close>: the port changes state, starts and stops timers and takes recommendations
  only as that machine allows.
\<close>

theorem doState_refines_port_machine:
  assumes "timers_good w"
  shows "port_step\<^sup>*\<^sup>* (abs_of w) (abs_of (doState w)) \<and> timers_good (doState w)"
  using moves_doState [of w] assms by (simp add: moves_def)

theorem doState_refines_port_machine_witness:
  "port_step\<^sup>*\<^sup>* (abs_of (boot default_opts calm_env)) (abs_of (doState (boot default_opts calm_env)))"
  using doState_refines_port_machine [OF boot_abs(1)] by blast

text \<open>
  C2 (invariant).  In every reachable world, whatever packets and timer ticks arrive: the port is never
  in PRE_MASTER (the code enters MASTER for it) nor DISABLED; a slave-only clock is never MASTER or
  PASSIVE; a clock of class below 128 is never UNCALIBRATED or SLAVE, and only such a clock is
  ever PASSIVE.
\<close>

theorem reachable_port_state:
  assumes "reachable opts e w"
  shows "port_state w \<notin> {PTP_PRE_MASTER, PTP_DISABLED} \<and>
    (slave_only w \<longrightarrow> port_state w \<notin> {PTP_MASTER, PTP_PASSIVE}) \<and>
    (clockClass (d_clockQuality (defaultDS (ptp w))) < 128 \<longrightarrow> port_state w \<notin> {PTP_UNCALIBRATED, PTP_SLAVE}) \<and>
    (\<not> clockClass (d_clockQuality (defaultDS (ptp w))) < 128 \<longrightarrow> port_state w \<noteq> PTP_PASSIVE)"
  using reachable_facts [OF assms] by blast

theorem reachable_port_state_witness:
  "port_state (doState (doState (boot default_opts calm_env))) \<notin> {PTP_PRE_MASTER, PTP_DISABLED}"
  using reachable_port_state [OF reachable_doState [OF reachable_doState [OF reachable_boot]]] by blast

text \<open>
  C3 (invariant).  In every reachable world the RTOS timers that run are exactly those the port's state
  and delay mechanism call for; in particular the announce receipt timeout runs whenever the port
  listens, calibrates, is a slave or passive, and no expired flag is left by a stopped timer.
\<close>

theorem reachable_timers:
  assumes "reachable opts e w"
  shows "{k. k < TIMER_ARRAY_SIZE \<and> running k w} =
      timers_of (port_state w) (delayMechanism (portDS (ptp w))) \<and>
    (port_state w \<in> {PTP_LISTENING, PTP_UNCALIBRATED, PTP_SLAVE, PTP_PASSIVE} \<longrightarrow>
       running ANNOUNCE_RECEIPT_TIMER w) \<and>
    (k < TIMER_ARRAY_SIZE \<and> expired k w \<longrightarrow> running k w)"
proof -
  have run: "{k. k < TIMER_ARRAY_SIZE \<and> running k w} =
      timers_of (port_state w) (delayMechanism (portDS (ptp w)))"
    by (rule reachable_facts(5) [OF assms])
  have "ANNOUNCE_RECEIPT_TIMER \<in> {k. k < TIMER_ARRAY_SIZE \<and> running k w}"
    if "port_state w \<in> {PTP_LISTENING, PTP_UNCALIBRATED, PTP_SLAVE, PTP_PASSIVE}"
    unfolding run using that by (auto simp: timers_of_def starts_def)
  with run reachable_facts(6) [OF assms] show ?thesis by blast
qed

theorem reachable_timers_witness:
  "{k. k < TIMER_ARRAY_SIZE \<and> running k (doState (boot default_opts calm_env))} =
     timers_of (port_state (doState (boot default_opts calm_env)))
       (delayMechanism (portDS (ptp (doState (boot default_opts calm_env)))))"
  using reachable_timers [OF reachable_doState [OF reachable_boot]] by blast

section \<open>The running daemon\<close>

text \<open>
  C4 (liveness).  In every reachable world the inner loop of \<open>ptpd_thread\<close>, left alone, ends within eight
  rounds with both packet queues empty: three packets fit each queue, every round takes one off
  or clears an expired announce receipt timer, and no round sets that timer's flag again.
\<close>

theorem queue_loop_ends:
  assumes "reachable opts e w" "0 < r_maxForeignRecords opts" "r_maxForeignRecords opts \<le> 32767"
  shows "\<exists>w'. ptpd_rounds 8 w = Some w' \<and> netSelect w' = 0 \<and> reachable opts e w'"
proof -
  have "\<exists>w'. ptpd_rounds 8 w = Some w' \<and> netSelect w' = 0"
  proof (cases "booting opts w")
    case True
    then show ?thesis
      using rounds_booting [OF True, of 7] assms(2,3) by (simp add: good_opts_def numeral_eq_Suc)
  next
    case False
    then have s: "sound opts w" using reachable_invariant [OF assms(1)] assms(2,3) by (simp add: good_opts_def)
    then have "work w < 8" using work_le [of w] by (simp add: sound_def safe_def)
    then show ?thesis using rounds_end [OF s] reachable_inv [OF assms(1)] by blast
  qed
  then show ?thesis using rounds_reachable [OF assms(1)] by blast
qed

theorem queue_loop_ends_witness:
  "\<exists>w'. ptpd_rounds 8 (doState (boot default_opts calm_env)) = Some w' \<and> netSelect w' = 0"
  using queue_loop_ends [OF reachable_doState [OF reachable_boot [of default_opts calm_env]]]
  by (auto simp: default_opts_def DEFAULT_MAX_FOREIGN_RECORDS_def)

text \<open>
  C5 (safety).  No packet buffer is leaked, duplicated or freed twice: at every point of every run the
  buffers lwIP has handed over are exactly those handed back to it and those that wait in the
  two queues, whatever the messages, drops, faults and state changes in between.
\<close>

theorem every_buffer_accounted_for:
  assumes "ptp_run opts e ps w" "0 < r_maxForeignRecords opts" "r_maxForeignRecords opts \<le> 32767"
  shows "mset (freed w) + mset (q_contents (eventQ (netPath (ptp w)))) +
    mset (q_contents (generalQ (netPath (ptp w)))) = mset ps"
  using run_invariant [OF assms(1)] assms(2,3) by (simp add: owned_def good_opts_def)

text \<open>A packet that reaches the listening daemon of a calm network.\<close>

theorem every_buffer_accounted_for_witness:
  "let p = \<lparr>pbuf_id = 7, tot_len = 2, chain = [[1, 2]]\<rparr>;
       w = doState (netRecvEventCallback p (doState (boot default_opts calm_env)))
   in mset (freed w) + mset (q_contents (eventQ (netPath (ptp w)))) +
      mset (q_contents (generalQ (netPath (ptp w)))) = {# p #}"
proof -
  let ?p = "\<lparr>pbuf_id = 7, tot_len = 2, chain = [[1, 2]]\<rparr> :: pbuf"
  have "ptp_run default_opts calm_env [] (doState (boot default_opts calm_env))"
    by (intro run_state run_boot)
  from run_event [OF this calm_delivers, of ?p]
  have "ptp_run default_opts calm_env [?p] (doState (netRecvEventCallback ?p (doState (boot default_opts calm_env))))"
    by (intro run_state) (simp add: wf_pbuf_def)
  from every_buffer_accounted_for [OF this] show ?thesis
    by (simp add: default_opts_def DEFAULT_MAX_FOREIGN_RECORDS_def Let_def)
qed

text \<open>
  C7 (safety).  Daemon and driver together: on a MAC that clears its request bits, all clock commands a
  reachable daemon has given are carried out by the driver, none of its polling loops hangs, and
  the addend register, started at its base value, stays within 550000 of it, so the clock never
  runs more than 513 ppm off its nominal rate.
\<close>

theorem clock_rate_stays_bounded:
  assumes "reachable opts e w" "0 < r_maxForeignRecords opts" "r_maxForeignRecords opts \<le> 32767"
    and "mac_ready hw" "uint (PTPTSAR r) = ADJ_FREQ_BASE_ADDEND"
  shows "\<exists>r'. drive_all hw (clock_cmds w) r = Some r' \<and>
    \<bar>uint (PTPTSAR r') - ADJ_FREQ_BASE_ADDEND\<bar> \<le> 550000"
proof -
  have "list_all cmd_ok (clock_cmds w)"
    using reachable_invariant [OF assms(1)] assms(2,3)
    by (auto simp: good_opts_def booting_def sound_def safe_def cmds_ok_def)
  from drive_all_addend [OF assms(4) this, of r] assms(5) show ?thesis by (simp add: addend_ok_def)
qed

theorem clock_rate_stays_bounded_witness:
  "\<exists>r'. drive_all swift_mac (clock_cmds (doState (boot default_opts calm_env))) idle_regs = Some r' \<and>
    \<bar>uint (PTPTSAR r') - ADJ_FREQ_BASE_ADDEND\<bar> \<le> 550000"
  by (rule clock_rate_stays_bounded [OF reachable_doState [OF reachable_boot] _ _ swift_mac_ready])
    (simp_all add: default_opts_def DEFAULT_MAX_FOREIGN_RECORDS_def idle_regs_def ADJ_FREQ_BASE_ADDEND_def)

text \<open>
  C11 (invariant).  Once the network was opened, that is in every reachable world with a UDP control block, faulty
  ones included, the counters and indices of the foreign master table stay within its records, so every access of
  \<open>addForeign\<close> and \<open>bmc\<close> is inside the array, and until the table is full its records are filled without gaps: when
  \<open>doState\<close> begins, where \<open>bmc\<close> reads the table, after its decision, after the recommended state was entered, where the
  handlers begin, and when it has returned.
\<close>

theorem foreign_table_in_bounds:
  assumes "reachable opts e w" "0 < r_maxForeignRecords opts" "r_maxForeignRecords opts \<le> 32767"
    and "pcbs w \<noteq> []"
    and "u = on_clock (\<lambda>c. c\<lparr>messageActivity := False\<rparr>) w"
    and "v \<in> {w, u, doState_decide u, doState_recommended (doState_decide u), doState w}"
  shows "let fm = foreignMasterDS (ptp v); n = r_maxForeignRecords opts in
    int (length (fm_records fm)) = n \<and> fm_capacity fm = n \<and> 0 \<le> fm_count fm \<and> fm_count fm \<le> n \<and>
    0 \<le> fm_i fm \<and> fm_i fm < n \<and> 0 \<le> fm_best fm \<and> fm_best fm < n \<and>
    (fm_count fm < n \<longrightarrow> fm_i fm = fm_count fm)"
proof -
  have s: "sound opts w"
    using reachable_invariant [OF assms(1)] assms(2-4) by (auto simp: good_opts_def booting_def)
  have "keeps_table w u" unfolding assms(5) by (rule table.local_data) simp
  then have "keeps_table w v"
    using assms(6) table.working_step [of w] s table.trans [OF _ table.doState_decide]
      table.trans [OF table.trans [OF _ table.doState_decide] table.doState_recommended]
    by (auto simp: sound_def intro: table.refl)
  then show ?thesis
    using s by (auto simp: sound_def safe_def keeps_table_def table_ok_def fm_ok_def fm_dense_def Let_def)
qed

theorem foreign_table_in_bounds_witness:
  "fm_capacity (foreignMasterDS (ptp (doState (boot default_opts calm_env)))) = 5 \<and>
   fm_i (foreignMasterDS (ptp (doState (doState (boot default_opts calm_env))))) < 5"
  using foreign_table_in_bounds [OF reachable_doState [OF reachable_boot [of default_opts calm_env]]] calm_pcbs
  by (auto simp: default_opts_def DEFAULT_MAX_FOREIGN_RECORDS_def Let_def)

text \<open>
  C8 (safety).  The port initialises once: from a world in which it has left its initial and its faulty state
  no sequence of packets, timers and steps leads back to INITIALIZING, so \<open>doInit\<close> never opens
  the network a second time.
\<close>

theorem port_initialises_once:
  assumes "reachable opts e w" "0 < r_maxForeignRecords opts" "r_maxForeignRecords opts \<le> 32767"
    and "port_state w \<notin> {PTP_INITIALIZING, PTP_FAULTY}" "ptp_step\<^sup>*\<^sup>* w w'"
  shows "port_state w' \<in> {PTP_LISTENING, PTP_MASTER, PTP_PASSIVE, PTP_UNCALIBRATED, PTP_SLAVE, PTP_FAULTY}"
proof -
  have "working w"
    using reachable_invariant [OF assms(1)] assms(2-4) by (auto simp: good_opts_def booting_def sound_def)
  with assms(5) have "working w'"
  proof (induction rule: rtranclp_induct)
    case (step u v)
    then have "working u" by blast
    with step(2) show ?case
      by (cases rule: ptp_step.cases) (simp_all add: working_doState callback_frame working_timer)
  qed simp
  then show ?thesis by (auto simp: working_def running_states_def)
qed

theorem port_initialises_once_witness:
  "port_state (doState (doState (boot default_opts calm_env))) \<noteq> PTP_INITIALIZING"
  using port_initialises_once [OF reachable_doState [OF reachable_boot [of default_opts calm_env]] _ _ _
      r_into_rtranclp [where r = ptp_step, OF step_state]] calm_start
  by (auto simp: default_opts_def DEFAULT_MAX_FOREIGN_RECORDS_def)

text \<open>
  C10 (liveness).  When the announce receipt timer of a port that has no other decision pending fires, the next
  \<open>doState\<close> forgets the foreign masters and makes the port the master, or sends a slave-only
  clock back to LISTENING.
\<close>

theorem receipt_timeout_takes_over:
  assumes "settled w" "timers_good w" "expired ANNOUNCE_RECEIPT_TIMER w"
  shows "port_state (doState w) = (if slave_only w then PTP_LISTENING else PTP_MASTER) \<and>
    recommendedState (ptp (doState w)) = port_state (doState w) \<and>
    fm_count (foreignMasterDS (ptp (doState w))) = 0"
proof -
  let ?w = "on_clock (\<lambda>c. c\<lparr>messageActivity := False\<rparr>) w"
  have "fst (timerExpired ANNOUNCE_RECEIPT_TIMER ?w)"
    using assms(2,3) timer_view [of ?w w] timer_effects(7) [of ?w ANNOUNCE_RECEIPT_TIMER ANNOUNCE_RECEIPT_TIMER]
    by (simp add: timer_ix_defs)
  moreover define v where "v = on_clock (\<lambda>c. c\<lparr>foreignMasterDS := (foreignMasterDS c)\<lparr>fm_count := 0, fm_i := 0\<rparr>\<rparr>)
      (snd (timerExpired ANNOUNCE_RECEIPT_TIMER ?w))"
  ultimately have d: "doState w = (if \<not> slave_only v then
      toState PTP_MASTER (on_clock (set_recommended PTP_MASTER) (on_clock m1 v))
      else if port_state v \<noteq> PTP_LISTENING then toState PTP_LISTENING v else v)"
    unfolding settled_doState [OF assms(1)] doState_passive_def Let_def split_beta by simp
  have v: "slave_only v = slave_only w" "port_state v = port_state w"
    "recommendedState (ptp v) = recommendedState (ptp w)" "fm_count (foreignMasterDS (ptp v)) = 0"
    by (simp_all add: v_def slave_only_def port_state_def)
  show ?thesis
    using assms(1) v by (auto simp: d toState_recommends toState_foreign settled_def set_recommended_def)
qed

text \<open>A port that listens, hears nothing and whose timer has fired.\<close>

theorem receipt_timeout_takes_over_witness:
  "port_state (doState ((boot_world calm_env)\<lparr>ptp := zero_clock\<lparr>recommendedState := PTP_LISTENING,
       portDS := (portDS zero_clock)\<lparr>portState := PTP_LISTENING\<rparr>\<rparr>,
     timers := (replicate TIMER_ARRAY_SIZE PTP_TIMER_NEW)
       [ANNOUNCE_RECEIPT_TIMER := \<lparr>t_created = True, t_period = Some 6000, t_expired = True\<rparr>]\<rparr>)) = PTP_MASTER"
  (is "port_state (doState ?w) = _")
proof -
  have "settled ?w" by (simp add: settled_def port_state_def zero_clock_def)
  moreover have "timers_good ?w" by (simp add: timers_good_def)
  moreover have "expired ANNOUNCE_RECEIPT_TIMER ?w" by (simp add: expired_def timer_ix_defs)
  moreover have "\<not> slave_only ?w" by (simp add: slave_only_def zero_clock_def zero_quality_def)
  ultimately show ?thesis using receipt_timeout_takes_over by simp
qed

section \<open>Messages\<close>

text \<open>
  C25 (error).  A message shorter than its kind requires puts the port into FAULTY, whatever state it
  was in; the delay messages count only for the delay mechanism they belong to.
\<close>

theorem short_message_faults:
  assumes "messageType (hdr w) = ANNOUNCE \<and> msgIbufLength (ptp w) < 64 \<or>
    messageType (hdr w) \<in> {SYNC, FOLLOW_UP} \<and> msgIbufLength (ptp w) < 44 \<or>
    messageType (hdr w) = DELAY_REQ \<and> msgIbufLength (ptp w) < 44 \<and> delayMechanism (portDS (ptp w)) = E2E \<or>
    messageType (hdr w) = DELAY_RESP \<and> msgIbufLength (ptp w) < 54 \<and> delayMechanism (portDS (ptp w)) = E2E \<or>
    messageType (hdr w) \<in> {PDELAY_REQ, PDELAY_RESP, PDELAY_RESP_FOLLOW_UP} \<and> msgIbufLength (ptp w) < 54 \<and>
      delayMechanism (portDS (ptp w)) = P2P"
  shows "port_state (dispatch time w) = PTP_FAULTY"
proof -
  have "dispatch time w = toState PTP_FAULTY w"
    using assms by (elim disjE conjE insertE emptyE) (auto dest!: dispatch_kind [where t = time])
  then show ?thesis by simp
qed

theorem short_message_faults_witness:
  "port_state (dispatch zero_time (boot_world calm_env)) = PTP_FAULTY"
  by (rule short_message_faults) (simp add: hdr_def boot_world_def zero_clock_def zero_header_def msg_type_defs)

text \<open>
  A message of another PTP version or another domain is ignored: beyond the activity flag
  and the unpacked header nothing of the clock, the timers or the outputs changes.
\<close>

theorem foreign_domain_ignored:
  assumes "int HEADER_LENGTH \<le> msgIbufLength (ptp w)"
    and "versionPTP (msgUnpackHeader (msgIbuf (ptp w))) \<noteq> versionNumber (portDS (ptp w)) \<or>
      h_domainNumber (msgUnpackHeader (msgIbuf (ptp w))) \<noteq> d_domainNumber (defaultDS (ptp w))"
  shows "handle_message time w =
    w\<lparr>ptp := (ptp w)\<lparr>messageActivity := True, msgTmpHeader := msgUnpackHeader (msgIbuf (ptp w))\<rparr>\<rparr>"
  using assms by (auto simp: handle_message_def Let_def hdr_def on_clock_def)

theorem foreign_domain_ignored_witness:
  "handle_message zero_time ((boot_world calm_env)\<lparr>ptp := sample_port\<lparr>msgIbufLength := 44\<rparr>\<rparr>) =
   (boot_world calm_env)\<lparr>ptp := sample_port\<lparr>msgIbufLength := 44, messageActivity := True,
     msgTmpHeader := msgUnpackHeader (msgIbuf sample_port)\<rparr>\<rparr>"
proof -
  have "versionPTP (msgUnpackHeader (msgIbuf sample_port)) = 0"
    by (simp add: msgUnpackHeader_def sample_port_def zero_clock_def PACKET_SIZE_def peek8_def)
  moreover have "versionNumber (portDS sample_port) = 2" by (simp add: sample_port_def)
  ultimately show ?thesis
    using foreign_domain_ignored [of "(boot_world calm_env)\<lparr>ptp := sample_port\<lparr>msgIbufLength := 44\<rparr>\<rparr>" zero_time]
    by (simp add: HEADER_LENGTH_def)
qed

text \<open>
  C26 (error).  No failure to send is ever noticed: \<open>netSend\<close> reports the message's length on every path,
  so no \<open>issue\<close> function changes the port's state, its recommendation or its timers, and the
  branches to PTP_FAULTY in them are dead.
\<close>

theorem send_failures_go_unnoticed:
  "w' \<in> {issueAnnounce w, issueFollowup t w, issueSync w, issueDelayReq w, issuePDelayReq w,
      snd (issuePDelayResp t h w), issueDelayResp t h w, issuePDelayRespFollowUp t h w} \<Longrightarrow>
   port_state w' = port_state w \<and> recommendedState (ptp w') = recommendedState (ptp w) \<and> timers w' = timers w"
  by (rule quiet_issue_facts) (elim insertE emptyE; simp add: quiet_issues)

theorem send_failures_go_unnoticed_witness:
  "port_state (issueSync (boot_world (calm_env\<lparr>e_alloc := \<lambda>_. False\<rparr>))) = PTP_INITIALIZING"
  using send_failures_go_unnoticed [of "issueSync (boot_world (calm_env\<lparr>e_alloc := \<lambda>_. False\<rparr>))"
      "boot_world (calm_env\<lparr>e_alloc := \<lambda>_. False\<rparr>)"]
  by (simp add: boot_world_state)

text \<open>
  C27 (error).  The sequence check of \<open>handleDelayResp\<close> is computed in \<open>int\<close> while the counter it
  checks is a 16-bit number that wraps: after the request numbered 32767 the counter is -32768, and
  the response to that request, and any other, is dropped.
\<close>

theorem delay_resp_dropped_at_wrap:
  assumes "sentDelayReqSequenceId (ptp w) = -32768" "is_i16 (sequenceId (hdr w))"
    and "int DELAY_RESP_LENGTH \<le> msgIbufLength (ptp w)"
  shows "\<exists>m. handleDelayResp isFromSelf w = w\<lparr>ptp := (ptp w)\<lparr>msgTmp := m\<rparr>\<rparr>"
proof -
  have "sentDelayReqSequenceId (ptp w) - 1 \<noteq> sequenceId (hdr w)"
    using assms(1,2) by (simp add: is_i16_def)
  moreover have "\<exists>m. w = w\<lparr>ptp := (ptp w)\<lparr>msgTmp := m\<rparr>\<rparr>"
    by (rule exI [of _ "msgTmp (ptp w)"]) simp
  ultimately show ?thesis
    using assms(3) by (cases "delayMechanism (portDS (ptp w))")
      (auto simp: handleDelayResp_def Let_def hdr_def on_clock_def)
qed

theorem delay_resp_dropped_at_wrap_witness:
  "\<exists>m. handleDelayResp False ((boot_world calm_env)\<lparr>ptp := sample_clock\<lparr>msgIbufLength := 54,
       msgTmpHeader := zero_header\<lparr>sequenceId := 32767\<rparr>, sentDelayReqSequenceId := -32768\<rparr>\<rparr>) =
     (boot_world calm_env)\<lparr>ptp := sample_clock\<lparr>msgIbufLength := 54,
       msgTmpHeader := zero_header\<lparr>sequenceId := 32767\<rparr>, sentDelayReqSequenceId := -32768, msgTmp := m\<rparr>\<rparr>"
  using delay_resp_dropped_at_wrap [of "(boot_world calm_env)\<lparr>ptp := sample_clock\<lparr>msgIbufLength := 54,
       msgTmpHeader := zero_header\<lparr>sequenceId := 32767\<rparr>, sentDelayReqSequenceId := -32768\<rparr>\<rparr>" False]
  by (simp add: hdr_def is_i16_def DELAY_RESP_LENGTH_def)



end
